(* ===== verification/Cubicle_Prelude.thy ===== *)
theory Cubicle_Prelude
  imports Main "HOL-Library.Word"
begin

text \<open>
  The shared base of the development: bytes and C strings, the error numbers the
  sources store in \<open>errno\<close>, results of fallible calls, the decimal, hexadecimal and
  big-endian notations the sources print, and the lemmas on them that every component
  uses.

  Conventions, which hold in every theory:
  \<^item> a C \<open>char\<close> or \<open>unsigned char\<close> is a HOL \<open>char\<close>, which has exactly 256 values;
    \<open>byte c\<close> is its unsigned value;
  \<^item> a \<open>const char *\<close> argument is the list of its bytes before the terminating NUL;
    where the source tests such a pointer for NULL the argument is an \<open>option\<close>;
  \<^item> an output pointer is a result of the function, so a guard against a NULL output
    pointer has no counterpart;
  \<^item> a function that returns -1 and sets \<open>errno\<close> returns \<open>Inl\<close> of the error number,
    and one that returns 0 returns \<open>Inr\<close> of what it wrote.
\<close>

type_synonym bytes = string

abbreviation byte :: "char \<Rightarrow> nat" where
  "byte \<equiv> of_char"

text \<open>The error numbers the modelled code sets or compares with.\<close>

datatype errno =
    EINVAL | ENOSPC | EOVERFLOW | ENOMEM | E2BIG | ENOENT | EPROTO | EMSGSIZE
  | ENOBUFS | ENAMETOOLONG | EBADF | EIO | EEXIST | EADDRINUSE
  | EINTR | EAGAIN | EPIPE | ENOTDIR | EACCES | ETIMEDOUT | ECHILD | ECONNRESET | ESRCH | OtherErrno nat

type_synonym 'a result = "errno + 'a"

definition SIGTERM :: nat where "SIGTERM = 15"

named_theorems byte_simps \<open>values of byte literals and classes of bytes\<close>
named_theorems print_simps \<open>facts on the printed forms of numbers\<close>

section \<open>Fallible sequencing\<close>

text \<open>
  \<open>a < 0 || b < 0\<close> and \<open>a == 0 && b == 0\<close> in the sources stop at the first failing call.
\<close>

definition rbind :: "'e + 'a \<Rightarrow> ('a \<Rightarrow> 'e + 'b) \<Rightarrow> 'e + 'b" where
  "rbind m f = (case m of Inl e \<Rightarrow> Inl e | Inr x \<Rightarrow> f x)"

definition guard_or :: "'e \<Rightarrow> bool \<Rightarrow> 'e + unit" where
  "guard_or e b = (if b then Inr () else Inl e)"

lemma rbind_simps [simp]:
  "rbind (Inl e) f = Inl e"
  "rbind (Inr x) f = f x"
  by (simp_all add: rbind_def)

lemma rbind_eq_Inr: "rbind m f = Inr y \<longleftrightarrow> (\<exists>x. m = Inr x \<and> f x = Inr y)"
  by (cases m) auto

lemma rbind_eq_Inl: "rbind m f = Inl e \<longleftrightarrow> m = Inl e \<or> (\<exists>x. m = Inr x \<and> f x = Inl e)"
  by (cases m) auto

lemma rbind_assoc: "rbind (rbind m f) g = rbind m (\<lambda>x. rbind (f x) g)"
  by (cases m) auto

lemma guard_or_simps [simp]:
  "guard_or e True = Inr ()"
  "guard_or e False = Inl e"
  "guard_or e b = Inr u \<longleftrightarrow> b"
  by (simp_all add: guard_or_def)

section \<open>Bytes and C strings\<close>

text \<open>
  \<open>cstr b\<close> is what \<open>strlen\<close>, \<open>strcmp\<close> and \<open>%s\<close> see of a buffer: the bytes before the
  first NUL. A list of bytes is a C string when it has no NUL.
\<close>

abbreviation NUL :: char where
  "NUL \<equiv> CHR 0x00"

definition cstr :: "bytes \<Rightarrow> bytes" where
  "cstr b = takeWhile (\<lambda>c. c \<noteq> NUL) b"

definition is_cstr :: "bytes \<Rightarrow> bool" where
  "is_cstr s \<longleftrightarrow> NUL \<notin> set s"

lemma cstr_id: "is_cstr s \<Longrightarrow> cstr s = s"
  by (auto simp: cstr_def is_cstr_def takeWhile_eq_all_conv)

lemma is_cstr_cstr [simp]: "is_cstr (cstr s)"
  by (auto simp: cstr_def is_cstr_def dest: set_takeWhileD)

lemma is_cstr_append [simp]: "is_cstr (a @ b) \<longleftrightarrow> is_cstr a \<and> is_cstr b"
  by (auto simp: is_cstr_def)

lemma is_cstr_Cons [simp]: "is_cstr (c # b) \<longleftrightarrow> c \<noteq> NUL \<and> is_cstr b"
  by (auto simp: is_cstr_def)

lemma is_cstr_Nil [simp]: "is_cstr []"
  by (simp add: is_cstr_def)

lemma length_cstr_le: "length (cstr s) \<le> length s"
  by (simp add: cstr_def length_takeWhile_le)

lemma char_of_inject_256:
  "m < 256 \<Longrightarrow> n < 256 \<Longrightarrow> (char_of m :: char) = char_of n \<longleftrightarrow> m = (n :: nat)"
  by (simp add: char_of_eq_iff take_bit_eq_mod)

text \<open>\<open>isspace\<close> in the C locale: space, \<open>\\t\<close>, \<open>\\n\<close>, \<open>\\v\<close>, \<open>\\f\<close>, \<open>\\r\<close>.\<close>

definition isspace :: "char \<Rightarrow> bool" where
  "isspace c \<longleftrightarrow> byte c = 32 \<or> (9 \<le> byte c \<and> byte c \<le> 13)"

section \<open>Printed numbers\<close>

text \<open>\<open>%u\<close>, \<open>%zu\<close>, \<open>%llu\<close> on a natural number and \<open>%d\<close>, \<open>%ld\<close>, \<open>%lld\<close> on an integer.\<close>

definition digit_char :: "nat \<Rightarrow> char" where
  "digit_char d = char_of (48 + d)"

fun show_nat :: "nat \<Rightarrow> string" where
  "show_nat n = (if n < 10 then [digit_char n] else show_nat (n div 10) @ [digit_char (n mod 10)])"

declare show_nat.simps [simp del]

definition show_int :: "int \<Rightarrow> string" where
  "show_int i = (if i < 0 then CHR ''-'' # show_nat (nat (- i)) else show_nat (nat i))"

definition is_digit :: "char \<Rightarrow> bool" where
  "is_digit c \<longleftrightarrow> 48 \<le> byte c \<and> byte c \<le> 57"

definition digit_value :: "char \<Rightarrow> nat" where
  "digit_value c = byte c - 48"

definition dec_value :: "string \<Rightarrow> nat" where
  "dec_value s = foldl (\<lambda>v c. 10 * v + digit_value c) 0 s"

lemma digit_char_facts [print_simps]:
  assumes "d < 10"
  shows "byte (digit_char d) = 48 + d" "is_digit (digit_char d)" "digit_value (digit_char d) = d"
  using assms by (simp_all add: digit_char_def is_digit_def digit_value_def)

lemma show_nat_digits: "c \<in> set (show_nat n) \<Longrightarrow> is_digit c"
proof (induction n rule: show_nat.induct)
  case (1 n)
  then show ?case
    by (subst (asm) (2) show_nat.simps) (auto simp: print_simps split: if_splits)
qed

lemma dec_value_snoc: "dec_value (s @ [c]) = 10 * dec_value s + digit_value c"
  by (simp add: dec_value_def)

lemma dec_value_show_nat [simp]: "dec_value (show_nat n) = n"
proof (induction n rule: show_nat.induct)
  case (1 n)
  show ?case
  proof (cases "n < 10")
    case True
    then show ?thesis
      by (subst show_nat.simps) (simp add: dec_value_def print_simps)
  next
    case False
    with 1 have "dec_value (show_nat (n div 10)) = n div 10" by simp
    with False show ?thesis
      by (subst show_nat.simps) (simp add: dec_value_snoc print_simps)
  qed
qed

lemma show_nat_nonempty [simp]: "show_nat n \<noteq> []"
  by (subst show_nat.simps) simp

lemma length_show_nat_pos [simp]: "0 < length (show_nat n)"
  by simp

lemma show_nat_inject [simp]: "show_nat m = show_nat n \<longleftrightarrow> m = n"
  by (metis dec_value_show_nat)

lemma is_digit_not_NUL: "is_digit c \<Longrightarrow> c \<noteq> NUL"
  by (auto simp: is_digit_def)

lemma is_cstr_show_nat [simp]: "is_cstr (show_nat n)"
  using show_nat_digits is_digit_not_NUL by (fastforce simp: is_cstr_def)

lemma is_cstr_show_int [simp]: "is_cstr (show_int i)"
  by (simp add: show_int_def)

text \<open>A number below \<open>10 ^ k\<close> prints in at most \<open>k\<close> digits.\<close>

lemma length_show_nat_le: "n < 10 ^ k \<Longrightarrow> 0 < k \<Longrightarrow> length (show_nat n) \<le> k"
proof (induction n arbitrary: k rule: show_nat.induct)
  case (1 n)
  show ?case
  proof (cases "n < 10")
    case True
    with "1.prems" show ?thesis by (subst show_nat.simps) simp
  next
    case False
    with "1.prems" have k: "0 < k - 1"
      by (cases k) (auto intro!: Nat.gr0I)
    have "n div 10 < 10 ^ (k - 1)"
      using "1.prems" by (cases k) (auto simp: less_mult_imp_div_less mult.commute)
    with False k have "length (show_nat (n div 10)) \<le> k - 1"
      by (intro "1.IH") auto
    with False k show ?thesis by (subst show_nat.simps) simp
  qed
qed

text \<open>No leading zero, except in the number zero itself.\<close>

lemma hd_show_nat: "0 < n \<Longrightarrow> hd (show_nat n) \<noteq> CHR ''0''"
proof (induction n rule: show_nat.induct)
  case (1 n)
  show ?case
  proof (cases "n < 10")
    case True
    with "1.prems" have "byte (digit_char n) \<noteq> byte CHR ''0''"
      by (simp add: print_simps)
    then have "digit_char n \<noteq> CHR ''0''" by auto
    with True show ?thesis by (subst show_nat.simps) simp
  next
    case False
    with "1.IH" show ?thesis by (subst show_nat.simps) simp
  qed
qed

section \<open>Hexadecimal\<close>

definition hex_char :: "nat \<Rightarrow> char" where
  "hex_char d = (if d < 10 then char_of (48 + d) else char_of (87 + d))"

definition hex2 :: "char \<Rightarrow> string" where
  "hex2 c = [hex_char (byte c div 16), hex_char (byte c mod 16)]"

definition hex_value :: "char \<Rightarrow> nat option" where
  "hex_value c =
     (if 48 \<le> byte c \<and> byte c \<le> 57 then Some (byte c - 48)
      else if 97 \<le> byte c \<and> byte c \<le> 102 then Some (byte c - 87)
      else if 65 \<le> byte c \<and> byte c \<le> 70 then Some (byte c - 55)
      else None)"

lemma hex_value_hex_char [simp]: "d < 16 \<Longrightarrow> hex_value (hex_char d) = Some d"
  by (auto simp: hex_value_def hex_char_def)

lemma length_hex2 [simp]: "length (hex2 c) = 2"
  by (simp add: hex2_def)

lemma hex2_value:
  "hex_value (hex2 c ! 0) = Some (byte c div 16)" "hex_value (hex2 c ! 1) = Some (byte c mod 16)"
  by (simp_all add: hex2_def less_mult_imp_div_less)

section \<open>Network byte order\<close>

text \<open>\<open>htonl\<close> followed by a copy of the four bytes, and its inverse.\<close>

definition be32 :: "nat \<Rightarrow> bytes" where
  "be32 n = [char_of (n div 2 ^ 24), char_of (n div 2 ^ 16), char_of (n div 2 ^ 8), char_of n]"

fun of_be32 :: "bytes \<Rightarrow> nat" where
  "of_be32 (a # b # c # d # _) = byte a * 2 ^ 24 + byte b * 2 ^ 16 + byte c * 2 ^ 8 + byte d"
| "of_be32 _ = 0"

lemma length_be32 [simp]: "length (be32 n) = 4"
  by (simp add: be32_def)

lemma of_be32_be32:
  assumes "n < 2 ^ 32"
  shows "of_be32 (be32 n @ rest) = n"
proof -
  define q1 q2 q3 where "q1 = n div 256" and "q2 = q1 div 256" and "q3 = q2 div 256"
  define r0 r1 r2 where "r0 = n mod 256" and "r1 = q1 mod 256" and "r2 = q2 mod 256"
  note qs = q1_def q2_def q3_def r0_def r1_def r2_def
  have q: "n div 2 ^ 8 = q1" "n div 2 ^ 16 = q2" "n div 2 ^ 24 = q3"
    by (simp_all add: qs div_mult2_eq [symmetric])
  have "q3 < 256"
    using assms by (simp add: qs div_mult2_eq [symmetric] less_mult_imp_div_less)
  then have "q3 mod 256 = q3" by simp
  moreover have "n = 256 * q1 + r0" "q1 = 256 * q2 + r1" "q2 = 256 * q3 + r2"
    by (simp_all add: qs)
  ultimately have "q3 mod 256 * 16777216 + r2 * 65536 + r1 * 256 + r0 = n"
    by linarith
  moreover have "of_be32 (be32 n @ rest) = q3 mod 256 * 2 ^ 24 + r2 * 2 ^ 16 + r1 * 2 ^ 8 + r0"
    by (simp only: be32_def append.simps of_be32.simps of_char_of q r0_def r1_def r2_def)
  ultimately show ?thesis by simp
qed

lemma be32_inject:
  assumes "m < 2 ^ 32" "n < 2 ^ 32"
  shows "be32 m = be32 n \<longleftrightarrow> m = n"
  using of_be32_be32 [of m "[]"] of_be32_be32 [of n "[]"] assms by (metis append_Nil2)

lemma of_be32_less: "of_be32 (a # b # c # d # r) < 2 ^ 32"
proof -
  have "byte a \<le> 255" "byte b \<le> 255" "byte c \<le> 255" "byte d \<le> 255"
    using nat_of_char_less_256 by (auto simp: less_Suc_eq_le [symmetric])
  then show ?thesis by simp
qed

lemma be32_of_be32: "be32 (of_be32 [a, b, c, d]) = [a, b, c, d]"
proof -
  have step: "(x * 256 + byte y) div 256 = x" "char_of (x * 256 + byte y) = y" for x y
    by (simp_all add: char_of_eq_iff take_bit_eq_mod mod_add_eq)
  define n where "n = ((byte a * 256 + byte b) * 256 + byte c) * 256 + byte d"
  have "n div 256 = (byte a * 256 + byte b) * 256 + byte c"
    unfolding n_def by (rule step)
  moreover from this have "n div 65536 = byte a * 256 + byte b"
    using div_mult2_eq [of n 256 256] by (simp only: step) simp
  moreover from this have "n div 16777216 = byte a"
    using div_mult2_eq [of n 65536 256] by (simp only: step) simp
  ultimately have "n div 2 ^ 8 = (byte a * 256 + byte b) * 256 + byte c"
    "n div 2 ^ 16 = byte a * 256 + byte b" "n div 2 ^ 24 = byte a"
    by simp_all
  moreover have "char_of n = d"
    unfolding n_def by (rule step)
  ultimately have "be32 n = [a, b, c, d]"
    by (simp only: be32_def step char_of_char)
  moreover have "of_be32 [a, b, c, d] = n"
    by (simp add: n_def)
  ultimately show ?thesis by simp
qed

declare of_be32.simps [simp del]

section \<open>Lists\<close>

lemma take_length_append_same [simp]: "take (length a) (a @ b) = a"
  by simp

lemma append_eq_append_same_length:
  "length a = length c \<Longrightarrow> a @ b = c @ d \<longleftrightarrow> a = c \<and> b = d"
  by simp

lemma dropWhile_Nil_iff: "dropWhile P s = [] \<longleftrightarrow> (\<forall>c \<in> set s. P c)"
  by (induction s) auto

end
