(* ===== verification/Config_Parser.thy ===== *)
theory Config_Parser
  imports Cubicle_Prelude
begin

text \<open>
  The built-in configuration parser of \<open>src/src/common/config_parser.c\<close>, compiled where
  \<open>libeconf\<close> is not: sections in brackets, \<open>key = value\<close> lines, comments after \<open>#\<close> and \<open>;\<close>.
  \<open>alloc\<close> says whether an allocation of so many bytes is granted. The stream is what
  \<open>fopen\<close> gives: an error, or the bytes \<open>getline\<close> delivers and the error that ended them.
\<close>

section \<open>The table of entries\<close>

record config_entry =
  ce_group :: bytes
  ce_key :: bytes
  ce_value :: bytes

record config_file =
  entries :: "config_entry list"
  capacity :: nat

datatype 'a parser_result =
    PARSER_SUCCESS 'a
  | PARSER_NO_FILE
  | PARSER_NOT_FOUND
  | PARSER_ERROR bytes

definition strip_end :: "bytes \<Rightarrow> bytes" where
  "strip_end text = rev (dropWhile isspace (rev text))"

definition trim :: "bytes \<Rightarrow> bytes" where
  "trim text = strip_end (dropWhile isspace text)"

definition set_error :: "nat \<Rightarrow> bytes \<Rightarrow> bytes" where
  "set_error error_size message = take (error_size - 1) message"

definition set_line_error :: "nat \<Rightarrow> nat \<Rightarrow> bytes \<Rightarrow> bytes" where
  "set_line_error error_size line_number message =
     take (error_size - 1) (''line '' @ show_nat line_number @ '': '' @ message)"

definition strdup_ok :: "(nat \<Rightarrow> bool) \<Rightarrow> bytes \<Rightarrow> bool" where
  "strdup_ok alloc s \<longleftrightarrow> alloc (length s + 1)"

text \<open>The first entry with the key gets the value; \<open>None\<close> when there is none.\<close>

fun replace_entry :: "config_entry list \<Rightarrow> bytes \<Rightarrow> bytes \<Rightarrow> bytes \<Rightarrow> config_entry list option" where
  "replace_entry [] grp key v = None"
| "replace_entry (entry # es) grp key v =
     (if ce_group entry = grp \<and> ce_key entry = key then Some (entry\<lparr>ce_value := v\<rparr> # es)
      else map_option ((#) entry) (replace_entry es grp key v))"

definition add_entry ::
    "(nat \<Rightarrow> bool) \<Rightarrow> config_file \<Rightarrow> bytes \<Rightarrow> bytes \<Rightarrow> bytes \<Rightarrow> config_file option" where
  "add_entry alloc file grp key v =
     (case replace_entry (entries file) grp key v of
        Some es \<Rightarrow> if strdup_ok alloc v then Some (file\<lparr>entries := es\<rparr>) else None
      | None \<Rightarrow>
          let full = (length (entries file) = capacity file);
              cap = (if capacity file = 0 then 16 else capacity file * 2) in
          if full \<and> \<not> alloc (cap * 24) then None
          else if strdup_ok alloc grp \<and> strdup_ok alloc key \<and> strdup_ok alloc v then
            Some \<lparr>entries = entries file @ [\<lparr>ce_group = grp, ce_key = key, ce_value = v\<rparr>],
                  capacity = (if full then cap else capacity file)\<rparr>
          else None)"

section \<open>Reading a file\<close>

text \<open>The lines \<open>getline\<close> returns, each with its newline.\<close>

fun getlines :: "bytes \<Rightarrow> bytes list" where
  "getlines [] = []"
| "getlines (c # cs) =
     (if c = CHR 0x0A then [c] # getlines cs
      else case getlines cs of
        [] \<Rightarrow> [[c]]
      | l # ls \<Rightarrow> (c # l) # ls)"

text \<open>One line: the error text, or the current section and the table after it.\<close>

definition read_line ::
    "(nat \<Rightarrow> bool) \<Rightarrow> nat \<Rightarrow> nat \<Rightarrow> bytes \<Rightarrow> bytes \<times> config_file \<Rightarrow> bytes + (bytes \<times> config_file)" where
  "read_line alloc error_size line_number line st =
     (let text = trim (cstr line); grp = fst st; file = snd st in
      case text of
        [] \<Rightarrow> Inr st
      | c # rest \<Rightarrow>
          if c = CHR ''#'' \<or> c = CHR '';'' then Inr st
          else if c = CHR ''['' then
            (if CHR '']'' \<notin> set rest \<or> trim (tl (dropWhile (\<lambda>d. d \<noteq> CHR '']'') rest)) \<noteq> [] then
               Inl (set_line_error error_size line_number ''invalid section'')
             else
               let name = trim (takeWhile (\<lambda>d. d \<noteq> CHR '']'') rest) in
               if name = [] \<or> length name \<ge> 256 then
                 Inl (set_line_error error_size line_number ''invalid section'')
               else Inr (name, file))
          else if CHR ''='' \<notin> set text then
            Inl (set_line_error error_size line_number ''expected key=value'')
          else
            let key = trim (takeWhile (\<lambda>d. d \<noteq> CHR ''='') text);
                v = trim (tl (dropWhile (\<lambda>d. d \<noteq> CHR ''='') text)) in
            if grp = [] \<or> key = [] then
              Inl (set_line_error error_size line_number ''key must be in a section'')
            else
              (case add_entry alloc file grp key v of
                 None \<Rightarrow> Inl (set_error error_size ''out of memory'')
               | Some file' \<Rightarrow> Inr (grp, file')))"

fun read_lines ::
    "(nat \<Rightarrow> bool) \<Rightarrow> nat \<Rightarrow> nat \<Rightarrow> bytes list \<Rightarrow> bytes \<times> config_file \<Rightarrow> bytes + (bytes \<times> config_file)" where
  "read_lines alloc error_size line_number [] st = Inr st"
| "read_lines alloc error_size line_number (line # ls) st =
     rbind (read_line alloc error_size (line_number + 1) line st)
       (read_lines alloc error_size (line_number + 1) ls)"

text \<open>\<open>strerror\<close> is the parameter \<open>errstr\<close>; a file structure of 24 bytes comes from \<open>calloc\<close>.\<close>

definition cubicle_config_file_read ::
    "(nat \<Rightarrow> bool) \<Rightarrow> (errno \<Rightarrow> bytes) \<Rightarrow> errno + (bytes \<times> errno option) \<Rightarrow> nat \<Rightarrow> config_file parser_result" where
  "cubicle_config_file_read alloc errstr stream error_size =
     (case stream of
        Inl e \<Rightarrow> if e = ENOENT then PARSER_NO_FILE else PARSER_ERROR (set_error error_size (errstr e))
      | Inr (content, ferror) \<Rightarrow>
          if \<not> alloc 24 then PARSER_ERROR (set_error error_size ''out of memory'')
          else
            (case read_lines alloc error_size 0 (getlines content) ([], \<lparr>entries = [], capacity = 0\<rparr>) of
               Inl msg \<Rightarrow> PARSER_ERROR msg
             | Inr (grp, file) \<Rightarrow>
                 (case ferror of
                    Some e \<Rightarrow> PARSER_ERROR (set_error error_size (errstr e))
                  | None \<Rightarrow> PARSER_SUCCESS file)))"

section \<open>Looking entries up\<close>

fun find_entry :: "config_entry list \<Rightarrow> bytes \<Rightarrow> bytes \<Rightarrow> bytes option" where
  "find_entry [] grp key = None"
| "find_entry (entry # es) grp key =
     (if ce_group entry = grp \<and> ce_key entry = key then Some (ce_value entry)
      else find_entry es grp key)"

definition cubicle_config_file_get_string ::
    "(nat \<Rightarrow> bool) \<Rightarrow> config_file \<Rightarrow> bytes \<Rightarrow> bytes \<Rightarrow> nat \<Rightarrow> bytes parser_result" where
  "cubicle_config_file_get_string alloc file grp key error_size =
     (case find_entry (entries file) grp key of
        None \<Rightarrow> PARSER_NOT_FOUND
      | Some v \<Rightarrow>
          if strdup_ok alloc v then PARSER_SUCCESS v
          else PARSER_ERROR (set_error error_size ''out of memory''))"

definition group_keys :: "config_file \<Rightarrow> bytes \<Rightarrow> bytes list" where
  "group_keys file grp = map ce_key (filter (\<lambda>entry. ce_group entry = grp) (entries file))"

definition cubicle_config_file_get_keys ::
    "(nat \<Rightarrow> bool) \<Rightarrow> config_file \<Rightarrow> bytes \<Rightarrow> nat \<Rightarrow> bytes list parser_result" where
  "cubicle_config_file_get_keys alloc file grp error_size =
     (let keys = group_keys file grp in
      if keys = [] then PARSER_NOT_FOUND
      else if \<not> alloc (length keys * 8) then PARSER_ERROR (set_error error_size ''out of memory'')
      else if \<not> list_all (strdup_ok alloc) keys then PARSER_ERROR (set_error error_size ''out of memory'')
      else PARSER_SUCCESS keys)"

section \<open>The table as a map\<close>

text \<open>
  What the reader relies on of the table: an insertion that succeeds changes the value of
  one key and keeps the invariant.
\<close>

locale config_table =
  fixes inv :: "'t \<Rightarrow> bool" and lookup :: "'t \<Rightarrow> 'k \<Rightarrow> 'v option"
    and ins :: "'t \<Rightarrow> 'k \<Rightarrow> 'v \<Rightarrow> 't option"
  assumes insert_inv: "inv t \<Longrightarrow> ins t k v = Some t' \<Longrightarrow> inv t'"
    and insert_lookup: "inv t \<Longrightarrow> ins t k v = Some t' \<Longrightarrow> lookup t' = (lookup t)(k \<mapsto> v)"
begin

fun insert_all :: "'t \<Rightarrow> ('k \<times> 'v) list \<Rightarrow> 't option" where
  "insert_all t [] = Some t"
| "insert_all t (kv # kvs) = Option.bind (ins t (fst kv) (snd kv)) (\<lambda>t'. insert_all t' kvs)"

lemma insert_all_lookup:
  "inv t \<Longrightarrow> insert_all t kvs = Some t' \<Longrightarrow> inv t' \<and> lookup t' = lookup t ++ map_of (rev kvs)"
proof (induction kvs arbitrary: t)
  case (Cons kv kvs)
  then obtain s where s: "ins t (fst kv) (snd kv) = Some s" "insert_all s kvs = Some t'"
    by (auto simp: bind_eq_Some_conv)
  show ?case
    using Cons.IH [OF insert_inv [OF Cons.prems(1) s(1)] s(2)] insert_lookup [OF Cons.prems(1) s(1)]
    by (cases kv) (simp add: map_add_assoc map_add_def fun_eq_iff split: option.splits)
qed simp

lemma insert_all_append:
  "insert_all t (xs @ ys) = Option.bind (insert_all t xs) (\<lambda>t'. insert_all t' ys)"
  by (induction xs arbitrary: t) (auto simp: Option.bind_assoc)

end

text \<open>No two entries share section and key, and the entries fit the array.\<close>

definition table_ok :: "config_file \<Rightarrow> bool" where
  "table_ok file \<longleftrightarrow> distinct (map (\<lambda>e. (ce_group e, ce_key e)) (entries file))
     \<and> length (entries file) \<le> capacity file"

definition table_lookup :: "config_file \<Rightarrow> bytes \<times> bytes \<Rightarrow> bytes option" where
  "table_lookup file gk = find_entry (entries file) (fst gk) (snd gk)"

definition table_insert ::
    "(nat \<Rightarrow> bool) \<Rightarrow> config_file \<Rightarrow> bytes \<times> bytes \<Rightarrow> bytes \<Rightarrow> config_file option" where
  "table_insert alloc file gk v = add_entry alloc file (fst gk) (snd gk) v"

lemma replace_entry_Some:
  assumes "replace_entry es g k v = Some es'"
  shows "map (\<lambda>e. (ce_group e, ce_key e)) es' = map (\<lambda>e. (ce_group e, ce_key e)) es
    \<and> find_entry es' g' k' = (if g' = g \<and> k' = k then Some v else find_entry es g' k')"
  using assms by (induction es arbitrary: es') (auto split: if_splits)

lemma replace_entry_None:
  "replace_entry es g k v = None \<longleftrightarrow> (g, k) \<notin> set (map (\<lambda>e. (ce_group e, ce_key e)) es)"
  by (induction es) auto

lemma find_entry_append:
  "find_entry (es @ es') g k = (case find_entry es g k of None \<Rightarrow> find_entry es' g k | Some v \<Rightarrow> Some v)"
  by (induction es) auto

lemma find_entry_None:
  "find_entry es g k = None \<longleftrightarrow> (g, k) \<notin> set (map (\<lambda>e. (ce_group e, ce_key e)) es)"
  by (induction es) auto

lemma add_entry_cases:
  assumes "add_entry alloc file g k v = Some file'"
  obtains (Replace) es where "replace_entry (entries file) g k v = Some es" "file' = file\<lparr>entries := es\<rparr>"
  | (Append) "(g, k) \<notin> set (map (\<lambda>e. (ce_group e, ce_key e)) (entries file))"
      "entries file' = entries file @ [\<lparr>ce_group = g, ce_key = k, ce_value = v\<rparr>]"
      "length (entries file) \<le> capacity file \<Longrightarrow> length (entries file) < capacity file'"
proof (cases "replace_entry (entries file) g k v")
  case None
  moreover have "(g, k) \<notin> set (map (\<lambda>e. (ce_group e, ce_key e)) (entries file))"
    using None by (simp only: replace_entry_None) simp
  ultimately show thesis
    using assms by (intro Append) (auto simp: add_entry_def Let_def split: if_splits)
next
  case (Some es)
  then show thesis using assms by (intro Replace) (auto simp: add_entry_def split: if_splits)
qed

interpretation table: config_table table_ok table_lookup "table_insert alloc"
proof
  fix t gk v t'
  assume ok: "table_ok t" and "table_insert alloc t gk v = Some t'"
  then have ins: "add_entry alloc t (fst gk) (snd gk) v = Some t'" by (simp add: table_insert_def)
  then show "table_ok t'"
  proof (cases rule: add_entry_cases)
    case (Replace es)
    have "length es = length (entries t)"
      using replace_entry_Some [OF Replace(1)] by (metis length_map)
    then show ?thesis
      using ok Replace replace_entry_Some [OF Replace(1)] by (simp add: table_ok_def)
  next
    case Append
    then show ?thesis using ok by (auto simp: table_ok_def)
  qed
  from ins show "table_lookup t' = (table_lookup t)(gk \<mapsto> v)"
  proof (cases rule: add_entry_cases)
    case (Replace es)
    then show ?thesis
      using replace_entry_Some [OF Replace(1)] by (auto simp: table_lookup_def fun_eq_iff)
  next
    case Append
    then have "find_entry (entries t) (fst gk) (snd gk) = None"
      by (simp only: find_entry_None) simp
    then show ?thesis
      using Append(2) by (auto simp: table_lookup_def find_entry_append fun_eq_iff split: option.splits)
  qed
qed

section \<open>Trimming\<close>

lemma dropWhile_space: "list_all isspace w \<Longrightarrow> dropWhile isspace (w @ s) = dropWhile isspace s"
  by (induction w) auto

lemma dropWhile_all_space: "list_all isspace w \<Longrightarrow> dropWhile isspace w = []"
  by (induction w) auto

lemma strip_end_space: "list_all isspace w \<Longrightarrow> strip_end (s @ w) = strip_end s"
  by (simp add: strip_end_def dropWhile_space)

lemma trim_space_left: "list_all isspace w \<Longrightarrow> trim (w @ s) = trim s"
  by (simp add: trim_def dropWhile_space)

lemma trim_space_right: "list_all isspace w \<Longrightarrow> trim (s @ w) = trim s"
proof (cases "\<exists>c \<in> set s. \<not> isspace c")
  case True
  assume "list_all isspace w"
  then show ?thesis using True by (auto simp: trim_def dropWhile_append1 strip_end_space)
next
  case False
  assume "list_all isspace w"
  moreover have "list_all isspace s" using False by (simp add: list_all_iff)
  ultimately show ?thesis by (simp add: trim_def dropWhile_space dropWhile_all_space)
qed

lemma trim_id: "s \<noteq> [] \<Longrightarrow> \<not> isspace (hd s) \<Longrightarrow> \<not> isspace (last s) \<Longrightarrow> trim s = s"
  by (simp add: trim_def strip_end_def dropWhile_eq_self_iff [THEN iffD2] hd_rev)

lemma dropWhile_shorter: "s \<noteq> [] \<Longrightarrow> P (hd s) \<Longrightarrow> length (dropWhile P s) < length s"
  using length_dropWhile_le [of P "tl s"] by (cases s) auto

lemma trim_fixed:
  assumes "trim s = s" "s \<noteq> []"
  shows "\<not> isspace (hd s) \<and> \<not> isspace (last s)"
proof -
  have le: "length (strip_end u) \<le> length u" for u
    using length_dropWhile_le [of isspace "rev u"] by (simp add: strip_end_def)
  have h: "\<not> isspace (hd s)"
    using assms le [of "dropWhile isspace s"] dropWhile_shorter [of s isspace]
    by (auto simp: trim_def)
  then have "strip_end s = s"
    using assms by (simp add: trim_def dropWhile_eq_self_iff [THEN iffD2])
  then have "length (dropWhile isspace (rev s)) = length (rev s)"
    by (metis length_rev strip_end_def)
  then have "\<not> isspace (last s)"
    using assms(2) dropWhile_shorter [of "rev s" isspace] by (auto simp: hd_rev)
  with h show ?thesis by blast
qed

section \<open>Printing a configuration\<close>

definition newline :: char where
  "newline = CHR 0x0A"

definition ini_text :: "bytes \<Rightarrow> bool" where
  "ini_text s \<longleftrightarrow> trim s = s \<and> newline \<notin> set s \<and> is_cstr s"

definition ini_section :: "bytes \<Rightarrow> bool" where
  "ini_section s \<longleftrightarrow> ini_text s \<and> s \<noteq> [] \<and> CHR '']'' \<notin> set s \<and> length s < 256"

definition ini_key :: "bytes \<Rightarrow> bool" where
  "ini_key s \<longleftrightarrow> ini_text s \<and> s \<noteq> [] \<and> CHR ''='' \<notin> set s \<and> hd s \<notin> {CHR ''#'', CHR '';'', CHR ''[''}"

definition print_entry :: "bytes \<times> bytes \<Rightarrow> bytes list" where
  "print_entry kv = [fst kv @ '' = '' @ snd kv @ [newline]]"

definition print_section :: "bytes \<times> (bytes \<times> bytes) list \<Rightarrow> bytes list" where
  "print_section sec = (CHR ''['' # fst sec @ [CHR '']'', newline]) # concat (map print_entry (snd sec))"

definition section_ok :: "bytes \<times> (bytes \<times> bytes) list \<Rightarrow> bool" where
  "section_ok sec \<longleftrightarrow> ini_section (fst sec) \<and> (\<forall>kv \<in> set (snd sec). ini_key (fst kv) \<and> ini_text (snd kv))"

definition assignments :: "(bytes \<times> (bytes \<times> bytes) list) list \<Rightarrow> ((bytes \<times> bytes) \<times> bytes) list" where
  "assignments secs = concat (map (\<lambda>sec. map (\<lambda>kv. ((fst sec, fst kv), snd kv)) (snd sec)) secs)"

lemma getlines_line: "newline \<notin> set l \<Longrightarrow> getlines (l @ newline # r) = (l @ [newline]) # getlines r"
  by (induction l) (auto simp: newline_def)

lemma getlines_concat:
  "(\<And>l. l \<in> set ls \<Longrightarrow> \<exists>b. l = b @ [newline] \<and> newline \<notin> set b) \<Longrightarrow> getlines (concat ls) = ls"
proof (induction ls)
  case (Cons l ls)
  then obtain b where "l = b @ [newline]" "newline \<notin> set b" by auto
  then show ?case using Cons getlines_line [of b "concat ls"] by simp
qed simp

lemma isspace_newline [simp]: "isspace newline" "newline \<noteq> NUL"
  by (simp_all add: isspace_def newline_def)

lemma isspace_punct [simp]: "\<not> isspace (CHR ''['')" "\<not> isspace (CHR '']'')" "\<not> isspace (CHR ''='')"
  "isspace (CHR '' '')"
  by (simp_all add: isspace_def)

lemma strchr_split:
  "x \<notin> set g \<Longrightarrow> takeWhile (\<lambda>d. d \<noteq> x) (g @ x # r) = g"
  "x \<notin> set g \<Longrightarrow> dropWhile (\<lambda>d. d \<noteq> x) (g @ x # r) = x # r"
  by (induction g) auto

lemma trim_Nil [simp]: "trim [] = []"
  by (simp add: trim_def strip_end_def)

lemma read_section_line:
  assumes "ini_section g"
  shows "read_line alloc n i (CHR ''['' # g @ [CHR '']'', newline]) (g', file) = Inr (g, file)"
proof -
  have g: "is_cstr g" "g \<noteq> []" "CHR '']'' \<notin> set g" "length g < 256" "trim g = g"
    using assms by (simp_all add: ini_section_def ini_text_def)
  have "trim (cstr (CHR ''['' # g @ [CHR '']'', newline])) = CHR ''['' # g @ [CHR '']'']"
    using g(1) trim_space_right [of "[newline]" "CHR ''['' # g @ [CHR '']'']"] trim_id [of "CHR ''['' # g @ [CHR '']'']"]
    by (simp add: cstr_id)
  then show ?thesis using g by (simp add: read_line_def strchr_split)
qed

lemma read_line_assign:
  assumes "trim (cstr line) = body" "body \<noteq> []" "hd body \<notin> {CHR ''#'', CHR '';'', CHR ''[''}"
    and "CHR ''='' \<in> set body" "g \<noteq> []" "k \<noteq> []"
    and "trim (takeWhile (\<lambda>d. d \<noteq> CHR ''='') body) = k"
    and "trim (tl (dropWhile (\<lambda>d. d \<noteq> CHR ''='') body)) = v"
  shows "read_line alloc n i line (g, file) =
    (case add_entry alloc file g k v of
       None \<Rightarrow> Inl (set_error n ''out of memory'') | Some file' \<Rightarrow> Inr (g, file'))"
  using assms by (cases body) (simp_all add: read_line_def Let_def)

lemma read_entry_line:
  assumes "ini_key k" "ini_text v" "g \<noteq> []"
  shows "read_line alloc n i (k @ '' = '' @ v @ [newline]) (g, file) =
    (case add_entry alloc file g k v of
       None \<Rightarrow> Inl (set_error n ''out of memory'') | Some file' \<Rightarrow> Inr (g, file'))"
proof -
  have k: "is_cstr k" "k \<noteq> []" "CHR ''='' \<notin> set k" "trim k = k"
    "hd k \<notin> {CHR ''#'', CHR '';'', CHR ''[''}" "\<not> isspace (hd k)"
    using assms(1) trim_fixed [of k] by (simp_all add: ini_key_def ini_text_def)
  have v: "is_cstr v" "trim v = v" using assms(2) by (simp_all add: ini_text_def)
  define body where "body = k @ CHR '' '' # CHR ''='' # (if v = [] then [] else CHR '' '' # v)"
  have "cstr (k @ '' = '' @ v @ [newline]) = body @ (if v = [] then [CHR '' '', newline] else [newline])"
    using k(1) v(1) by (simp add: cstr_id body_def)
  moreover have "trim body = body"
    using k(2,6) v(2) trim_fixed [of v] by (intro trim_id) (auto simp: body_def)
  ultimately have t: "trim (cstr (k @ '' = '' @ v @ [newline])) = body"
    using trim_space_right [of "if v = [] then [CHR '' '', newline] else [newline]" body] by simp
  have tk: "takeWhile (\<lambda>d. d \<noteq> CHR ''='') body = k @ '' ''"
    "tl (dropWhile (\<lambda>d. d \<noteq> CHR ''='') body) = (if v = [] then [] else CHR '' '' # v)"
    using strchr_split [of "CHR ''=''" "k @ '' ''"] k(3) by (simp_all add: body_def)
  have "trim (k @ '' '') = k" "trim (if v = [] then [] else CHR '' '' # v) = v"
    using k(4) v(2) trim_space_right [of "'' ''" k] trim_space_left [of "'' ''" v] by auto
  moreover have "body \<noteq> []" "hd body = hd k" "CHR ''='' \<in> set body"
    using k(2) by (simp_all add: body_def)
  ultimately show ?thesis
    using k(2,5) assms(3) tk by (intro read_line_assign [OF t]) simp_all
qed

section \<open>Properties\<close>

abbreviation insert_all :: "(nat \<Rightarrow> bool) \<Rightarrow> config_file \<Rightarrow> ((bytes \<times> bytes) \<times> bytes) list \<Rightarrow> config_file option" where
  "insert_all alloc \<equiv> config_table.insert_all (table_insert alloc)"

lemma add_entry_total: "\<forall>n. alloc n \<Longrightarrow> \<exists>file'. add_entry alloc file g k v = Some file'"
  by (auto simp: add_entry_def strdup_ok_def Let_def split: option.splits)

lemma read_lines_append:
  "read_lines alloc n i (ls @ ls') st =
     rbind (read_lines alloc n i ls st) (read_lines alloc n (i + length ls) ls')"
proof (induction ls arbitrary: i st)
  case (Cons l ls)
  then show ?case by (cases "read_line alloc n (i + 1) l st") simp_all
qed simp

lemma read_entries:
  assumes "\<forall>n. alloc n" "g \<noteq> []" "\<forall>kv \<in> set kvs. ini_key (fst kv) \<and> ini_text (snd kv)"
  shows "\<exists>file'. read_lines alloc n i (concat (map print_entry kvs)) (g, tab) = Inr (g, file')
    \<and> insert_all alloc tab (map (\<lambda>kv. ((g, fst kv), snd kv)) kvs) = Some file'"
  using assms(3)
proof (induction kvs arbitrary: i tab)
  case (Cons kv kvs)
  obtain file1 where f: "add_entry alloc tab g (fst kv) (snd kv) = Some file1"
    using add_entry_total [OF assms(1)] by blast
  then have "table_insert alloc tab (g, fst kv) (snd kv) = Some file1" by (simp add: table_insert_def)
  with f show ?case
    using Cons.IH [of "i + 1" file1] Cons.prems assms(2)
      read_entry_line [of "fst kv" "snd kv" g alloc n "i + 1" tab]
    by (simp add: print_entry_def table.insert_all.simps)
qed (simp add: table.insert_all.simps)

lemma read_sections:
  assumes "\<forall>n. alloc n" "\<forall>sec \<in> set secs. section_ok sec"
  shows "\<exists>g file'. read_lines alloc n i (concat (map print_section secs)) (g0, tab) = Inr (g, file')
    \<and> insert_all alloc tab (assignments secs) = Some file'"
  using assms(2)
proof (induction secs arbitrary: i g0 tab)
  case (Cons sec secs)
  then have sec: "ini_section (fst sec)" "fst sec \<noteq> []"
    "\<forall>kv \<in> set (snd sec). ini_key (fst kv) \<and> ini_text (snd kv)"
    by (simp_all add: section_ok_def ini_section_def)
  obtain file1 where f: "read_lines alloc n (i + 1) (concat (map print_entry (snd sec))) (fst sec, tab)
      = Inr (fst sec, file1)"
    "insert_all alloc tab (map (\<lambda>kv. ((fst sec, fst kv), snd kv)) (snd sec)) = Some file1"
    using read_entries [OF assms(1) sec(2,3)] by blast
  then have "read_lines alloc n i (print_section sec) (g0, tab) = Inr (fst sec, file1)"
    using read_section_line [OF sec(1), of alloc n "i + 1" g0 tab] by (simp add: print_section_def)
  then show ?case
    using Cons.IH [of "i + length (print_section sec)" "fst sec" file1] Cons.prems f(2)
    by (simp add: read_lines_append assignments_def table.insert_all_append)
qed (simp add: assignments_def table.insert_all.simps)

lemma print_lines: "section_ok sec \<Longrightarrow> l \<in> set (print_section sec) \<Longrightarrow> \<exists>b. l = b @ [newline] \<and> newline \<notin> set b"
  by (auto simp: print_section_def print_entry_def section_ok_def ini_section_def ini_key_def ini_text_def
      newline_def)

text \<open>C24. (\<open>cubicle_config_file_read\<close>, \<open>cubicle_config_file_get_string\<close>.) A configuration printed as
  sections of \<open>key = value\<close> lines is read without error when memory is granted; a lookup then
  gives the last value assigned to the key in a section of that name and nothing else, and
  no key of a section is stored twice.\<close>

theorem config_read_print:
  assumes "\<forall>n. alloc n" "\<forall>sec \<in> set secs. section_ok sec"
  shows "\<exists>file. cubicle_config_file_read alloc errstr (Inr (concat (concat (map print_section secs)), None)) sz
      = PARSER_SUCCESS file
    \<and> (\<forall>g k. cubicle_config_file_get_string alloc file g k sz =
         (case map_of (rev (assignments secs)) (g, k) of
            None \<Rightarrow> PARSER_NOT_FOUND | Some v \<Rightarrow> PARSER_SUCCESS v))
    \<and> (\<forall>g. distinct (group_keys file g))"
proof -
  let ?empty = "\<lparr>entries = [], capacity = 0\<rparr> :: config_file"
  have "getlines (concat (concat (map print_section secs))) = concat (map print_section secs)"
    using assms(2) print_lines by (intro getlines_concat) auto
  moreover obtain g tab where f: "read_lines alloc sz 0 (concat (map print_section secs)) ([], ?empty) = Inr (g, tab)"
    "insert_all alloc ?empty (assignments secs) = Some tab"
    using read_sections [OF assms] by blast
  ultimately have "cubicle_config_file_read alloc errstr (Inr (concat (concat (map print_section secs)), None)) sz
      = PARSER_SUCCESS tab"
    using assms(1) by (simp add: cubicle_config_file_read_def)
  moreover have t: "table_ok tab \<and> table_lookup tab = map_of (rev (assignments secs))"
    using table.insert_all_lookup [OF _ f(2)] by (auto simp: table_ok_def table_lookup_def map_add_def fun_eq_iff split: option.splits)
  moreover have "find_entry (entries tab) g' k = map_of (rev (assignments secs)) (g', k)" for g' k
    using fun_cong [OF conjunct2 [OF t], of "(g', k)"] by (simp add: table_lookup_def)
  moreover have "distinct (group_keys tab g')" for g'
  proof -
    have "inj_on ce_key (set (filter (\<lambda>e. ce_group e = g') (entries tab)))"
      "distinct (filter (\<lambda>e. ce_group e = g') (entries tab))"
      using t by (auto simp: table_ok_def distinct_map inj_on_def)
    then show ?thesis by (simp add: group_keys_def distinct_map)
  qed
  ultimately show ?thesis
    using assms(1) by (auto simp: cubicle_config_file_get_string_def strdup_ok_def split: option.splits)
qed

theorem config_read_print_witness:
  "\<exists>file. cubicle_config_file_read (\<lambda>_. True) (\<lambda>_. [])
      (Inr (concat (concat (map print_section [(''a'', [(''k'', ''1''), (''k'', ''2'')])])), None)) 128 = PARSER_SUCCESS file
    \<and> cubicle_config_file_get_string (\<lambda>_. True) file ''a'' ''k'' 128 = PARSER_SUCCESS ''2''"
proof -
  have "section_ok (''a'', [(''k'', ''1''), (''k'', ''2'')])" by code_simp
  then show ?thesis
    using config_read_print [of "\<lambda>_. True" "[(''a'', [(''k'', ''1''), (''k'', ''2'')])]" "\<lambda>_. []" 128]
    by (auto simp: assignments_def)
qed



end
