(* ===== verification/Utf8.thy ===== *)
theory Utf8
  imports Cubicle_Prelude
begin

text \<open>
  UTF-8 as the sources use it: the reference encoding of Unicode scalar values, the
  sequence recogniser of \<open>cubicle_json_builder_append_string_n\<close> (\<open>src/src/common/rpc.c\<close>)
  and the scan of \<open>cubicle_json_safe_utf8_prefix_length\<close> (same file), with the lemmas
  that the recogniser accepts exactly the encodings of the scalar values above 127.
\<close>

section \<open>The reference encoding\<close>

definition scalar :: "nat \<Rightarrow> bool" where
  "scalar cp \<longleftrightarrow> cp < 0x110000 \<and> \<not> (0xD800 \<le> cp \<and> cp \<le> 0xDFFF)"

definition utf8_encode :: "nat \<Rightarrow> bytes" where
  "utf8_encode cp =
     (if cp < 0x80 then [char_of cp]
      else if cp < 0x800 then [char_of (0xC0 + cp div 64), char_of (0x80 + cp mod 64)]
      else if cp < 0x10000 then
        [char_of (0xE0 + cp div 4096), char_of (0x80 + cp div 64 mod 64),
         char_of (0x80 + cp mod 64)]
      else
        [char_of (0xF0 + cp div 262144), char_of (0x80 + cp div 4096 mod 64),
         char_of (0x80 + cp div 64 mod 64), char_of (0x80 + cp mod 64)])"

definition valid_utf8 :: "bytes \<Rightarrow> bool" where
  "valid_utf8 s \<longleftrightarrow> (\<exists>cps. (\<forall>cp \<in> set cps. scalar cp) \<and> s = concat (map utf8_encode cps))"

section \<open>The recogniser of the JSON builder\<close>

text \<open>\<open>i + k < value_length && cursor[i + k] >= lo && cursor[i + k] <= hi\<close>, on the rest \<open>xs\<close> from \<open>i\<close>.\<close>

definition byte_in :: "nat \<Rightarrow> nat \<Rightarrow> bytes \<Rightarrow> nat \<Rightarrow> bool" where
  "byte_in lo hi xs k \<longleftrightarrow> k < length xs \<and> lo \<le> byte (xs ! k) \<and> byte (xs ! k) \<le> hi"

definition utf8_sequence_length :: "bytes \<Rightarrow> nat" where
  "utf8_sequence_length xs =
     (if byte_in 0xC2 0xDF xs 0 \<and> byte_in 0x80 0xBF xs 1 then 2
      else if byte_in 0xE0 0xE0 xs 0 \<and> byte_in 0xA0 0xBF xs 1 \<and> byte_in 0x80 0xBF xs 2 then 3
      else if byte_in 0xE1 0xEC xs 0 \<and> byte_in 0x80 0xBF xs 1 \<and> byte_in 0x80 0xBF xs 2 then 3
      else if byte_in 0xED 0xED xs 0 \<and> byte_in 0x80 0x9F xs 1 \<and> byte_in 0x80 0xBF xs 2 then 3
      else if byte_in 0xEE 0xEF xs 0 \<and> byte_in 0x80 0xBF xs 1 \<and> byte_in 0x80 0xBF xs 2 then 3
      else if byte_in 0xF0 0xF0 xs 0 \<and> byte_in 0x90 0xBF xs 1 \<and> byte_in 0x80 0xBF xs 2
          \<and> byte_in 0x80 0xBF xs 3 then 4
      else if byte_in 0xF1 0xF3 xs 0 \<and> byte_in 0x80 0xBF xs 1 \<and> byte_in 0x80 0xBF xs 2
          \<and> byte_in 0x80 0xBF xs 3 then 4
      else if byte_in 0xF4 0xF4 xs 0 \<and> byte_in 0x80 0x8F xs 1 \<and> byte_in 0x80 0xBF xs 2
          \<and> byte_in 0x80 0xBF xs 3 then 4
      else 0)"

section \<open>The scan for a safe prefix\<close>

text \<open>
  One round of the loop at the rest \<open>xs\<close> of the bytes: \<open>None\<close> is the \<open>break\<close>, \<open>Some k\<close>
  advances \<open>i\<close> by \<open>k\<close>. The branches of the three-byte leads differ only in the range of
  the second byte, and so do those of the four-byte leads.
\<close>

definition prefix_step3 :: "nat \<Rightarrow> nat \<Rightarrow> bytes \<Rightarrow> nat option" where
  "prefix_step3 lo hi xs =
     (if 2 \<ge> length xs then (if byte_in lo hi xs 1 then None else Some 1)
      else if byte_in lo hi xs 1 \<and> byte_in 0x80 0xBF xs 2 then Some 3 else Some 1)"

definition prefix_step4 :: "nat \<Rightarrow> nat \<Rightarrow> bytes \<Rightarrow> nat option" where
  "prefix_step4 lo hi xs =
     (if 3 \<ge> length xs then
        (if byte_in lo hi xs 1 \<and> (2 \<ge> length xs \<or> byte_in 0x80 0xBF xs 2) then None else Some 1)
      else if byte_in lo hi xs 1 \<and> byte_in 0x80 0xBF xs 2 \<and> byte_in 0x80 0xBF xs 3 then Some 4
      else Some 1)"

definition prefix_step :: "char \<Rightarrow> bytes \<Rightarrow> nat option" where
  "prefix_step c cs =
     (let ch = byte c; xs = c # cs in
      if ch < 0x80 then Some 1
      else if ch \<ge> 0xC2 \<and> ch \<le> 0xDF then
        (if 1 \<ge> length xs then None else Some (if byte_in 0x80 0xBF xs 1 then 2 else 1))
      else if ch = 0xE0 then prefix_step3 0xA0 0xBF xs
      else if ch \<ge> 0xE1 \<and> ch \<le> 0xEC then prefix_step3 0x80 0xBF xs
      else if ch = 0xED then prefix_step3 0x80 0x9F xs
      else if ch \<ge> 0xEE \<and> ch \<le> 0xEF then prefix_step3 0x80 0xBF xs
      else if ch = 0xF0 then prefix_step4 0x90 0xBF xs
      else if ch \<ge> 0xF1 \<and> ch \<le> 0xF3 then prefix_step4 0x80 0xBF xs
      else if ch = 0xF4 then prefix_step4 0x80 0x8F xs
      else Some 1)"

fun safe_prefix_loop :: "bytes \<Rightarrow> nat \<Rightarrow> nat \<Rightarrow> nat" where
  "safe_prefix_loop [] i safe = safe"
| "safe_prefix_loop (c # cs) i safe =
     (case prefix_step c cs of
        None \<Rightarrow> safe
      | Some k \<Rightarrow> safe_prefix_loop (drop (k - 1) cs) (i + k) (i + k))"

definition cubicle_json_safe_utf8_prefix_length :: "bytes option \<Rightarrow> nat" where
  "cubicle_json_safe_utf8_prefix_length value =
     (case value of None \<Rightarrow> 0
      | Some bs \<Rightarrow> if bs = [] then 0 else safe_prefix_loop bs 0 0)"

section \<open>Arithmetic of continuation bytes\<close>

lemma base64_digits:
  assumes "c < 64"
  shows "(64 * h + c) div 64 = h" "(64 * h + c) mod 64 = (c :: nat)"
  using assms by simp_all

lemma base64_digits3:
  assumes "b < 64" "c < (64 :: nat)"
  shows "(4096 * a + 64 * b + c) div 4096 = a" "(4096 * a + 64 * b + c) div 64 mod 64 = b"
    "(4096 * a + 64 * b + c) mod 64 = c"
proof -
  have eq: "4096 * a + 64 * b + c = 64 * (64 * a + b) + c" by simp
  show "(4096 * a + 64 * b + c) mod 64 = c"
    unfolding eq using assms by (simp only: base64_digits)
  show "(4096 * a + 64 * b + c) div 64 mod 64 = b"
    unfolding eq using assms by (simp only: base64_digits)
  show "(4096 * a + 64 * b + c) div 4096 = a"
    unfolding eq using assms div_mult2_eq [of "64 * (64 * a + b) + c" 64 64]
    by (simp only: base64_digits) simp
qed

lemma base64_digits4:
  assumes "b < 64" "c < 64" "d < (64 :: nat)"
  shows "(262144 * a + 4096 * b + 64 * c + d) div 262144 = a"
    "(262144 * a + 4096 * b + 64 * c + d) div 4096 mod 64 = b"
    "(262144 * a + 4096 * b + 64 * c + d) div 64 mod 64 = c"
    "(262144 * a + 4096 * b + 64 * c + d) mod 64 = d"
proof -
  define m where "m = 64 * a + b"
  have eq: "262144 * a + 4096 * b + 64 * c + d = 4096 * m + 64 * c + d"
    by (simp add: m_def)
  have m: "m div 64 = a" "m mod 64 = b"
    unfolding m_def using assms by (simp_all only: base64_digits)
  show "(262144 * a + 4096 * b + 64 * c + d) mod 64 = d"
    "(262144 * a + 4096 * b + 64 * c + d) div 64 mod 64 = c"
    "(262144 * a + 4096 * b + 64 * c + d) div 4096 mod 64 = b"
    unfolding eq using assms by (simp_all only: base64_digits3 m)
  show "(262144 * a + 4096 * b + 64 * c + d) div 262144 = a"
    unfolding eq using assms div_mult2_eq [of "4096 * m + 64 * c + d" 4096 64]
    by (simp only: base64_digits3 m) simp
qed

section \<open>The recogniser accepts exactly the encodings above 127\<close>

lemma utf8_encode_2:
  assumes "2 \<le> a" "a < 32" "b < 64"
  shows "utf8_encode (64 * a + b) = [char_of (0xC0 + a), char_of (0x80 + b)]"
  using assms by (simp add: utf8_encode_def base64_digits)

lemma utf8_encode_3:
  assumes "a < 16" "b < 64" "c < 64" "0x800 \<le> 4096 * a + 64 * b + c"
  shows "utf8_encode (4096 * a + 64 * b + c) =
    [char_of (0xE0 + a), char_of (0x80 + b), char_of (0x80 + c)]"
proof -
  have "4096 * a + 64 * b + c < 0x10000" using assms by simp
  then show ?thesis
    using assms unfolding utf8_encode_def by (simp only: base64_digits3) simp
qed

lemma utf8_encode_4:
  assumes "b < 64" "c < 64" "d < 64" "0x10000 \<le> 262144 * a + 4096 * b + 64 * c + d"
  shows "utf8_encode (262144 * a + 4096 * b + 64 * c + d) =
    [char_of (0xF0 + a), char_of (0x80 + b), char_of (0x80 + c), char_of (0x80 + d)]"
  using assms unfolding utf8_encode_def by (simp only: base64_digits4) simp

text \<open>Every scalar value in its base-64 digits.\<close>

lemma scalar_digits2:
  fixes cp :: nat
  assumes "0x80 \<le> cp" "cp < 0x800"
  obtains a b where "cp = 64 * a + b" "2 \<le> a" "a < 32" "b < 64"
proof
  show "cp = 64 * (cp div 64) + cp mod 64" by simp
qed (use assms in auto)

lemma scalar_digits3:
  fixes cp :: nat
  assumes "0x800 \<le> cp" "cp < 0x10000"
  obtains a b c where "cp = 4096 * a + 64 * b + c" "a < 16" "b < 64" "c < 64"
proof
  have "cp div 64 div 64 = cp div 4096" by (simp add: div_mult2_eq [symmetric])
  moreover have "cp = 64 * (cp div 64) + cp mod 64" by simp
  moreover have "cp div 64 = 64 * (cp div 64 div 64) + cp div 64 mod 64" by simp
  ultimately show "cp = 4096 * (cp div 4096) + 64 * (cp div 64 mod 64) + cp mod 64"
    by linarith
qed (use assms in auto)

lemma scalar_digits4:
  fixes cp :: nat
  assumes "0x10000 \<le> cp" "cp < 0x110000"
  obtains a b c d where "cp = 262144 * a + 4096 * b + 64 * c + d" "a \<le> 4" "b < 64" "c < 64" "d < 64"
proof
  have "cp div 64 div 64 = cp div 4096" "cp div 4096 div 64 = cp div 262144"
    by (simp_all add: div_mult2_eq [symmetric])
  moreover have "cp = 64 * (cp div 64) + cp mod 64" by simp
  moreover have "cp div 64 = 64 * (cp div 64 div 64) + cp div 64 mod 64" by simp
  moreover have "cp div 4096 = 64 * (cp div 4096 div 64) + cp div 4096 mod 64" by simp
  ultimately show "cp = 262144 * (cp div 262144) + 4096 * (cp div 4096 mod 64)
      + 64 * (cp div 64 mod 64) + cp mod 64"
    by linarith
qed (use assms in auto)

lemma byte_char_of: "n < 256 \<Longrightarrow> byte (char_of n) = n"
  by simp

lemma char_of_byte_shift: "k \<le> byte c \<Longrightarrow> char_of (k + (byte c - k)) = c"
  by simp

lemma byte_in_Cons [simp]:
  "byte_in lo hi (c # cs) 0 \<longleftrightarrow> lo \<le> byte c \<and> byte c \<le> hi"
  "byte_in lo hi (c # cs) (Suc k) \<longleftrightarrow> byte_in lo hi cs k"
  "byte_in lo hi (c # cs) (numeral v) \<longleftrightarrow> byte_in lo hi cs (pred_numeral v)"
  "\<not> byte_in lo hi [] k"
  by (auto simp: byte_in_def numeral_eq_Suc)

lemma utf8_sequence_length_encode:
  assumes "scalar cp" "0x80 \<le> cp"
  shows "utf8_sequence_length (utf8_encode cp @ r) = length (utf8_encode cp)"
proof -
  consider "cp < 0x800" | "0x800 \<le> cp" "cp < 0x10000" | "0x10000 \<le> cp" by linarith
  then show ?thesis
  proof cases
    case 1
    then obtain a b where cp: "cp = 64 * a + b" "2 \<le> a" "a < 32" "b < 64"
      using scalar_digits2 assms(2) by blast
    then show ?thesis
      by (simp add: utf8_encode_2 utf8_sequence_length_def byte_in_def)
  next
    case 2
    then obtain a b c where cp: "cp = 4096 * a + 64 * b + c" "a < 16" "b < 64" "c < 64"
      using scalar_digits3 by blast
    have "0 < a \<or> 32 \<le> b" using cp 2 by auto
    moreover have "a < 13 \<or> 13 < a \<or> b < 32" using cp assms(1) by (auto simp: scalar_def)
    ultimately have "utf8_sequence_length (char_of (0xE0 + a) # char_of (0x80 + b) # char_of (0x80 + c) # r) = 3"
      using cp(2-) by (auto simp: utf8_sequence_length_def)
    with cp 2 show ?thesis by (simp add: utf8_encode_3)
  next
    case 3
    then obtain a b c d where
      cp: "cp = 262144 * a + 4096 * b + 64 * c + d" "a \<le> 4" "b < 64" "c < 64" "d < 64"
      using scalar_digits4 assms(1) by (metis scalar_def)
    have "0 < a \<or> 16 \<le> b" using cp 3 by auto
    moreover have "a < 4 \<or> b < 16" using cp assms(1) by (auto simp: scalar_def)
    ultimately have "utf8_sequence_length
        (char_of (0xF0 + a) # char_of (0x80 + b) # char_of (0x80 + c) # char_of (0x80 + d) # r) = 4"
      using cp(2-) by (auto simp: utf8_sequence_length_def)
    with cp 3 show ?thesis by (simp add: utf8_encode_4)
  qed
qed

text \<open>Conversely, whatever the recogniser accepts is the encoding of a scalar value.\<close>

lemma byte_digit:
  assumes "k \<le> byte c"
  obtains d where "byte c = k + d" "c = char_of (k + d)"
  using assms by (metis char_of_char le_Suc_ex)

lemma utf8_sequence_2:
  assumes "0xC2 \<le> byte x" "byte x \<le> 0xDF" "0x80 \<le> byte y" "byte y \<le> 0xBF"
  shows "\<exists>cp. scalar cp \<and> 0x80 \<le> cp \<and> [x, y] = utf8_encode cp"
proof -
  obtain a where a: "byte x = 0xC0 + a" "x = char_of (0xC0 + a)"
    using assms(1) by (rule_tac byte_digit [of "0xC0" x]) auto
  obtain b where b: "byte y = 0x80 + b" "y = char_of (0x80 + b)"
    using assms(3) by (rule byte_digit)
  have "2 \<le> a" "a < 32" "b < 64" using assms a(1) b(1) by simp_all
  then have "scalar (64 * a + b)" "0x80 \<le> 64 * a + b" "[x, y] = utf8_encode (64 * a + b)"
    by (simp_all add: scalar_def utf8_encode_2 a(2) b(2))
  then show ?thesis by blast
qed

lemma utf8_sequence_3:
  assumes "0xE0 \<le> byte x" "byte x \<le> 0xEF"
    and "0x80 \<le> byte y" "byte y \<le> 0xBF" "0x80 \<le> byte z" "byte z \<le> 0xBF"
    and "0xE0 < byte x \<or> 0xA0 \<le> byte y" "byte x < 0xED \<or> 0xED < byte x \<or> byte y \<le> 0x9F"
  shows "\<exists>cp. scalar cp \<and> 0x80 \<le> cp \<and> [x, y, z] = utf8_encode cp"
proof -
  obtain a where a: "byte x = 0xE0 + a" "x = char_of (0xE0 + a)"
    using assms(1) by (rule byte_digit)
  obtain b where b: "byte y = 0x80 + b" "y = char_of (0x80 + b)"
    using assms(3) by (rule byte_digit)
  obtain c where c: "byte z = 0x80 + c" "z = char_of (0x80 + c)"
    using assms(5) by (rule byte_digit)
  have d: "a < 16" "b < 64" "c < 64" using assms a(1) b(1) c(1) by simp_all
  have low: "0 < a \<or> 32 \<le> b" and sur: "a < 13 \<or> 13 < a \<or> b < 32"
    using assms(7,8) a(1) b(1) by auto
  have "0x800 \<le> 4096 * a + 64 * b + c" using low by auto
  moreover have "scalar (4096 * a + 64 * b + c)"
  proof (cases "a = 13")
    case True
    with sur d show ?thesis by (simp add: scalar_def)
  next
    case False
    then have "a < 13 \<or> 13 < a" by auto
    with d show ?thesis by (auto simp: scalar_def)
  qed
  ultimately have "scalar (4096 * a + 64 * b + c)" "0x800 \<le> 4096 * a + 64 * b + c" by simp_all
  with d have "scalar (4096 * a + 64 * b + c)" "0x80 \<le> 4096 * a + 64 * b + c"
    "[x, y, z] = utf8_encode (4096 * a + 64 * b + c)"
    by (simp_all add: utf8_encode_3 a(2) b(2) c(2))
  then show ?thesis by blast
qed

lemma utf8_sequence_4:
  assumes "0xF0 \<le> byte x" "byte x \<le> 0xF4"
    and "0x80 \<le> byte y" "byte y \<le> 0xBF" "0x80 \<le> byte z" "byte z \<le> 0xBF"
    and "0x80 \<le> byte w" "byte w \<le> 0xBF"
    and "0xF0 < byte x \<or> 0x90 \<le> byte y" "byte x < 0xF4 \<or> byte y \<le> 0x8F"
  shows "\<exists>cp. scalar cp \<and> 0x80 \<le> cp \<and> [x, y, z, w] = utf8_encode cp"
proof -
  obtain a where a: "byte x = 0xF0 + a" "x = char_of (0xF0 + a)"
    using assms(1) by (rule byte_digit)
  obtain b where b: "byte y = 0x80 + b" "y = char_of (0x80 + b)"
    using assms(3) by (rule byte_digit)
  obtain c where c: "byte z = 0x80 + c" "z = char_of (0x80 + c)"
    using assms(5) by (rule byte_digit)
  obtain d where d: "byte w = 0x80 + d" "w = char_of (0x80 + d)"
    using assms(7) by (rule byte_digit)
  let ?cp = "262144 * a + 4096 * b + 64 * c + d"
  have e: "a \<le> 4" "b < 64" "c < 64" "d < 64" using assms a(1) b(1) c(1) d(1) by simp_all
  have "0 < a \<or> 16 \<le> b" "a < 4 \<or> b < 16" using assms(9,10) a(1) b(1) by auto
  with e have "0x10000 \<le> ?cp" "?cp < 0x110000" by auto
  with e have "scalar ?cp" "0x80 \<le> ?cp" "[x, y, z, w] = utf8_encode ?cp"
    by (simp_all add: scalar_def utf8_encode_4 a(2) b(2) c(2) d(2))
  then show ?thesis by blast
qed

lemma utf8_sequence_length_sound:
  assumes "utf8_sequence_length xs = n" "0 < n"
  shows "n \<le> length xs \<and> 2 \<le> n \<and> (\<exists>cp. scalar cp \<and> 0x80 \<le> cp \<and> take n xs = utf8_encode cp)"
proof -
  have tk: "2 \<le> length xs \<Longrightarrow> take 2 xs = [xs ! 0, xs ! 1]"
    "3 \<le> length xs \<Longrightarrow> take 3 xs = [xs ! 0, xs ! 1, xs ! 2]"
    "4 \<le> length xs \<Longrightarrow> take 4 xs = [xs ! 0, xs ! 1, xs ! 2, xs ! 3]"
    by (auto simp: numeral_eq_Suc Suc_le_length_iff)
  consider
      "n = 2" "byte_in 0xC2 0xDF xs 0" "byte_in 0x80 0xBF xs 1"
    | "n = 3" "byte_in 0xE0 0xEF xs 0" "byte_in 0x80 0xBF xs 1" "byte_in 0x80 0xBF xs 2"
      "0xE0 < byte (xs ! 0) \<or> 0xA0 \<le> byte (xs ! 1)"
      "byte (xs ! 0) < 0xED \<or> 0xED < byte (xs ! 0) \<or> byte (xs ! 1) \<le> 0x9F"
    | "n = 4" "byte_in 0xF0 0xF4 xs 0" "byte_in 0x80 0xBF xs 1" "byte_in 0x80 0xBF xs 2"
      "byte_in 0x80 0xBF xs 3" "0xF0 < byte (xs ! 0) \<or> 0x90 \<le> byte (xs ! 1)"
      "byte (xs ! 0) < 0xF4 \<or> byte (xs ! 1) \<le> 0x8F"
    using assms by (force simp: utf8_sequence_length_def byte_in_def split: if_splits)
  then show ?thesis
  proof cases
    case 1
    then show ?thesis using utf8_sequence_2 [of "xs ! 0" "xs ! 1"] tk(1) by (simp add: byte_in_def)
  next
    case 2
    then show ?thesis
      using utf8_sequence_3 [of "xs ! 0" "xs ! 1" "xs ! 2"] tk(2) by (simp add: byte_in_def)
  next
    case 3
    then show ?thesis
      using utf8_sequence_4 [of "xs ! 0" "xs ! 1" "xs ! 2" "xs ! 3"] tk(3) by (simp add: byte_in_def)
  qed
qed

section \<open>Valid texts\<close>

lemma valid_utf8_Nil [simp]: "valid_utf8 []"
  by (auto simp: valid_utf8_def intro!: exI [of _ "[]"])

lemma valid_utf8_encode [intro]: "scalar cp \<Longrightarrow> valid_utf8 (utf8_encode cp)"
  by (auto simp: valid_utf8_def intro!: exI [of _ "[cp]"])

lemma valid_utf8_append [intro]: "valid_utf8 a \<Longrightarrow> valid_utf8 b \<Longrightarrow> valid_utf8 (a @ b)"
proof -
  assume "valid_utf8 a" "valid_utf8 b"
  then obtain xs ys where "\<forall>cp \<in> set xs. scalar cp" "a = concat (map utf8_encode xs)"
    "\<forall>cp \<in> set ys. scalar cp" "b = concat (map utf8_encode ys)"
    by (auto simp: valid_utf8_def)
  then show ?thesis unfolding valid_utf8_def by (intro exI [of _ "xs @ ys"]) auto
qed

lemma utf8_encode_nonempty [simp]: "utf8_encode cp \<noteq> []"
  by (simp add: utf8_encode_def)

lemma valid_utf8_cases:
  assumes "valid_utf8 s"
  obtains "s = []" | cp r where "s = utf8_encode cp @ r" "scalar cp" "valid_utf8 r"
proof -
  from assms obtain cps where cps: "\<forall>cp \<in> set cps. scalar cp" "s = concat (map utf8_encode cps)"
    by (auto simp: valid_utf8_def)
  show ?thesis
  proof (cases cps)
    case Nil
    with cps(2) that(1) show ?thesis by simp
  next
    case (Cons cp cps')
    with cps have "s = utf8_encode cp @ concat (map utf8_encode cps')" "scalar cp"
      "valid_utf8 (concat (map utf8_encode cps'))"
      by (auto simp: valid_utf8_def)
    then show ?thesis by (rule that(2))
  qed
qed

text \<open>Induction over the characters of a valid text.\<close>

lemma valid_utf8_induct [consumes 1, case_names Empty Char]:
  assumes "valid_utf8 s"
    and "P []"
    and "\<And>cp r. scalar cp \<Longrightarrow> valid_utf8 r \<Longrightarrow> P r \<Longrightarrow> P (utf8_encode cp @ r)"
  shows "P s"
proof -
  from assms(1) obtain cps where "\<forall>cp \<in> set cps. scalar cp" "s = concat (map utf8_encode cps)"
    by (auto simp: valid_utf8_def)
  then show ?thesis
  proof (induction cps arbitrary: s)
    case Nil
    then show ?case using assms(2) by simp
  next
    case (Cons cp cps)
    then have "P (concat (map utf8_encode cps))" by simp
    with Cons.prems show ?case using assms(3) by (auto simp: valid_utf8_def)
  qed
qed

text \<open>The lead byte of an encoding tells its length.\<close>

lemma hd_utf8_encode_ascii: "cp < 0x80 \<Longrightarrow> utf8_encode cp = [char_of cp]"
  by (simp add: utf8_encode_def)

lemma ascii_valid_utf8: "byte c < 0x80 \<Longrightarrow> valid_utf8 [c]"
  using valid_utf8_encode [of "byte c"] by (simp add: utf8_encode_def scalar_def)

lemma utf8_encode_ascii_iff:
  assumes "scalar cp"
  shows "byte (hd (utf8_encode cp)) < 0x80 \<longleftrightarrow> cp < 0x80"
proof -
  have "cp < 0x110000" using assms by (simp add: scalar_def)
  then have "cp div 262144 < 16" by simp
  moreover have "cp < 0x10000 \<Longrightarrow> cp div 4096 < 16" by simp
  moreover have "cp < 0x800 \<Longrightarrow> cp div 64 < 32" by simp
  ultimately show ?thesis by (auto simp: utf8_encode_def)
qed

section \<open>The safe prefix of a chunk\<close>

lemma prefix_step_ascii: "byte c < 0x80 \<Longrightarrow> prefix_step c cs = Some 1"
  by (simp add: prefix_step_def Let_def)

lemma utf8_sequence_length_elim:
  assumes "0 < utf8_sequence_length xs"
  obtains
    (Two) "utf8_sequence_length xs = 2" "byte_in 0xC2 0xDF xs 0" "byte_in 0x80 0xBF xs 1"
  | (Three) l h lo hi where "utf8_sequence_length xs = 3" "byte_in l h xs 0"
      "byte_in lo hi xs 1" "byte_in 0x80 0xBF xs 2"
      "(l, h, lo, hi) \<in> {(0xE0, 0xE0, 0xA0, 0xBF), (0xE1, 0xEC, 0x80, 0xBF),
        (0xED, 0xED, 0x80, 0x9F), (0xEE, 0xEF, 0x80, 0xBF)}"
  | (Four) l h lo hi where "utf8_sequence_length xs = 4" "byte_in l h xs 0"
      "byte_in lo hi xs 1" "byte_in 0x80 0xBF xs 2" "byte_in 0x80 0xBF xs 3"
      "(l, h, lo, hi) \<in> {(0xF0, 0xF0, 0x90, 0xBF), (0xF1, 0xF3, 0x80, 0xBF), (0xF4, 0xF4, 0x80, 0x8F)}"
proof -
  have "utf8_sequence_length xs = n \<Longrightarrow> 0 < n \<Longrightarrow>
      n = 2 \<and> byte_in 0xC2 0xDF xs 0 \<and> byte_in 0x80 0xBF xs 1
    \<or> n = 3 \<and> byte_in 0x80 0xBF xs 2 \<and>
        (byte_in 0xE0 0xE0 xs 0 \<and> byte_in 0xA0 0xBF xs 1 \<or> byte_in 0xE1 0xEC xs 0 \<and> byte_in 0x80 0xBF xs 1
        \<or> byte_in 0xED 0xED xs 0 \<and> byte_in 0x80 0x9F xs 1 \<or> byte_in 0xEE 0xEF xs 0 \<and> byte_in 0x80 0xBF xs 1)
    \<or> n = 4 \<and> byte_in 0x80 0xBF xs 2 \<and> byte_in 0x80 0xBF xs 3 \<and>
        (byte_in 0xF0 0xF0 xs 0 \<and> byte_in 0x90 0xBF xs 1 \<or> byte_in 0xF1 0xF3 xs 0 \<and> byte_in 0x80 0xBF xs 1
        \<or> byte_in 0xF4 0xF4 xs 0 \<and> byte_in 0x80 0x8F xs 1)" for n
    by (simp add: utf8_sequence_length_def split: if_splits)
  from this [OF refl assms] show ?thesis
    by (elim disjE conjE) (blast intro: that)+
qed

lemma byte_in_length: "byte_in lo hi xs k \<Longrightarrow> k < length xs"
  by (simp add: byte_in_def)

lemma prefix_step_lead2:
  "0xC2 \<le> byte c \<Longrightarrow> byte c \<le> 0xDF \<Longrightarrow> prefix_step c cs =
     (if cs = [] then None else Some (if byte_in 0x80 0xBF (c # cs) 1 then 2 else 1))"
  by (simp add: prefix_step_def Let_def)

lemma prefix_step_lead3:
  "(l, h, lo, hi) \<in> {(0xE0, 0xE0, 0xA0, 0xBF), (0xE1, 0xEC, 0x80, 0xBF),
     (0xED, 0xED, 0x80, 0x9F), (0xEE, 0xEF, 0x80, 0xBF)} \<Longrightarrow> l \<le> byte c \<Longrightarrow> byte c \<le> h \<Longrightarrow>
     prefix_step c cs = prefix_step3 lo hi (c # cs)"
  by (elim insertE emptyE; simp add: prefix_step_def Let_def)

lemma prefix_step_lead4:
  "(l, h, lo, hi) \<in> {(0xF0, 0xF0, 0x90, 0xBF), (0xF1, 0xF3, 0x80, 0xBF), (0xF4, 0xF4, 0x80, 0x8F)} \<Longrightarrow>
     l \<le> byte c \<Longrightarrow> byte c \<le> h \<Longrightarrow> prefix_step c cs = prefix_step4 lo hi (c # cs)"
  by (elim insertE emptyE; simp add: prefix_step_def Let_def)

lemma prefix_step_sequence:
  assumes "0 < utf8_sequence_length (c # cs)"
  shows "prefix_step c cs = Some (utf8_sequence_length (c # cs))"
  using assms
proof (cases rule: utf8_sequence_length_elim)
  case Two
  then show ?thesis by (auto simp: prefix_step_lead2)
next
  case (Three l h lo hi)
  then show ?thesis
    by (simp add: prefix_step_lead3 prefix_step3_def) (auto dest: byte_in_length)
next
  case (Four l h lo hi)
  then show ?thesis
    by (simp add: prefix_step_lead4 prefix_step4_def) (auto dest: byte_in_length)
qed

lemma prefix_step_partial:
  assumes "utf8_sequence_length (c # cs @ q) = length (c # cs @ q)" "q \<noteq> []"
  shows "prefix_step c cs = (if cs = [] \<and> 0xE0 \<le> byte c then Some 1 else None)"
proof -
  have "0 < utf8_sequence_length (c # cs @ q)" using assms(1) by simp
  then show ?thesis
  proof (cases rule: utf8_sequence_length_elim)
    case Two
    with assms have "cs = []" by (cases cs; cases q) auto
    with Two show ?thesis by (simp add: prefix_step_lead2)
  next
    case (Three l h lo hi)
    have "l \<ge> 0xE0" "cs = [] \<Longrightarrow> 0xE0 \<le> byte c" using Three(2,5) by auto
    moreover have "length cs \<le> 1" using Three(1) assms by (cases q) auto
    moreover have "cs \<noteq> [] \<Longrightarrow> byte_in lo hi (c # cs) 1"
      using Three(3) by (cases cs) auto
    ultimately show ?thesis
      using Three(2,5) by (auto simp: prefix_step_lead3 prefix_step3_def)
  next
    case (Four l h lo hi)
    have "l \<ge> 0xE0" "cs = [] \<Longrightarrow> 0xE0 \<le> byte c" using Four(2,6) by auto
    moreover have "length cs \<le> 2" using Four(1) assms by (cases q) auto
    moreover have "cs \<noteq> [] \<Longrightarrow> byte_in lo hi (c # cs) 1"
      using Four(3) by (cases cs) auto
    moreover have "2 \<le> length cs \<Longrightarrow> byte_in 0x80 0xBF (c # cs) 2"
      using Four(4) by (cases cs; cases "tl cs") auto
    ultimately show ?thesis
      using Four(2,6) by (auto simp: prefix_step_lead4 prefix_step4_def)
  qed
qed

lemma utf8_encode_Cons:
  obtains c cs where "utf8_encode cp = c # cs"
  by (meson neq_Nil_conv utf8_encode_nonempty)

lemma prefix_step_encode:
  assumes "scalar cp" "utf8_encode cp = c # cs"
  shows "prefix_step c (cs @ r) = Some (length (utf8_encode cp))"
proof (cases "cp < 0x80")
  case True
  with assms(2) show ?thesis by (auto simp: hd_utf8_encode_ascii prefix_step_ascii)
next
  case False
  then have "utf8_sequence_length (c # cs @ r) = length (utf8_encode cp)"
    using utf8_sequence_length_encode [OF assms(1), of r] assms(2) by simp
  then show ?thesis using prefix_step_sequence [of c "cs @ r"] by simp
qed

lemma safe_prefix_loop_valid:
  assumes "valid_utf8 w"
  shows "safe_prefix_loop (w @ p) i i = safe_prefix_loop p (i + length w) (i + length w)"
  using assms
proof (induction arbitrary: i rule: valid_utf8_induct)
  case Empty
  then show ?case by simp
next
  case (Char cp r)
  obtain c cs where e: "utf8_encode cp = c # cs" by (rule utf8_encode_Cons)
  have "prefix_step c (cs @ r @ p) = Some (length (utf8_encode cp))"
    using prefix_step_encode [OF Char(1) e] by simp
  then show ?case
    using Char.IH [of "i + length (utf8_encode cp)"] by (simp add: e add.assoc)
qed

text \<open>A cut of a valid text leaves whole characters and a proper part of the next one.\<close>

lemma valid_utf8_cut:
  assumes "valid_utf8 (d @ r)"
  obtains w p where "d = w @ p" "valid_utf8 w"
    "p = [] \<or> (\<exists>cp q. scalar cp \<and> utf8_encode cp = p @ q \<and> p \<noteq> [] \<and> q \<noteq> [])"
proof -
  have "\<exists>w p. d = w @ p \<and> valid_utf8 w \<and>
      (p = [] \<or> (\<exists>cp q. scalar cp \<and> utf8_encode cp = p @ q \<and> p \<noteq> [] \<and> q \<noteq> []))"
    if "d @ r = s" "valid_utf8 s" for s
    using that(2,1)
  proof (induction arbitrary: d rule: valid_utf8_induct)
    case Empty
    then show ?case by auto
  next
    case (Char cp t)
    then obtain u where "d = utf8_encode cp @ u \<and> u @ r = t \<or> utf8_encode cp = d @ u \<and> r = u @ t"
      by (metis append_eq_append_conv2)
    then consider "d = utf8_encode cp @ u" "u @ r = t" | "utf8_encode cp = d @ u" "u \<noteq> []"
      by (cases "u = []") auto
    then show ?case
    proof cases
      case 1
      from Char.IH [OF 1(2)] obtain w p where "u = w @ p" "valid_utf8 w"
        "p = [] \<or> (\<exists>cp q. scalar cp \<and> utf8_encode cp = p @ q \<and> p \<noteq> [] \<and> q \<noteq> [])"
        by blast
      with 1 Char.hyps(1) show ?thesis
        by (intro exI [of _ "utf8_encode cp @ w"] exI [of _ p]) auto
    next
      case 2
      then show ?thesis
        using Char.hyps(1) by (intro exI [of _ "[]"] exI [of _ d]) auto
    qed
  qed
  with assms that show ?thesis by blast
qed

lemma safe_prefix_loop_partial:
  assumes "scalar cp" "utf8_encode cp = p @ q" "p \<noteq> []" "q \<noteq> []"
  shows "safe_prefix_loop p i i = (if length p = 1 \<and> 0xE0 \<le> byte (hd p) then Suc i else i)"
proof -
  obtain c cs where p: "p = c # cs" using assms(3) by (cases p) auto
  have "\<not> cp < 0x80"
    using assms p by (auto simp: hd_utf8_encode_ascii)
  then have "utf8_sequence_length (c # cs @ q) = length (c # cs @ q)"
    using utf8_sequence_length_encode [OF assms(1), of "[]"] assms(2) p by simp
  from prefix_step_partial [OF this assms(4)] show ?thesis
    by (auto simp: p)
qed


lemma prefix_step_lone_lead: "0xE0 \<le> byte b \<Longrightarrow> prefix_step b [] = Some 1"
  by (simp add: prefix_step_def prefix_step3_def prefix_step4_def Let_def)

text \<open>The encoding is a prefix code, so a valid rest of a valid text is valid.\<close>

lemma utf8_encode_prefix_code:
  assumes "scalar cp" "scalar cp'" "utf8_encode cp @ x = utf8_encode cp' @ y"
  shows "utf8_encode cp = utf8_encode cp' \<and> x = y"
proof -
  have "length (utf8_encode cp) = length (utf8_encode cp')"
  proof (cases "cp < 0x80")
    case True
    then have "byte (hd (utf8_encode cp')) < 0x80"
      using utf8_encode_ascii_iff [OF assms(1)] assms(3) by (metis hd_append2 utf8_encode_nonempty)
    with True show ?thesis
      using utf8_encode_ascii_iff [OF assms(2)] by (simp add: hd_utf8_encode_ascii)
  next
    case False
    then have "\<not> cp' < 0x80"
      using utf8_encode_ascii_iff [OF assms(1)] utf8_encode_ascii_iff [OF assms(2)] assms(3)
      by (metis hd_append2 utf8_encode_nonempty)
    with False show ?thesis
      using utf8_sequence_length_encode [OF assms(1), of x] utf8_sequence_length_encode [OF assms(2), of y]
        assms(3) by simp
  qed
  with assms(3) show ?thesis by simp
qed

lemma valid_utf8_rest:
  assumes "valid_utf8 a" "valid_utf8 (a @ b)"
  shows "valid_utf8 b"
  using assms
proof (induction rule: valid_utf8_induct)
  case Empty
  then show ?case by simp
next
  case (Char cp r)
  have "valid_utf8 (utf8_encode cp @ r @ b)" using Char.prems by simp
  then show ?case
  proof (cases rule: valid_utf8_cases)
    case 1
    then show ?thesis by simp
  next
    case (2 cp' t)
    then have "r @ b = t" using utf8_encode_prefix_code [OF Char.hyps(1)] by blast
    with 2 show ?thesis using Char.IH by simp
  qed
qed

lemma valid_utf8_single:
  assumes "valid_utf8 [b]"
  shows "byte b < 0x80"
  using assms
proof (cases rule: valid_utf8_cases)
  case 1
  then show ?thesis by simp
next
  case (2 cp r)
  then have "length (utf8_encode cp) \<le> 1"
    by (metis One_nat_def le_add1 length_Cons length_append list.size(3))
  then have "cp < 0x80" by (simp add: utf8_encode_def split: if_splits)
  with 2 show ?thesis by (simp add: utf8_encode_def)
qed

text \<open>C15. (\<open>cubicle_json_safe_utf8_prefix_length\<close>.) For a chunk cut from valid UTF-8 text anywhere but right after the lead byte of a
  three- or four-byte character, the safe prefix is valid UTF-8 and at most three bytes
  are held back.\<close>

theorem safe_prefix_valid:
  assumes "valid_utf8 (d @ r)"
    and "\<not> (\<exists>w b. d = w @ [b] \<and> valid_utf8 w \<and> 0xE0 \<le> byte b)"
  shows "valid_utf8 (take (cubicle_json_safe_utf8_prefix_length (Some d)) d)
    \<and> cubicle_json_safe_utf8_prefix_length (Some d) \<le> length d
    \<and> length d - cubicle_json_safe_utf8_prefix_length (Some d) \<le> 3"
proof -
  obtain w p where d: "d = w @ p" "valid_utf8 w"
    and p: "p = [] \<or> (\<exists>cp q. scalar cp \<and> utf8_encode cp = p @ q \<and> p \<noteq> [] \<and> q \<noteq> [])"
    using assms(1) by (rule valid_utf8_cut)
  have "safe_prefix_loop d 0 0 = length w"
  proof (cases "p = []")
    case True
    then show ?thesis using safe_prefix_loop_valid [OF d(2), of p 0] d(1) by simp
  next
    case False
    with p obtain cp q where q: "scalar cp" "utf8_encode cp = p @ q" "q \<noteq> []" by auto
    have "\<not> (length p = 1 \<and> 0xE0 \<le> byte (hd p))"
      using assms(2) d by (cases p) auto
    with False q show ?thesis
      using safe_prefix_loop_valid [OF d(2), of p 0] d(1) safe_prefix_loop_partial [OF q(1,2) False q(3)]
      by auto
  qed
  moreover have "length p \<le> 3"
  proof (cases "p = []")
    case False
    with p obtain cp q where q: "utf8_encode cp = p @ q" "q \<noteq> []" by auto
    have "length (utf8_encode cp) \<le> 4" by (simp add: utf8_encode_def)
    with q show ?thesis by (cases q) auto
  qed simp
  ultimately show ?thesis
    using d by (cases "d = []") (auto simp: cubicle_json_safe_utf8_prefix_length_def)
qed

theorem safe_prefix_valid_witness:
  "valid_utf8 (take (cubicle_json_safe_utf8_prefix_length (Some [CHR ''a'', CHR 0xC3])) [CHR ''a'', CHR 0xC3])"
proof -
  have "valid_utf8 (utf8_encode 0x61 @ utf8_encode 0xE9)"
    by (intro valid_utf8_append valid_utf8_encode) (simp_all add: scalar_def)
  moreover have "utf8_encode 0x61 @ utf8_encode 0xE9 = [CHR ''a'', CHR 0xC3] @ [CHR 0xA9]"
    by code_simp
  ultimately have v: "valid_utf8 ([CHR ''a'', CHR 0xC3] @ [CHR 0xA9])" by simp
  have "\<not> (\<exists>w b. [CHR ''a'', CHR 0xC3] = w @ [b] \<and> valid_utf8 w \<and> 0xE0 \<le> byte b)"
    by (simp add: append_eq_Cons_conv Cons_eq_append_conv)
  with v show ?thesis using safe_prefix_valid by blast
qed

text \<open>C16. (\<open>cubicle_json_safe_utf8_prefix_length\<close>.) A chunk that ends right after the lead
  byte of a three- or four-byte character is passed on whole, although it then ends in
  a byte that is not valid UTF-8; only the lead of a two-byte character is held back.\<close>

theorem safe_prefix_lone_lead:
  assumes "valid_utf8 w" "0xE0 \<le> byte b"
  shows "cubicle_json_safe_utf8_prefix_length (Some (w @ [b])) = length (w @ [b])
    \<and> \<not> valid_utf8 (w @ [b])"
proof -
  have "safe_prefix_loop (w @ [b]) 0 0 = length w + 1"
    using safe_prefix_loop_valid [OF assms(1), of "[b]" 0] prefix_step_lone_lead [OF assms(2)] by simp
  moreover have "\<not> valid_utf8 (w @ [b])"
    using valid_utf8_rest [OF assms(1)] valid_utf8_single [of b] assms(2) by auto
  ultimately show ?thesis by (simp add: cubicle_json_safe_utf8_prefix_length_def)
qed

theorem safe_prefix_lone_lead_witness:
  "cubicle_json_safe_utf8_prefix_length (Some [CHR 0xE2]) = 1 \<and> \<not> valid_utf8 [CHR 0xE2]"
  using safe_prefix_lone_lead [of "[]" "CHR 0xE2"] by simp

end
