(* ===== verification/Json_Text.thy ===== *)
theory Json_Text
  imports Utf8
begin

text \<open>
  JSON text as \<open>src/src/common/rpc.c\<close> writes it: the bounded writer \<open>append_raw\<close>, the
  growing \<open>cubicle_json_builder\<close> with its 64-bit sizes, and the three string escapers.
  The reference is \<open>json_unescape\<close>, the meaning of the body of a JSON string literal.
\<close>

abbreviation DQ :: char where "DQ \<equiv> CHR 0x22"
abbreviation BSL :: char where "BSL \<equiv> CHR 0x5C"

named_theorems builder_simps \<open>outcomes of the builder operations on well-formed builders\<close>

section \<open>The bounded writer\<close>

text \<open>The buffer is the list of the bytes written so far, \<open>buffer[0 .. *used)\<close>.\<close>

definition append_raw :: "nat \<Rightarrow> bytes \<Rightarrow> bytes \<Rightarrow> bytes result" where
  "append_raw buffer_size used value =
     (if length used + length value \<ge> buffer_size then Inl ENOSPC else Inr (used @ value))"

section \<open>Escaping\<close>

text \<open>\<open>snprintf(escaped, sizeof(escaped), "\\u%04x", c)\<close> for a byte.\<close>

definition u_escape :: "char \<Rightarrow> bytes" where
  "u_escape c = [BSL, CHR ''u'', CHR ''0'', CHR ''0''] @ hex2 c"

text \<open>The chunk the switch of \<open>cubicle_json_escape\<close> chooses for one byte.\<close>

definition escape_char :: "char \<Rightarrow> bytes" where
  "escape_char c =
     (if c = DQ then [BSL, DQ]
      else if c = BSL then [BSL, BSL]
      else if c = CHR 0x08 then [BSL, CHR ''b'']
      else if c = CHR 0x0C then [BSL, CHR ''f'']
      else if c = CHR 0x0A then [BSL, CHR ''n'']
      else if c = CHR 0x0D then [BSL, CHR ''r'']
      else if c = CHR 0x09 then [BSL, CHR ''t'']
      else if byte c < 0x20 then u_escape c
      else [c])"

fun json_escape_loop :: "nat \<Rightarrow> bytes \<Rightarrow> bytes \<Rightarrow> bytes result" where
  "json_escape_loop buffer_size used [] = Inr used"
| "json_escape_loop buffer_size used (c # cs) =
     rbind (append_raw buffer_size used (escape_char c))
       (\<lambda>used'. json_escape_loop buffer_size used' cs)"

definition cubicle_json_escape :: "nat \<Rightarrow> bytes option \<Rightarrow> bytes result" where
  "cubicle_json_escape buffer_size value =
     (case value of
        None \<Rightarrow> Inl EINVAL
      | Some v \<Rightarrow> if buffer_size = 0 then Inl EINVAL else json_escape_loop buffer_size [] v)"

definition append_json_string :: "nat \<Rightarrow> bytes \<Rightarrow> bytes \<Rightarrow> bytes result" where
  "append_json_string buffer_size used value =
     rbind (cubicle_json_escape 1024 (Some value)) (\<lambda>escaped.
     rbind (append_raw buffer_size used [DQ]) (\<lambda>u1.
     rbind (append_raw buffer_size u1 escaped) (\<lambda>u2.
     append_raw buffer_size u2 [DQ])))"

section \<open>The builder\<close>

text \<open>
  \<open>data\<close> is the text before the terminating NUL. The outcome of a builder operation is
  \<open>None\<close> when its capacity loop does not end, which no well-formed builder meets.
  \<open>alloc\<close> says whether \<open>realloc\<close> grants a block of that many bytes.
\<close>

type_synonym size_t = "64 word"
type_synonym 'a run = "'a result option"

record json_builder =
  bdata :: bytes
  blength :: size_t
  bcapacity :: size_t

definition SIZE_MAX :: size_t where
  "SIZE_MAX = - 1"

definition run_bind :: "'a run \<Rightarrow> ('a \<Rightarrow> 'b run) \<Rightarrow> 'b run" where
  "run_bind m f =
     (case m of None \<Rightarrow> None | Some (Inl e) \<Rightarrow> Some (Inl e) | Some (Inr x) \<Rightarrow> f x)"

definition cubicle_json_builder_init :: json_builder where
  "cubicle_json_builder_init = \<lparr>bdata = [], blength = 0, bcapacity = 0\<rparr>"

definition cubicle_json_builder_cleanup :: "json_builder \<Rightarrow> json_builder" where
  "cubicle_json_builder_cleanup b = \<lparr>bdata = [], blength = 0, bcapacity = 0\<rparr>"

partial_function (option) grow_capacity :: "size_t \<Rightarrow> size_t \<Rightarrow> size_t run" where
  "grow_capacity needed capacity =
     (if needed > capacity then
        (if capacity > SIZE_MAX div 2 then Some (Inl EOVERFLOW)
         else grow_capacity needed (capacity * 2))
      else Some (Inr capacity))"

declare grow_capacity.simps [code]

definition cubicle_json_builder_reserve ::
    "(size_t \<Rightarrow> bool) \<Rightarrow> json_builder \<Rightarrow> size_t \<Rightarrow> json_builder run" where
  "cubicle_json_builder_reserve alloc b extra =
     (if extra > SIZE_MAX - blength b - 1 then Some (Inl EOVERFLOW)
      else if blength b + extra + 1 \<le> bcapacity b then Some (Inr b)
      else run_bind
        (grow_capacity (blength b + extra + 1) (if bcapacity b = 0 then 256 else bcapacity b))
        (\<lambda>capacity. if alloc capacity then Some (Inr (b\<lparr>bcapacity := capacity\<rparr>))
                    else Some (Inl ENOMEM)))"

text \<open>Reserve, copy the bytes and the terminating NUL, advance the length.\<close>

definition builder_push :: "(size_t \<Rightarrow> bool) \<Rightarrow> json_builder \<Rightarrow> bytes \<Rightarrow> json_builder run" where
  "builder_push alloc b text =
     run_bind (cubicle_json_builder_reserve alloc b (of_nat (length text)))
       (\<lambda>b'. Some (Inr (b'\<lparr>bdata := bdata b' @ text,
                            blength := blength b' + of_nat (length text)\<rparr>)))"

definition cubicle_json_builder_append ::
    "(size_t \<Rightarrow> bool) \<Rightarrow> json_builder \<Rightarrow> bytes option \<Rightarrow> json_builder run" where
  "cubicle_json_builder_append alloc b text =
     (case text of None \<Rightarrow> Some (Inl EINVAL) | Some t \<Rightarrow> builder_push alloc b t)"

text \<open>The formatted text; \<open>vsnprintf\<close> fails when it does not fit an \<open>int\<close>.\<close>

definition cubicle_json_builder_appendf ::
    "(size_t \<Rightarrow> bool) \<Rightarrow> json_builder \<Rightarrow> bytes \<Rightarrow> json_builder run" where
  "cubicle_json_builder_appendf alloc b formatted =
     (if length formatted \<ge> 2 ^ 31 then Some (Inl EOVERFLOW) else builder_push alloc b formatted)"

fun append_escaped_loop :: "(size_t \<Rightarrow> bool) \<Rightarrow> json_builder \<Rightarrow> bytes \<Rightarrow> json_builder run" where
  "append_escaped_loop alloc b [] = Some (Inr b)"
| "append_escaped_loop alloc b (c # cs) =
     run_bind (builder_push alloc b (escape_char c)) (\<lambda>b'. append_escaped_loop alloc b' cs)"

definition cubicle_json_builder_append_escaped ::
    "(size_t \<Rightarrow> bool) \<Rightarrow> json_builder \<Rightarrow> bytes option \<Rightarrow> json_builder run" where
  "cubicle_json_builder_append_escaped alloc b value =
     append_escaped_loop alloc b (case value of None \<Rightarrow> [] | Some v \<Rightarrow> v)"

definition cubicle_json_builder_append_string ::
    "(size_t \<Rightarrow> bool) \<Rightarrow> json_builder \<Rightarrow> bytes option \<Rightarrow> json_builder run" where
  "cubicle_json_builder_append_string alloc b value =
     run_bind (cubicle_json_builder_append alloc b (Some [DQ])) (\<lambda>b1.
     run_bind (cubicle_json_builder_append_escaped alloc b1 value) (\<lambda>b2.
     cubicle_json_builder_append alloc b2 (Some [DQ])))"

text \<open>
  The counted variant: a byte above 127 is copied as part of a valid UTF-8 sequence or
  escaped on its own.
\<close>

fun append_string_n_loop :: "(size_t \<Rightarrow> bool) \<Rightarrow> json_builder \<Rightarrow> bytes \<Rightarrow> json_builder run" where
  "append_string_n_loop alloc b [] = Some (Inr b)"
| "append_string_n_loop alloc b (c # cs) =
     (if byte c \<ge> 0x80 then
        (let sequence_length = utf8_sequence_length (c # cs) in
         if sequence_length > 0 then
           run_bind (builder_push alloc b (take sequence_length (c # cs)))
             (\<lambda>b'. append_string_n_loop alloc b' (drop (sequence_length - 1) cs))
         else run_bind (builder_push alloc b (u_escape c)) (\<lambda>b'. append_string_n_loop alloc b' cs))
      else run_bind (builder_push alloc b (escape_char c)) (\<lambda>b'. append_string_n_loop alloc b' cs))"

definition cubicle_json_builder_append_string_n ::
    "(size_t \<Rightarrow> bool) \<Rightarrow> json_builder \<Rightarrow> bytes option \<Rightarrow> nat \<Rightarrow> json_builder run" where
  "cubicle_json_builder_append_string_n alloc b value value_length =
     (if value = None \<and> value_length > 0 then Some (Inl EINVAL)
      else run_bind (cubicle_json_builder_append alloc b (Some [DQ])) (\<lambda>b1.
        run_bind
          (append_string_n_loop alloc b1
             (case value of None \<Rightarrow> [] | Some v \<Rightarrow> take value_length v)) (\<lambda>b2.
        cubicle_json_builder_append alloc b2 (Some [DQ]))))"

section \<open>The meaning of a JSON string body\<close>

text \<open>
  RFC 8259, section 7, for the escapes of the basic multilingual plane: raw text is valid
  UTF-8 without control characters, quotes and backslashes, \<open>\\uXXXX\<close> stands for a scalar
  value. A surrogate escape is left out: no escaper of the sources writes one.
\<close>

definition short_unescape :: "char \<Rightarrow> char option" where
  "short_unescape e =
     (if e = DQ \<or> e = BSL \<or> e = CHR ''/'' then Some e
      else if e = CHR ''b'' then Some (CHR 0x08)
      else if e = CHR ''f'' then Some (CHR 0x0C)
      else if e = CHR ''n'' then Some (CHR 0x0A)
      else if e = CHR ''r'' then Some (CHR 0x0D)
      else if e = CHR ''t'' then Some (CHR 0x09)
      else None)"

fun unhex4 :: "bytes \<Rightarrow> nat option" where
  "unhex4 (a # b # c # d # _) =
     (case (hex_value a, hex_value b, hex_value c, hex_value d) of
        (Some p, Some q, Some r, Some s) \<Rightarrow> Some (((p * 16 + q) * 16 + r) * 16 + s)
      | _ \<Rightarrow> None)"
| "unhex4 _ = None"

fun json_unescape :: "bytes \<Rightarrow> bytes option" where
  "json_unescape [] = Some []"
| "json_unescape (c # cs) =
     (if c = BSL then
        (case cs of
           [] \<Rightarrow> None
         | e # es \<Rightarrow>
             if e = CHR ''u'' then
               (case unhex4 es of
                  None \<Rightarrow> None
                | Some cp \<Rightarrow>
                    if scalar cp then map_option ((@) (utf8_encode cp)) (json_unescape (drop 4 es))
                    else None)
             else
               (case short_unescape e of
                  None \<Rightarrow> None
                | Some d \<Rightarrow> map_option ((#) d) (json_unescape es)))
      else if c = DQ \<or> byte c < 0x20 then None
      else if byte c < 0x80 then map_option ((#) c) (json_unescape cs)
      else
        (let n = utf8_sequence_length (c # cs) in
         if n = 0 then None
         else map_option ((@) (take n (c # cs))) (json_unescape (drop (n - 1) cs))))"

text \<open>The text a JSON reader sees for arbitrary bytes: stray bytes are read as Latin-1.\<close>

fun utf8_sanitize :: "bytes \<Rightarrow> bytes" where
  "utf8_sanitize [] = []"
| "utf8_sanitize (c # cs) =
     (let n = (if byte c < 0x80 then 1 else utf8_sequence_length (c # cs)) in
      if n = 0 then utf8_encode (byte c) @ utf8_sanitize cs
      else take n (c # cs) @ utf8_sanitize (drop (n - 1) cs))"

section \<open>Escaping and reading back\<close>

declare json_unescape.simps [simp del]

section \<open>Escaping and its inverse\<close>

abbreviation escape_text :: "bytes \<Rightarrow> bytes" where
  "escape_text s \<equiv> concat (map escape_char s)"

lemma unhex4_u_escape: "unhex4 ([CHR ''0'', CHR ''0''] @ hex2 c @ r) = Some (byte c)"
proof -
  have "hex_value (CHR ''0'') = Some 0" by (simp add: hex_value_def)
  moreover have "byte c div 16 < 16" by (simp add: less_mult_imp_div_less)
  ultimately show ?thesis by (simp add: hex2_def)
qed

lemma scalar_byte: "scalar (byte c)"
  unfolding scalar_def using nat_of_char_less_256 [of c] by linarith

lemma json_unescape_u:
  "json_unescape (u_escape c @ r) = map_option ((@) (utf8_encode (byte c))) (json_unescape r)"
proof -
  have "unhex4 (CHR ''0'' # CHR ''0'' # hex2 c @ r) = Some (byte c)"
    using unhex4_u_escape [of c r] by simp
  moreover have "scalar (byte c)" by (rule scalar_byte)
  moreover have "drop 4 (CHR ''0'' # CHR ''0'' # hex2 c @ r) = r"
    by (simp add: hex2_def)
  ultimately show ?thesis
    by (simp add: u_escape_def json_unescape.simps)
qed

lemma escape_char_plain: "0x20 \<le> byte c \<Longrightarrow> c \<noteq> DQ \<Longrightarrow> c \<noteq> BSL \<Longrightarrow> escape_char c = [c]"
  by (auto simp: escape_char_def)

lemma json_unescape_ascii:
  assumes "byte c < 0x80"
  shows "json_unescape (escape_char c @ r) = map_option ((#) c) (json_unescape r)"
proof -
  consider "c \<in> {DQ, BSL, CHR 0x08, CHR 0x0C, CHR 0x0A, CHR 0x0D, CHR 0x09}"
    | "0x20 \<le> byte c" "c \<noteq> DQ" "c \<noteq> BSL"
    | "byte c < 0x20" "c \<notin> {DQ, BSL, CHR 0x08, CHR 0x0C, CHR 0x0A, CHR 0x0D, CHR 0x09}"
    by fastforce
  then show ?thesis
  proof cases
    case 1
    then show ?thesis
      by (elim insertE emptyE) (simp_all add: escape_char_def json_unescape.simps short_unescape_def)
  next
    case 2
    with assms show ?thesis by (simp add: escape_char_plain json_unescape.simps)
  next
    case 3
    have "(@) (utf8_encode (byte c)) = (#) c" using assms by (simp add: utf8_encode_def fun_eq_iff)
    with 3 show ?thesis using json_unescape_u [of c r] by (simp add: escape_char_def)
  qed
qed

lemma escape_char_high: "0x80 \<le> byte c \<Longrightarrow> escape_char c = [c]"
  by (rule escape_char_plain) auto

lemma utf8_encode_high_bytes:
  assumes "\<not> cp < 0x80" "c \<in> set (utf8_encode cp)" "scalar cp"
  shows "0x80 \<le> byte c"
proof -
  have "cp < 0x110000" using assms(3) by (simp add: scalar_def)
  then have "cp div 262144 < 16" by simp
  moreover have "cp < 0x10000 \<Longrightarrow> cp div 4096 < 16" by simp
  moreover have "cp < 0x800 \<Longrightarrow> cp div 64 < 32" by simp
  moreover have "cp mod 64 < 64" "cp div 64 mod 64 < 64" "cp div 4096 mod 64 < 64" by simp_all
  ultimately show ?thesis
    using assms(1,2) by (auto simp: utf8_encode_def split: if_splits)
qed

lemma escape_text_id: "(\<And>c. c \<in> set s \<Longrightarrow> escape_char c = [c]) \<Longrightarrow> escape_text s = s"
  by (induction s) auto

lemma escape_text_utf8_encode:
  assumes "scalar cp" "\<not> cp < 0x80"
  shows "escape_text (utf8_encode cp) = utf8_encode cp"
  using utf8_encode_high_bytes [OF assms(2) _ assms(1)] by (intro escape_text_id escape_char_high)

lemma json_unescape_raw:
  assumes "scalar cp" "\<not> cp < 0x80"
  shows "json_unescape (utf8_encode cp @ r) = map_option ((@) (utf8_encode cp)) (json_unescape r)"
proof -
  obtain c cs where e: "utf8_encode cp = c # cs" by (rule utf8_encode_Cons)
  have c: "0x80 \<le> byte c" using utf8_encode_high_bytes [OF assms(2) _ assms(1)] e by auto
  then have "c \<noteq> BSL" "c \<noteq> DQ" by auto
  moreover have "utf8_sequence_length (c # cs @ r) = Suc (length cs)"
    using utf8_sequence_length_encode [OF assms(1), of r] assms(2) e by simp
  ultimately show ?thesis
    using c by (simp add: e json_unescape.simps)
qed

lemma json_unescape_escape_text:
  assumes "valid_utf8 s"
  shows "json_unescape (escape_text s @ r) = map_option ((@) s) (json_unescape r)"
  using assms
proof (induction arbitrary: r rule: valid_utf8_induct)
  case Empty
  then show ?case by (simp add: option.map_ident)
next
  case (Char cp t)
  show ?case
  proof (cases "cp < 0x80")
    case True
    then have "utf8_encode cp = [char_of cp]" "byte (char_of cp) < 0x80"
      by (simp_all add: utf8_encode_def)
    then show ?thesis
      using Char.IH [of r] by (simp add: json_unescape_ascii option.map_comp comp_def)
  next
    case False
    then show ?thesis
      using Char.IH [of r] Char.hyps(1)
      by (simp add: escape_text_utf8_encode json_unescape_raw option.map_comp comp_def)
  qed
qed

lemma json_escape_loop_eq:
  "json_escape_loop n used s =
     (if s = [] \<or> length used + length (escape_text s) < n then Inr (used @ escape_text s)
      else Inl ENOSPC)"
proof (induction n used s rule: json_escape_loop.induct)
  case (2 n used c cs)
  show ?case
  proof (cases "length used + length (escape_char c) < n")
    case True
    then have "json_escape_loop n used (c # cs) = json_escape_loop n (used @ escape_char c) cs"
      by (simp add: append_raw_def)
    also have "\<dots> = (if cs = [] \<or> length (used @ escape_char c) + length (escape_text cs) < n
        then Inr ((used @ escape_char c) @ escape_text cs) else Inl ENOSPC)"
      by (rule "2.IH")
    finally show ?thesis using True by (auto simp: add.assoc)
  next
    case False
    then show ?thesis by (simp add: append_raw_def)
  qed
qed simp


section \<open>Growth of the builder\<close>

lemma unat_size_t: "unat (w :: size_t) < 2 ^ 64"
  by (rule order_less_le_trans [OF unsigned_less]) simp

lemma SIZE_MAX_unat: "unat SIZE_MAX = 2 ^ 64 - 1" "unat (SIZE_MAX div 2) = 2 ^ 63 - 1"
  by (simp_all add: SIZE_MAX_def unat_div unsigned_minus_1_eq_mask mask_eq_exp_minus_1)

lemma unat_double:
  assumes "\<not> capacity > SIZE_MAX div 2"
  shows "unat (capacity * 2) = 2 * unat (capacity :: size_t)"
proof -
  have "unat capacity \<le> 2 ^ 63 - 1"
    using assms by (simp add: word_less_nat_alt SIZE_MAX_unat not_less)
  then show ?thesis by (simp add: unat_word_ariths)
qed

text \<open>From a nonzero capacity the loop ends, and what it returns covers the need without
  doubling past it; it gives up only on a need of more than half the address space.\<close>

lemma grow_capacity_total:
  assumes "capacity \<noteq> 0"
  shows "grow_capacity needed capacity = Some (Inl EOVERFLOW) \<and> 2 ^ 63 \<le> unat needed \<or>
    (\<exists>c. grow_capacity needed capacity = Some (Inr c) \<and> needed \<le> c \<and>
      (c = capacity \<or> unat c < 2 * unat needed))"
  using assms
proof (induction "2 ^ 64 - unat capacity" arbitrary: capacity rule: less_induct)
  case less
  show ?case
  proof (cases "needed > capacity \<and> \<not> capacity > SIZE_MAX div 2")
    case True
    then have d: "unat (capacity * 2) = 2 * unat capacity" by (simp add: unat_double)
    have pos: "0 < unat capacity" using less.prems by (simp add: unat_gt_0)
    have "unat (capacity * 2) < 2 ^ 64" using unat_size_t [of "capacity * 2"] by simp
    then have "2 ^ 64 - unat (capacity * 2) < 2 ^ 64 - unat capacity" using d pos by linarith
    moreover have "capacity * 2 \<noteq> 0" using d pos by (metis unat_0 mult_is_0 nat_neq_iff zero_neq_numeral)
    ultimately have "grow_capacity needed (capacity * 2) = Some (Inl EOVERFLOW) \<and> 2 ^ 63 \<le> unat needed \<or>
      (\<exists>c. grow_capacity needed (capacity * 2) = Some (Inr c) \<and> needed \<le> c \<and>
        (c = capacity * 2 \<or> unat c < 2 * unat needed))"
      by (rule less.hyps)
    moreover have "grow_capacity needed capacity = grow_capacity needed (capacity * 2)"
      using True by (subst grow_capacity.simps) auto
    moreover have "unat (capacity * 2) < 2 * unat needed"
      using True d by (simp add: word_less_nat_alt)
    ultimately show ?thesis by auto
  next
    case False
    have "needed > capacity \<Longrightarrow> capacity > SIZE_MAX div 2 \<Longrightarrow> 2 ^ 63 \<le> unat needed"
      by (simp add: word_less_nat_alt SIZE_MAX_unat)
    then show ?thesis using False by (subst (1 2) grow_capacity.simps) (auto simp: not_less)
  qed
qed

definition builder_ok :: "json_builder \<Rightarrow> bool" where
  "builder_ok b \<longleftrightarrow> unat (blength b) = length (bdata b) \<and>
     (if bcapacity b = 0 then bdata b = [] else blength b < bcapacity b)"

text \<open>The promise of every builder operation that should add \<open>text\<close>.\<close>

definition extends :: "(size_t \<Rightarrow> bool) \<Rightarrow> json_builder \<Rightarrow> bytes \<Rightarrow> json_builder run \<Rightarrow> bool" where
  "extends alloc b text r \<longleftrightarrow>
     (\<exists>b'. r = Some (Inr b') \<and> builder_ok b' \<and> bdata b' = bdata b @ text) \<or>
     r = Some (Inl ENOMEM) \<and> (\<exists>c. \<not> alloc c) \<or>
     r = Some (Inl EOVERFLOW) \<and> 2 ^ 63 \<le> length (bdata b) + length text + 1"

lemma builder_ok_init: "builder_ok cubicle_json_builder_init"
  by (simp add: builder_ok_def cubicle_json_builder_init_def)

lemma extends_bind:
  assumes "extends alloc b text r"
    and "\<And>b'. builder_ok b' \<Longrightarrow> bdata b' = bdata b @ text \<Longrightarrow> extends alloc b' suff (f b')"
  shows "extends alloc b (text @ suff) (run_bind r f)"
  using extends_def [THEN iffD1, OF assms(1)]
proof (elim disjE exE conjE)
  fix b' assume "r = Some (Inr b')" "builder_ok b'" "bdata b' = bdata b @ text"
  then show ?thesis using assms(2) [of b'] by (auto simp: extends_def run_bind_def add.assoc)
qed (auto simp: extends_def run_bind_def)

lemma builder_ok_room:
  assumes "builder_ok b"
  shows "length (bdata b) < 2 ^ 64 - 1" "unat (SIZE_MAX - blength b - 1) = 2 ^ 64 - 2 - length (bdata b)"
proof -
  have "unat (bcapacity b) \<le> 2 ^ 64 - 1" using unat_size_t [of "bcapacity b"] by simp
  then show l: "length (bdata b) < 2 ^ 64 - 1"
    using assms by (auto simp: builder_ok_def word_less_nat_alt split: if_splits)
  have "unat (SIZE_MAX - blength b) = 2 ^ 64 - 1 - length (bdata b)"
    using assms l by (subst unat_sub) (simp_all add: word_le_nat_alt SIZE_MAX_unat builder_ok_def)
  moreover have "(1 :: size_t) \<le> SIZE_MAX - blength b"
    using calculation l by (simp add: word_le_nat_alt)
  ultimately show "unat (SIZE_MAX - blength b - 1) = 2 ^ 64 - 2 - length (bdata b)"
    using unat_sub [of 1 "SIZE_MAX - blength b"] by simp
qed

lemma builder_push_extends:
  assumes ok: "builder_ok b" and len: "length text < 2 ^ 64"
  shows "extends alloc b text (builder_push alloc b text)"
proof -
  let ?e = "of_nat (length text) :: size_t"
  have e: "unat ?e = length text" using len by (simp add: unsigned_of_nat take_bit_nat_eq_self)
  have l: "unat (blength b) = length (bdata b)" using ok by (simp add: builder_ok_def)
  show ?thesis
  proof (cases "?e > SIZE_MAX - blength b - 1")
    case True
    then have "2 ^ 64 - 2 - length (bdata b) < length text"
      using e builder_ok_room [OF ok] by (simp add: word_less_nat_alt)
    then show ?thesis
      using True builder_ok_room(1) [OF ok]
      by (simp add: extends_def builder_push_def cubicle_json_builder_reserve_def run_bind_def)
  next
    case fits: False
    then have f: "length text + length (bdata b) \<le> 2 ^ 64 - 2"
      using e builder_ok_room [OF ok] by (simp add: word_less_nat_alt)
    then have n1: "unat (blength b + ?e) = length (bdata b) + length text"
      using e l by (simp add: unat_word_ariths)
    then have n: "unat (blength b + ?e + 1) = length (bdata b) + length text + 1"
      using f by (simp add: unat_word_ariths)
    have fin: "builder_ok (b\<lparr>bcapacity := c, bdata := bdata b @ text, blength := blength b + ?e\<rparr>)"
      if "blength b + ?e + 1 \<le> c" for c
    proof -
      have "length (bdata b) + length text < unat c" using that n by (simp add: word_le_nat_alt)
      then show ?thesis
        using n1 by (auto simp: builder_ok_def word_less_nat_alt)
    qed
    show ?thesis
    proof (cases "blength b + ?e + 1 \<le> bcapacity b")
      case True
      then show ?thesis
        using fits fin [of "bcapacity b"]
        by (simp add: extends_def builder_push_def cubicle_json_builder_reserve_def run_bind_def)
    next
      case False
      define c0 where "c0 = (if bcapacity b = 0 then 256 else bcapacity b)"
      have "c0 \<noteq> 0" by (simp add: c0_def)
      from grow_capacity_total [OF this, of "blength b + ?e + 1"]
      show ?thesis
        using fits False fin n
        by (auto simp: extends_def builder_push_def cubicle_json_builder_reserve_def run_bind_def
            simp flip: c0_def)
    qed
  qed
qed


section \<open>The escapers of the builder\<close>

lemma length_escape_char: "length (escape_char c) \<le> 6"
  by (simp add: escape_char_def u_escape_def hex2_def)

lemma append_escaped_extends:
  assumes "builder_ok b"
  shows "extends alloc b (escape_text s) (append_escaped_loop alloc b s)"
  using assms
proof (induction s arbitrary: b)
  case Nil
  then show ?case by (simp add: extends_def)
next
  case (Cons c cs)
  have "length (escape_char c) < 2 ^ 64" using length_escape_char [of c] by simp
  then show ?case
    using extends_bind [OF builder_push_extends [OF Cons.prems] Cons.IH] by simp
qed

text \<open>What the counted escaper writes for a byte string.\<close>

fun escape_n :: "bytes \<Rightarrow> bytes" where
  "escape_n [] = []"
| "escape_n (c # cs) =
     (if byte c < 0x80 then escape_char c @ escape_n cs
      else let n = utf8_sequence_length (c # cs) in
        if n = 0 then u_escape c @ escape_n cs
        else take n (c # cs) @ escape_n (drop (n - 1) cs))"

lemma utf8_sequence_length_le: "utf8_sequence_length xs \<le> 4"
proof (cases "0 < utf8_sequence_length xs")
  case True
  then show ?thesis by (rule utf8_sequence_length_elim) simp_all
qed simp

lemma append_string_n_extends:
  assumes "builder_ok b"
  shows "extends alloc b (escape_n s) (append_string_n_loop alloc b s)"
  using assms
proof (induction s arbitrary: b rule: escape_n.induct)
  case 1
  then show ?case by (simp add: extends_def)
next
  case (2 c cs)
  let ?n = "utf8_sequence_length (c # cs)"
  have small: "length (escape_char c) < 2 ^ 64" "length (u_escape c) < 2 ^ 64"
    using length_escape_char [of c] by (simp_all add: u_escape_def hex2_def)
  have "?n \<le> 4" by (rule utf8_sequence_length_le)
  then have t: "length (take ?n (c # cs)) < 2 ^ 64" by simp
  consider "byte c < 0x80" | "\<not> byte c < 0x80" "?n = 0" | "\<not> byte c < 0x80" "?n > 0" by auto
  then show ?case
  proof cases
    case 1
    then show ?thesis
      using extends_bind [OF builder_push_extends [OF "2.prems" small(1)] "2.IH"(1)] by simp
  next
    case 2
    then show ?thesis
      using extends_bind [OF builder_push_extends [OF "2.prems" small(2)] "2.IH"(2)] by simp
  next
    case 3
    then show ?thesis
      using extends_bind [OF builder_push_extends [OF "2.prems" t] "2.IH"(3) [OF 3(1) refl]]
      by (simp add: Let_def)
  qed
qed

lemma quoted_extends:
  assumes "builder_ok b" "\<And>b'. builder_ok b' \<Longrightarrow> extends alloc b' text (body b')"
  shows "extends alloc b ([DQ] @ text @ [DQ])
    (run_bind (cubicle_json_builder_append alloc b (Some [DQ])) (\<lambda>b1.
     run_bind (body b1) (\<lambda>b2. cubicle_json_builder_append alloc b2 (Some [DQ]))))"
  using assms
  by (intro extends_bind) (simp_all add: cubicle_json_builder_append_def builder_push_extends)

lemma json_unescape_escape_n:
  "json_unescape (escape_n s) = Some (utf8_sanitize s)"
proof (induction s rule: escape_n.induct)
  case (2 c cs)
  let ?n = "utf8_sequence_length (c # cs)"
  consider "byte c < 0x80" | "\<not> byte c < 0x80" "?n = 0" | "\<not> byte c < 0x80" "?n > 0" by auto
  then show ?case
  proof cases
    case 1
    then show ?thesis using "2.IH"(1) by (simp add: json_unescape_ascii)
  next
    case 2
    then show ?thesis using "2.IH"(2) by (simp add: json_unescape_u)
  next
    case 3
    then obtain cp where cp: "scalar cp" "\<not> cp < 0x80" "take ?n (c # cs) = utf8_encode cp"
      using utf8_sequence_length_sound [of "c # cs"] by auto
    have "drop (?n - 1) cs = drop ?n (c # cs)" using 3 by (cases ?n) auto
    then show ?thesis using 3 "2.IH"(3) cp json_unescape_raw [OF cp(1,2)] by simp
  qed
qed (simp add: json_unescape.simps)

lemma utf8_sanitize_valid: "valid_utf8 (utf8_sanitize s)"
proof (induction s rule: utf8_sanitize.induct)
  case (2 c cs)
  let ?n = "utf8_sequence_length (c # cs)"
  consider "byte c < 0x80" | "\<not> byte c < 0x80" "?n = 0" | "\<not> byte c < 0x80" "?n > 0" by auto
  then show ?case
  proof cases
    case 1
    then show ?thesis using "2.IH"(2) valid_utf8_append [OF ascii_valid_utf8] by fastforce
  next
    case 2
    then show ?thesis using "2.IH"(1) scalar_byte by auto
  next
    case 3
    then obtain cp where "scalar cp" "take ?n (c # cs) = utf8_encode cp"
      using utf8_sequence_length_sound [of "c # cs"] by auto
    then show ?thesis using 3 "2.IH"(2) by (auto simp: Let_def)
  qed
qed simp

lemma utf8_sanitize_id: "valid_utf8 s \<Longrightarrow> utf8_sanitize s = s"
proof (induction rule: valid_utf8_induct)
  case (Char cp t)
  obtain c cs where e: "utf8_encode cp = c # cs" by (rule utf8_encode_Cons)
  show ?case
  proof (cases "cp < 0x80")
    case True
    then have "cs = []" "byte c < 0x80" using e by (auto simp: utf8_encode_def)
    then show ?thesis using Char.IH e by simp
  next
    case False
    then have "utf8_sequence_length (c # cs @ t) = Suc (length cs)"
      using utf8_sequence_length_encode [OF Char.hyps(1), of t] e by simp
    moreover have "\<not> byte c < 0x80"
      using utf8_encode_ascii_iff [OF Char.hyps(1)] e False by simp
    ultimately show ?thesis using Char.IH e by simp
  qed
qed simp

section \<open>Properties\<close>

lemma length_escape_text: "length (escape_text s) \<le> 6 * length s"
proof (induction s)
  case (Cons c cs)
  then show ?case using length_escape_char [of c] by simp
qed simp

text \<open>C17. (\<open>cubicle_json_escape\<close>.) In a buffer of more than six bytes per input byte every
  valid UTF-8 text is escaped, the result fits with its NUL, and a JSON reader gets the text
  back.\<close>

theorem json_escape_round_trip:
  assumes "valid_utf8 s" "6 * length s < n"
  shows "\<exists>t. cubicle_json_escape n (Some s) = Inr t \<and> length t < n \<and> json_unescape t = Some s"
proof -
  have "cubicle_json_escape n (Some s) = Inr (escape_text s)" "length (escape_text s) < n"
    using length_escape_text [of s] assms(2)
    by (auto simp: cubicle_json_escape_def json_escape_loop_eq)
  moreover have "json_unescape (escape_text s) = Some s"
    using json_unescape_escape_text [OF assms(1), of "[]"] by (simp add: json_unescape.simps)
  ultimately show ?thesis by blast
qed

theorem json_escape_round_trip_witness:
  "\<exists>t. cubicle_json_escape 64 (Some [DQ, CHR 0x01]) = Inr t \<and> length t < 64
    \<and> json_unescape t = Some [DQ, CHR 0x01]"
proof -
  have "valid_utf8 ([DQ] @ [CHR 0x01])"
    by (intro valid_utf8_append ascii_valid_utf8) simp_all
  then show ?thesis using json_escape_round_trip [of "[DQ, CHR 0x01]" 64] by simp
qed

text \<open>C18. (\<open>cubicle_json_builder_append_string_n\<close>.) On a well-formed builder the counted
  escaper adds one JSON string literal that reads back as the input with every stray byte
  turned into its Latin-1 character: always valid UTF-8, and the input itself when that
  was valid. It fails only when \<open>realloc\<close> does or the text passes half the address space.\<close>

theorem append_string_n_reads_back:
  assumes "builder_ok b"
  shows "\<exists>body. json_unescape body = Some (utf8_sanitize s)
    \<and> extends alloc b ([DQ] @ body @ [DQ])
        (cubicle_json_builder_append_string_n alloc b (Some s) (length s))
    \<and> valid_utf8 (utf8_sanitize s) \<and> (valid_utf8 s \<longrightarrow> utf8_sanitize s = s)"
proof -
  have "extends alloc b ([DQ] @ escape_n s @ [DQ])
    (cubicle_json_builder_append_string_n alloc b (Some s) (length s))"
    unfolding cubicle_json_builder_append_string_n_def
    using quoted_extends [OF assms append_string_n_extends] by simp
  then show ?thesis
    using json_unescape_escape_n utf8_sanitize_valid utf8_sanitize_id by blast
qed

theorem append_string_n_reads_back_witness:
  "\<exists>body. json_unescape body = Some (utf8_sanitize [CHR 0xFF])
    \<and> extends (\<lambda>_. True) cubicle_json_builder_init ([DQ] @ body @ [DQ])
        (cubicle_json_builder_append_string_n (\<lambda>_. True) cubicle_json_builder_init
           (Some [CHR 0xFF]) 1)"
  using append_string_n_reads_back [OF builder_ok_init, of "[CHR 0xFF]" "\<lambda>_. True"] by auto

text \<open>C19. (\<open>cubicle_json_builder_reserve\<close>.) The capacity loop ends on every well-formed
  builder. After a success the text, the reserved bytes and the NUL fit, nothing was
  written, and the capacity is unchanged, the initial 256 or less than twice the need.\<close>

theorem builder_reserve_total:
  assumes "builder_ok b"
  shows "\<exists>r. cubicle_json_builder_reserve alloc b extra = Some r \<and>
    (\<forall>b'. r = Inr b' \<longrightarrow>
      unat (blength b) + unat extra + 1 \<le> unat (bcapacity b') \<and>
      bdata b' = bdata b \<and> blength b' = blength b \<and>
      (bcapacity b' = bcapacity b \<or> unat (bcapacity b') = 256 \<or>
       unat (bcapacity b') < 2 * (unat (blength b) + unat extra + 1)))"
proof (cases "extra > SIZE_MAX - blength b - 1")
  case True
  then show ?thesis by (simp add: cubicle_json_builder_reserve_def)
next
  case False
  then have "unat extra + unat (blength b) \<le> 2 ^ 64 - 2"
    using builder_ok_room [OF assms] assms by (simp add: word_less_nat_alt builder_ok_def)
  then have "unat (blength b + extra) = unat (blength b) + unat extra"
    by (simp add: unat_word_ariths)
  then have n: "unat (blength b + extra + 1) = unat (blength b) + unat extra + 1"
    using \<open>unat extra + unat (blength b) \<le> 2 ^ 64 - 2\<close> by (simp add: unat_word_ariths)
  define c0 where "c0 = (if bcapacity b = 0 then 256 else bcapacity b)"
  have "c0 \<noteq> 0" by (simp add: c0_def)
  from grow_capacity_total [OF this, of "blength b + extra + 1"]
  show ?thesis
    using False n
    by (auto simp: cubicle_json_builder_reserve_def run_bind_def word_le_nat_alt
        simp flip: c0_def) (auto simp: c0_def)
qed

theorem builder_reserve_total_witness:
  "\<exists>r. cubicle_json_builder_reserve (\<lambda>_. True) cubicle_json_builder_init 300 = Some r \<and>
    (\<forall>b'. r = Inr b' \<longrightarrow> 301 \<le> unat (bcapacity b'))"
  using builder_reserve_total [OF builder_ok_init, of "\<lambda>_. True" 300]
  by (auto simp: cubicle_json_builder_init_def)

end
