(* ===== verification/Json_Value.thy ===== *)
theory Json_Value
  imports Json_Text
begin

text \<open>
  \<open>src/src/common/json.c\<close>: the resource limits enforced on every parsed document, the
  accessors, and the accessors that describe what is wrong with a field. The tree is what
  the sources see of a \<open>yyjson\<close> document; the reader that builds it is the parameter
  \<open>rd\<close> of the definitions that parse. Output pointers are non-null and become results.
\<close>

section \<open>Documents\<close>

text \<open>
  Keys and strings are byte strings with a length and may hold NUL. \<open>JReal\<close> keeps its
  lexeme: no source reads the number. \<open>JSint\<close> is a negative integer.
\<close>

datatype json =
    JNull
  | JBool bool
  | JUint "64 word"
  | JSint "64 word"
  | JReal bytes
  | JStr bytes
  | JArr "json list"
  | JObj "(bytes \<times> json) list"

fun is_obj :: "json \<Rightarrow> bool" where
  "is_obj (JObj _) = True"
| "is_obj _ = False"

definition CUBICLE_JSON_MAX_DOCUMENT_BYTES :: nat where
  "CUBICLE_JSON_MAX_DOCUMENT_BYTES = 16 * 1024 * 1024"
definition CUBICLE_JSON_MAX_DEPTH :: nat where
  "CUBICLE_JSON_MAX_DEPTH = 32"
definition CUBICLE_JSON_MAX_OBJECT_MEMBERS :: nat where
  "CUBICLE_JSON_MAX_OBJECT_MEMBERS = 256"
definition CUBICLE_JSON_MAX_ARRAY_ELEMENTS :: nat where
  "CUBICLE_JSON_MAX_ARRAY_ELEMENTS = 65536"
definition CUBICLE_JSON_MAX_STRING_BYTES :: nat where
  "CUBICLE_JSON_MAX_STRING_BYTES = 1024 * 1024"
definition CUBICLE_JSON_MAX_METHOD_BYTES :: nat where
  "CUBICLE_JSON_MAX_METHOD_BYTES = 128"

lemmas json_limit_defs =
  CUBICLE_JSON_MAX_DOCUMENT_BYTES_def CUBICLE_JSON_MAX_DEPTH_def
  CUBICLE_JSON_MAX_OBJECT_MEMBERS_def CUBICLE_JSON_MAX_ARRAY_ELEMENTS_def
  CUBICLE_JSON_MAX_STRING_BYTES_def CUBICLE_JSON_MAX_METHOD_BYTES_def

section \<open>Validation\<close>

text \<open>
  The three mutually recursive validators. The inner loop of \<open>validate_json_object\<close> compares
  a key with the keys after it.
\<close>

fun validate_json_value :: "json \<Rightarrow> nat \<Rightarrow> unit result"
  and validate_json_object_loop :: "(bytes \<times> json) list \<Rightarrow> nat \<Rightarrow> unit result"
  and validate_json_array_loop :: "json list \<Rightarrow> nat \<Rightarrow> unit result" where
  "validate_json_value value depth =
     (if depth > CUBICLE_JSON_MAX_DEPTH then Inl EINVAL
      else case value of
        JStr s \<Rightarrow> if length s > CUBICLE_JSON_MAX_STRING_BYTES then Inl E2BIG else Inr ()
      | JObj members \<Rightarrow>
          if length members > CUBICLE_JSON_MAX_OBJECT_MEMBERS then Inl E2BIG
          else validate_json_object_loop members depth
      | JArr items \<Rightarrow>
          if length items > CUBICLE_JSON_MAX_ARRAY_ELEMENTS then Inl E2BIG
          else validate_json_array_loop items depth
      | _ \<Rightarrow> Inr ())"
| "validate_json_object_loop [] depth = Inr ()"
| "validate_json_object_loop ((key, v) # members) depth =
     (if length key > CUBICLE_JSON_MAX_STRING_BYTES then Inl EINVAL
      else if key \<in> set (map fst members) then Inl EINVAL
      else rbind (validate_json_value v (depth + 1))
             (\<lambda>_. validate_json_object_loop members depth))"
| "validate_json_array_loop [] depth = Inr ()"
| "validate_json_array_loop (item # items) depth =
     rbind (validate_json_value item (depth + 1)) (\<lambda>_. validate_json_array_loop items depth)"

definition cubicle_json_parse :: "(bytes \<Rightarrow> json option) \<Rightarrow> bytes option \<Rightarrow> json result" where
  "cubicle_json_parse rd text =
     (case text of
        None \<Rightarrow> Inl EINVAL
      | Some t \<Rightarrow>
          if length t > CUBICLE_JSON_MAX_DOCUMENT_BYTES then Inl E2BIG
          else (case rd t of
              None \<Rightarrow> Inl EPROTO
            | Some root \<Rightarrow> rbind (validate_json_value root 1) (\<lambda>_. Inr root)))"

section \<open>Accessors\<close>

fun find_member_loop :: "(bytes \<times> json) list \<Rightarrow> bytes \<Rightarrow> json result" where
  "find_member_loop [] field = Inl ENOENT"
| "find_member_loop ((key, v) # members) field =
     (if length key = length field \<and> key = field then Inr v else find_member_loop members field)"

definition find_object_member :: "json \<Rightarrow> bytes \<Rightarrow> json result" where
  "find_object_member obj field =
     (case obj of JObj members \<Rightarrow> find_member_loop members field | _ \<Rightarrow> Inl EINVAL)"

definition cubicle_json_object_get :: "json \<Rightarrow> bytes \<Rightarrow> json result" where
  "cubicle_json_object_get obj field =
     (if \<not> is_obj obj then Inl EINVAL else find_object_member obj field)"

text \<open>A string is copied up to its first NUL; it has to fit with the terminator.\<close>

definition cubicle_json_get_string :: "json \<Rightarrow> bytes \<Rightarrow> nat \<Rightarrow> bytes result" where
  "cubicle_json_get_string obj field buffer_size =
     (if buffer_size = 0 then Inl EINVAL
      else case cubicle_json_object_get obj field of
        Inr (JStr text) \<Rightarrow>
          if length (cstr text) \<ge> buffer_size then Inl ENOSPC else Inr (cstr text)
      | _ \<Rightarrow> Inl EINVAL)"

definition cubicle_json_get_u64 :: "json \<Rightarrow> bytes \<Rightarrow> 64 word result" where
  "cubicle_json_get_u64 obj field =
     (case cubicle_json_object_get obj field of Inr (JUint w) \<Rightarrow> Inr w | _ \<Rightarrow> Inl EINVAL)"

text \<open>The bits of either kind of integer, read as \<open>int64_t\<close>.\<close>

definition cubicle_json_get_i64 :: "json \<Rightarrow> bytes \<Rightarrow> int result" where
  "cubicle_json_get_i64 obj field =
     (case cubicle_json_object_get obj field of
        Inr (JUint w) \<Rightarrow> Inr (sint w)
      | Inr (JSint w) \<Rightarrow> Inr (sint w)
      | _ \<Rightarrow> Inl EINVAL)"

definition cubicle_json_get_bool :: "json \<Rightarrow> bytes \<Rightarrow> bool result" where
  "cubicle_json_get_bool obj field =
     (case cubicle_json_object_get obj field of Inr (JBool b) \<Rightarrow> Inr b | _ \<Rightarrow> Inl EINVAL)"

definition cubicle_json_get_object :: "json \<Rightarrow> bytes \<Rightarrow> json result" where
  "cubicle_json_get_object obj field =
     (case cubicle_json_object_get obj field of Inr (JObj ms) \<Rightarrow> Inr (JObj ms) | _ \<Rightarrow> Inl EINVAL)"

definition cubicle_json_get_array :: "json \<Rightarrow> bytes \<Rightarrow> json result" where
  "cubicle_json_get_array obj field =
     (case cubicle_json_object_get obj field of Inr (JArr vs) \<Rightarrow> Inr (JArr vs) | _ \<Rightarrow> Inl EINVAL)"

text \<open>\<open>yyjson_val_write\<close> is the parameter \<open>wr\<close>; it fails when it cannot allocate.\<close>

definition cubicle_json_copy_value :: "(json \<Rightarrow> bytes option) \<Rightarrow> json option \<Rightarrow> bytes result" where
  "cubicle_json_copy_value wr value =
     (case value of
        None \<Rightarrow> Inl EINVAL
      | Some v \<Rightarrow> (case wr v of None \<Rightarrow> Inl ENOMEM | Some t \<Rightarrow> Inr t))"

definition cubicle_json_copy_field :: "(json \<Rightarrow> bytes option) \<Rightarrow> json \<Rightarrow> bytes \<Rightarrow> bytes result" where
  "cubicle_json_copy_field wr obj field =
     cubicle_json_copy_value wr
       (case cubicle_json_object_get obj field of Inl _ \<Rightarrow> None | Inr v \<Rightarrow> Some v)"

definition cubicle_json_array_size :: "json \<Rightarrow> nat" where
  "cubicle_json_array_size a = (case a of JArr vs \<Rightarrow> length vs | _ \<Rightarrow> 0)"

definition cubicle_json_array_get :: "json \<Rightarrow> nat \<Rightarrow> json result" where
  "cubicle_json_array_get a index =
     (case a of
        JArr vs \<Rightarrow> if index < length vs then Inr (vs ! index) else Inl ENOENT
      | _ \<Rightarrow> Inl EINVAL)"

section \<open>Accessors with a description of the error\<close>

record validation_error =
  v_code :: errno
  v_field_path :: bytes
  v_expected :: bytes
  v_message :: bytes

type_synonym 'a checked = "validation_error + 'a"

text \<open>\<open>snprintf\<close> cuts each text to its array.\<close>

definition set_validation_error ::
    "errno \<Rightarrow> bytes \<Rightarrow> bytes \<Rightarrow> bytes \<Rightarrow> validation_error" where
  "set_validation_error c field exp msg =
     \<lparr>v_code = c, v_field_path = take 255 field, v_expected = take 63 exp, v_message = take 255 msg\<rparr>"

definition required_field :: "json \<Rightarrow> bytes \<Rightarrow> bytes \<Rightarrow> json checked" where
  "required_field obj field exp =
     (case find_object_member obj field of
        Inl _ \<Rightarrow> Inl (set_validation_error ENOENT field exp ''required field is missing'')
      | Inr v \<Rightarrow> Inr v)"

text \<open>\<open>Inr None\<close> is an absent field: \<open>*present_out\<close> is 0.\<close>

definition optional_field :: "json \<Rightarrow> bytes \<Rightarrow> json option checked" where
  "optional_field obj field =
     (case find_object_member obj field of
        Inl _ \<Rightarrow> Inr None
      | Inr v \<Rightarrow>
          if v = JNull then
            Inl (set_validation_error EINVAL field ''non-null'' ''null is not permitted'')
          else Inr (Some v))"

definition wrong_type :: "bytes \<Rightarrow> bytes \<Rightarrow> validation_error" where
  "wrong_type field exp = set_validation_error EINVAL field exp ''field has the wrong type''"

text \<open>The tail both string accessors share: the type, the room, the copy.\<close>

definition checked_string :: "bytes \<Rightarrow> nat \<Rightarrow> json \<Rightarrow> bytes checked" where
  "checked_string field buffer_size v =
     (case v of
        JStr s \<Rightarrow>
          if buffer_size = 0 \<or> length s \<ge> buffer_size then
            Inl (set_validation_error ENOSPC field ''string'' ''string does not fit destination'')
          else Inr s
      | _ \<Rightarrow> Inl (wrong_type field ''string''))"

definition cubicle_json_get_required_string :: "json \<Rightarrow> bytes \<Rightarrow> nat \<Rightarrow> bytes checked" where
  "cubicle_json_get_required_string obj field buffer_size =
     rbind (required_field obj field ''string'') (checked_string field buffer_size)"

definition cubicle_json_get_optional_string ::
    "json \<Rightarrow> bytes \<Rightarrow> nat \<Rightarrow> bytes option checked" where
  "cubicle_json_get_optional_string obj field buffer_size =
     rbind (optional_field obj field) (\<lambda>v.
       case v of None \<Rightarrow> Inr None
       | Some v' \<Rightarrow> rbind (checked_string field buffer_size v') (\<lambda>s. Inr (Some s)))"

definition cubicle_json_get_required_u64 :: "json \<Rightarrow> bytes \<Rightarrow> 64 word checked" where
  "cubicle_json_get_required_u64 obj field =
     rbind (required_field obj field ''uint64'') (\<lambda>v.
       case v of JUint w \<Rightarrow> Inr w | _ \<Rightarrow> Inl (wrong_type field ''uint64''))"

definition cubicle_json_get_optional_u64 :: "json \<Rightarrow> bytes \<Rightarrow> 64 word option checked" where
  "cubicle_json_get_optional_u64 obj field =
     rbind (optional_field obj field) (\<lambda>v.
       case v of None \<Rightarrow> Inr None
       | Some (JUint w) \<Rightarrow> Inr (Some w)
       | Some _ \<Rightarrow> Inl (wrong_type field ''uint64''))"

definition cubicle_json_get_optional_bool :: "json \<Rightarrow> bytes \<Rightarrow> bool option checked" where
  "cubicle_json_get_optional_bool obj field =
     rbind (optional_field obj field) (\<lambda>v.
       case v of None \<Rightarrow> Inr None
       | Some (JBool b) \<Rightarrow> Inr (Some b)
       | Some _ \<Rightarrow> Inl (wrong_type field ''bool''))"

definition cubicle_json_get_required_object :: "json \<Rightarrow> bytes \<Rightarrow> json checked" where
  "cubicle_json_get_required_object obj field =
     rbind (required_field obj field ''object'') (\<lambda>v.
       case v of JObj ms \<Rightarrow> Inr (JObj ms) | _ \<Rightarrow> Inl (wrong_type field ''object''))"

definition cubicle_json_get_optional_object :: "json \<Rightarrow> bytes \<Rightarrow> json option checked" where
  "cubicle_json_get_optional_object obj field =
     rbind (optional_field obj field) (\<lambda>v.
       case v of None \<Rightarrow> Inr None
       | Some (JObj ms) \<Rightarrow> Inr (Some (JObj ms))
       | Some _ \<Rightarrow> Inl (wrong_type field ''object''))"

definition cubicle_json_get_required_array :: "json \<Rightarrow> bytes \<Rightarrow> json checked" where
  "cubicle_json_get_required_array obj field =
     rbind (required_field obj field ''array'') (\<lambda>v.
       case v of JArr vs \<Rightarrow> Inr (JArr vs) | _ \<Rightarrow> Inl (wrong_type field ''array''))"

definition cubicle_json_validate_ascii_identifier :: "bytes option \<Rightarrow> bytes \<Rightarrow> unit checked" where
  "cubicle_json_validate_ascii_identifier value field =
     (case value of
        None \<Rightarrow> Inl (set_validation_error EINVAL field ''ASCII identifier'' ''identifier is empty'')
      | Some [] \<Rightarrow> Inl (set_validation_error EINVAL field ''ASCII identifier'' ''identifier is empty'')
      | Some v \<Rightarrow>
          if \<exists>c \<in> set v. byte c < 0x21 \<or> byte c > 0x7E then
            Inl (set_validation_error EINVAL field ''ASCII identifier''
              ''identifier contains invalid bytes'')
          else Inr ())"

section \<open>The limits, declaratively\<close>

fun json_depth :: "json \<Rightarrow> nat" where
  "json_depth (JArr vs) = 1 + fold max (map json_depth vs) 0"
| "json_depth (JObj ms) = 1 + fold max (map (\<lambda>(k, v). json_depth v) ms) 0"
| "json_depth _ = 1"

fun json_limits :: "json \<Rightarrow> bool" where
  "json_limits (JStr s) \<longleftrightarrow> length s \<le> CUBICLE_JSON_MAX_STRING_BYTES"
| "json_limits (JArr vs) \<longleftrightarrow>
     length vs \<le> CUBICLE_JSON_MAX_ARRAY_ELEMENTS \<and> (\<forall>v \<in> set vs. json_limits v)"
| "json_limits (JObj ms) \<longleftrightarrow>
     length ms \<le> CUBICLE_JSON_MAX_OBJECT_MEMBERS \<and> distinct (map fst ms) \<and>
     (\<forall>(k, v) \<in> set ms. length k \<le> CUBICLE_JSON_MAX_STRING_BYTES \<and> json_limits v)"
| "json_limits _ \<longleftrightarrow> True"

lemma fold_max_le: "fold max xs (a :: nat) \<le> n \<longleftrightarrow> a \<le> n \<and> (\<forall>x \<in> set xs. x \<le> n)"
  by (induction xs arbitrary: a) auto

lemma fold_max_add_le: "d \<le> n \<Longrightarrow> fold max xs (0 :: nat) + d \<le> n \<longleftrightarrow> (\<forall>x \<in> set xs. x + d \<le> n)"
  using fold_max_le [of xs 0 "n - d"] by (auto simp: le_diff_conv2)

lemma json_depth_pos [simp]: "0 < json_depth v"
  by (cases v) simp_all

lemma unit_result_bind: "rbind m (\<lambda>_. r) = Inr () \<longleftrightarrow> m = Inr () \<and> r = Inr ()"
  for m :: "unit result"
  by (cases m) auto

lemma validate_json_iff:
  "validate_json_value v d = Inr () \<longleftrightarrow> json_limits v \<and> json_depth v + d \<le> CUBICLE_JSON_MAX_DEPTH + 1"
  "validate_json_object_loop ms d = Inr () \<longleftrightarrow>
     distinct (map fst ms) \<and>
     (\<forall>(k, v) \<in> set ms. length k \<le> CUBICLE_JSON_MAX_STRING_BYTES \<and> json_limits v
        \<and> json_depth v + d \<le> CUBICLE_JSON_MAX_DEPTH)"
  "validate_json_array_loop vs d = Inr () \<longleftrightarrow>
     (\<forall>v \<in> set vs. json_limits v \<and> json_depth v + d \<le> CUBICLE_JSON_MAX_DEPTH)"
proof (induction v d and ms d and vs d
    rule: validate_json_value_validate_json_object_loop_validate_json_array_loop.induct)
  case (1 w depth)
  show ?case
  proof (cases "depth > CUBICLE_JSON_MAX_DEPTH")
    case True
    then have "\<not> json_depth w + depth \<le> CUBICLE_JSON_MAX_DEPTH + 1"
      using json_depth_pos [of w] by linarith
    then show ?thesis using True by simp
  next
    case False
    then show ?thesis
    proof (cases w)
      case (JArr vs)
      then show ?thesis
        using False "1.IH"(1) [OF False JArr] by (auto simp: fold_max_add_le)
    next
      case (JObj ms)
      then show ?thesis
        using False "1.IH"(2) [OF False JObj] by (auto simp: fold_max_add_le)
    qed auto
  qed
next
  case (3 key v members depth)
  then show ?case by (auto simp: unit_result_bind)
next
  case (5 item items depth)
  then show ?case by (auto simp: unit_result_bind)
qed auto

text \<open>C5. (\<open>cubicle_json_parse\<close>.) A text is accepted exactly when it has at most 16 MiB, the reader
  accepts it, nesting is at most 32, and every object in it has at most 256 members with
  distinct keys, every array at most 65536 elements and every string and key at most 1 MiB.\<close>

theorem json_parse_iff:
  "cubicle_json_parse rd (Some t) = Inr v \<longleftrightarrow>
     length t \<le> CUBICLE_JSON_MAX_DOCUMENT_BYTES \<and> rd t = Some v \<and> json_limits v
     \<and> json_depth v \<le> CUBICLE_JSON_MAX_DEPTH"
  by (auto simp: cubicle_json_parse_def rbind_eq_Inr validate_json_iff(1)
      simp del: validate_json_value.simps split: option.splits)

end
