(* ===== verification/Json_Reader.thy ===== *)
theory Json_Reader
  imports Json_Value
begin

text \<open>
  What the sources rely on of the vendored JSON reader \<open>yyjson_read_opts\<close>, as a locale:
  strings, integers, booleans and objects of RFC 8259 are read as the values they denote,
  and an object is read from the texts of its members. \<open>read_json\<close> is a strict
  recursive-descent reader for documents without fractions that satisfies these laws.
\<close>

definition quoted :: "bytes \<Rightarrow> bytes" where
  "quoted body = DQ # body @ [DQ]"

fun join_texts :: "bytes list \<Rightarrow> bytes" where
  "join_texts [] = []"
| "join_texts [t] = t"
| "join_texts (t # ts) = t @ CHR '','' # join_texts ts"

definition member_text :: "bytes \<times> bytes \<Rightarrow> bytes" where
  "member_text m = quoted (fst m) @ CHR '':'' # snd m"

definition object_text :: "(bytes \<times> bytes) list \<Rightarrow> bytes" where
  "object_text ms = CHR ''{'' # join_texts (map member_text ms) @ ''}''"

locale json_reader =
  fixes rd :: "bytes \<Rightarrow> json option"
  assumes rd_string: "json_unescape body = Some s \<Longrightarrow> rd (quoted body) = Some (JStr s)"
    and rd_uint: "rd (show_nat (unat w)) = Some (JUint w)"
    and rd_negative: "sint w < 0 \<Longrightarrow> rd (show_int (sint w)) = Some (JSint w)"
    and rd_bool: "rd (if b then ''true'' else ''false'') = Some (JBool b)"
    and rd_object:
      "list_all2 (\<lambda>(kb, t) (k, v). json_unescape kb = Some k \<and> rd t = Some v) texts ms \<Longrightarrow>
       rd (object_text texts) = Some (JObj ms)"

section \<open>A reference reader\<close>

definition is_ws :: "char \<Rightarrow> bool" where
  "is_ws c \<longleftrightarrow> c = CHR 0x20 \<or> c = CHR 0x09 \<or> c = CHR 0x0A \<or> c = CHR 0x0D"

definition token :: "bytes \<Rightarrow> (char \<times> bytes) option" where
  "token s = (case dropWhile is_ws s of [] \<Rightarrow> None | c # r \<Rightarrow> Some (c, r))"

text \<open>The body of a string literal and what follows its closing quote.\<close>

fun scan_body :: "bytes \<Rightarrow> (bytes \<times> bytes) option" where
  "scan_body [] = None"
| "scan_body (c # r) =
     (if c = DQ then Some ([], r)
      else if c = BSL then
        (case r of [] \<Rightarrow> None | e # r' \<Rightarrow> map_option (apfst (\<lambda>b. c # e # b)) (scan_body r'))
      else map_option (apfst ((#) c)) (scan_body r))"

definition read_string :: "bytes \<Rightarrow> (bytes \<times> bytes) option" where
  "read_string r =
     Option.bind (scan_body r) (\<lambda>(body, r'). Option.bind (json_unescape body) (\<lambda>s. Some (s, r')))"

definition is_num_char :: "char \<Rightarrow> bool" where
  "is_num_char c \<longleftrightarrow> is_digit c \<or> c \<in> set ''+-.eE''"

definition natural :: "bytes \<Rightarrow> bool" where
  "natural s \<longleftrightarrow> s \<noteq> [] \<and> list_all is_digit s \<and> (hd s = CHR ''0'' \<longrightarrow> tl s = [])"

definition number_value :: "bytes \<Rightarrow> json option" where
  "number_value s =
     (if natural s \<and> dec_value s < 2 ^ 64 then Some (JUint (of_nat (dec_value s)))
      else if s \<noteq> [] \<and> hd s = CHR ''-'' \<and> natural (tl s)
        \<and> 0 < dec_value (tl s) \<and> dec_value (tl s) \<le> 2 ^ 63
      then Some (JSint (of_int (- int (dec_value (tl s)))))
      else None)"

definition read_literal :: "bytes \<Rightarrow> (json \<times> bytes) option" where
  "read_literal s =
     (if take 4 s = ''null'' then Some (JNull, drop 4 s)
      else if take 4 s = ''true'' then Some (JBool True, drop 4 s)
      else if take 5 s = ''false'' then Some (JBool False, drop 5 s)
      else Option.bind (number_value (takeWhile is_num_char s))
             (\<lambda>v. Some (v, dropWhile is_num_char s)))"

text \<open>The fuel bounds nesting and the number of members together; the length is enough.\<close>

fun read_value :: "nat \<Rightarrow> bytes \<Rightarrow> (json \<times> bytes) option"
  and read_members :: "nat \<Rightarrow> bytes \<Rightarrow> ((bytes \<times> json) list \<times> bytes) option"
  and read_elements :: "nat \<Rightarrow> bytes \<Rightarrow> (json list \<times> bytes) option" where
  "read_value 0 s = None"
| "read_value (Suc n) s =
     Option.bind (token s) (\<lambda>(c, r).
       if c = DQ then Option.bind (read_string r) (\<lambda>(b, r'). Some (JStr b, r'))
       else if c = CHR ''{'' then
         Option.bind (token r) (\<lambda>(d, r').
           if d = CHR ''}'' then Some (JObj [], r')
           else Option.bind (read_members n r) (\<lambda>(ms, r''). Some (JObj ms, r'')))
       else if c = CHR ''['' then
         Option.bind (token r) (\<lambda>(d, r').
           if d = CHR '']'' then Some (JArr [], r')
           else Option.bind (read_elements n r) (\<lambda>(vs, r''). Some (JArr vs, r'')))
       else read_literal (c # r))"
| "read_members 0 s = None"
| "read_members (Suc n) s =
     Option.bind (token s) (\<lambda>(q, r1). if q \<noteq> DQ then None else
     Option.bind (read_string r1) (\<lambda>(k, r2).
     Option.bind (token r2) (\<lambda>(col, r3). if col \<noteq> CHR '':'' then None else
     Option.bind (read_value n r3) (\<lambda>(v, r4).
     Option.bind (token r4) (\<lambda>(e, r5).
       if e = CHR ''}'' then Some ([(k, v)], r5)
       else if e = CHR '','' then
         Option.bind (read_members n r5) (\<lambda>(ms, r6). Some ((k, v) # ms, r6))
       else None)))))"
| "read_elements 0 s = None"
| "read_elements (Suc n) s =
     Option.bind (read_value n s) (\<lambda>(v, r1).
     Option.bind (token r1) (\<lambda>(e, r2).
       if e = CHR '']'' then Some ([v], r2)
       else if e = CHR '','' then
         Option.bind (read_elements n r2) (\<lambda>(vs, r3). Some (v # vs, r3))
       else None))"

definition read_json :: "bytes \<Rightarrow> json option" where
  "read_json s =
     Option.bind (read_value (Suc (length s)) s)
       (\<lambda>(v, r). if list_all is_ws r then Some v else None)"

section \<open>Reading a prefix\<close>

text \<open>A value that has been read is read again, with the same rest, whatever follows a
  terminator.\<close>

definition terminated :: "bytes \<Rightarrow> bool" where
  "terminated x \<longleftrightarrow> x = [] \<or> \<not> is_num_char (hd x)"

lemma token_append: "token s = Some (c, r) \<Longrightarrow> token (s @ x) = Some (c, r @ x)"
  by (auto simp: token_def dropWhile_append split: list.splits)
    (metis append_is_Nil_conv dropWhile_eq_Nil_conv list.discI)+

lemma scan_body_append: "scan_body s = Some (b, r) \<Longrightarrow> scan_body (s @ x) = Some (b, r @ x)"
  by (induction s arbitrary: b rule: scan_body.induct) (auto split: if_splits list.splits)

lemma read_string_append: "read_string s = Some (b, r) \<Longrightarrow> read_string (s @ x) = Some (b, r @ x)"
  by (auto simp: read_string_def bind_eq_Some_conv dest: scan_body_append [of _ _ _ x])

lemma takeWhile_terminated: "terminated x \<Longrightarrow> takeWhile is_num_char (s @ x) = takeWhile is_num_char s"
  by (induction s) (auto simp: terminated_def takeWhile_eq_Nil_iff)

lemma dropWhile_terminated: "terminated x \<Longrightarrow> dropWhile is_num_char (s @ x) = dropWhile is_num_char s @ x"
  by (induction s) (auto simp: terminated_def dropWhile_eq_self_iff)

lemma take_eq_obtain: "take n s = t \<Longrightarrow> (\<And>s'. s = t @ s' \<Longrightarrow> P) \<Longrightarrow> P"
  by (metis append_take_drop_id)

lemma read_literal_append:
  assumes "read_literal s = Some (v, r)" "terminated x"
  shows "read_literal (s @ x) = Some (v, r @ x)"
proof -
  consider s' where "s = ''null'' @ s'" | s' where "s = ''true'' @ s'" | s' where "s = ''false'' @ s'"
    | "number_value (takeWhile is_num_char s) = Some v" "r = dropWhile is_num_char s"
    using assms(1)
    by (auto elim!: take_eq_obtain simp: read_literal_def bind_eq_Some_conv split: if_splits)
  then show ?thesis
  proof cases
    case 4
    then have "takeWhile is_num_char s \<noteq> []"
      by (auto simp: number_value_def natural_def)
    then obtain c cs where s: "s = c # cs" "is_num_char c" by (cases s) (auto split: if_splits)
    then have "c \<noteq> CHR ''n''" "c \<noteq> CHR ''t''" "c \<noteq> CHR ''f''"
      by (auto simp: is_num_char_def is_digit_def)
    then show ?thesis
      using 4 s(1) takeWhile_terminated [OF assms(2), of s] dropWhile_terminated [OF assms(2), of s]
      by (simp add: read_literal_def)
  qed (use assms(1) in \<open>auto simp: read_literal_def\<close>)
qed

text \<open>\<open>carries f f' x\<close>: what \<open>f\<close> reads, \<open>f'\<close> reads in front of \<open>x\<close>.\<close>

definition carries ::
    "(bytes \<Rightarrow> ('a \<times> bytes) option) \<Rightarrow> (bytes \<Rightarrow> ('a \<times> bytes) option) \<Rightarrow> bytes \<Rightarrow> bool" where
  "carries f f' x \<longleftrightarrow> (\<forall>s a r. f s = Some (a, r) \<longrightarrow> f' (s @ x) = Some (a, r @ x))"

lemma carries_cong:
  "(\<And>s. f s = g s) \<Longrightarrow> (\<And>s. f' s = g' s) \<Longrightarrow> carries g g' x \<Longrightarrow> carries f f' x"
  by (simp add: carries_def)

lemma carries_intros:
  "carries (\<lambda>s. Some (a, s)) (\<lambda>s. Some (a, s)) x"
  "carries (\<lambda>s. None) f' x"
  "carries f f' x \<Longrightarrow> carries g g' x \<Longrightarrow>
     carries (\<lambda>s. if b then f s else g s) (\<lambda>s. if b then f' s else g' s) x"
  "carries f f' x \<Longrightarrow> carries (\<lambda>s. f (c # s)) (\<lambda>s. f' (c # s)) x"
  by (auto simp: carries_def) (metis append_Cons)

lemma carries_bind:
  assumes "carries f f' x" "\<And>a. carries (g a) (g' a) x"
  shows "carries (\<lambda>s. Option.bind (f s) (\<lambda>(a, r). g a r)) (\<lambda>s. Option.bind (f' s) (\<lambda>(a, r). g' a r)) x"
  using assms by (fastforce simp: carries_def bind_eq_Some_conv)

lemma carries_peek:
  assumes "carries f f' x" "\<And>a. carries (g a) (g' a) x" "\<And>a. carries (h a) (h' a) x"
  shows "carries (\<lambda>s. Option.bind (f s) (\<lambda>(a, r). if P a then g a r else h a s))
    (\<lambda>s. Option.bind (f' s) (\<lambda>(a, r). if P a then g' a r else h' a s)) x"
  unfolding carries_def
proof (intro allI impI)
  fix s a r
  assume "Option.bind (f s) (\<lambda>(a, r). if P a then g a r else h a s) = Some (a, r)"
  then obtain b q where b: "f s = Some (b, q)" "(if P b then g b q else h b s) = Some (a, r)"
    by (auto simp: bind_eq_Some_conv)
  then show "Option.bind (f' (s @ x)) (\<lambda>(a, r). if P a then g' a r else h' a (s @ x)) = Some (a, r @ x)"
    using assms(1) assms(2,3) [of b] by (cases "P b") (simp_all add: carries_def)
qed

lemma carries_basic:
  "carries token token x" "carries read_string read_string x"
  "terminated x \<Longrightarrow> carries read_literal read_literal x"
  by (simp_all add: carries_def token_append read_string_append read_literal_append)

lemmas carries_rules = carries_intros(1,2) carries_basic carries_peek carries_intros(3) carries_bind

lemma read_carries:
  assumes "terminated x"
  shows "n \<le> m \<Longrightarrow> carries (read_value n) (read_value m) x \<and>
    carries (read_members n) (read_members m) x \<and> carries (read_elements n) (read_elements m) x"
proof (induction n arbitrary: m)
  case 0
  then show ?case by (simp add: carries_def)
next
  case (Suc n)
  then obtain k where m: "m = Suc k" "n \<le> k" by (cases m) auto
  note ih = Suc.IH [OF m(2), THEN conjunct1] Suc.IH [OF m(2), THEN conjunct2, THEN conjunct1]
    Suc.IH [OF m(2), THEN conjunct2, THEN conjunct2]
  have "carries (read_value (Suc n)) (read_value (Suc k)) x"
    by (rule carries_cong [OF read_value.simps(2) read_value.simps(2)])
      (intro carries_rules carries_intros(4) [OF carries_basic(3) [OF assms]] ih)
  moreover have "carries (read_members (Suc n)) (read_members (Suc k)) x"
    by (rule carries_cong [OF read_members.simps(2) read_members.simps(2)])
      (intro carries_rules ih)
  moreover have "carries (read_elements (Suc n)) (read_elements (Suc k)) x"
    by (rule carries_cong [OF read_elements.simps(2) read_elements.simps(2)])
      (intro carries_rules ih)
  ultimately show ?case unfolding m(1) by blast
qed

lemma read_value_carries:
  "read_value n s = Some (v, r) \<Longrightarrow> n \<le> m \<Longrightarrow> terminated x \<Longrightarrow>
   read_value m (s @ x) = Some (v, r @ x)"
  using read_carries [of x n m] by (simp add: carries_def)

section \<open>The laws hold of the reference reader\<close>

declare read_value.simps [simp del] read_members.simps [simp del] read_elements.simps [simp del]

lemma scan_body_plain:
  "\<forall>c \<in> set p. c \<noteq> DQ \<and> c \<noteq> BSL \<Longrightarrow> scan_body (p @ r) = map_option (apfst ((@) p)) (scan_body r)"
proof (induction p)
  case Nil
  show ?case by (cases "scan_body r") (auto simp: apfst_def)
next
  case (Cons c p)
  then have "scan_body ((c # p) @ r) = map_option (apfst ((#) c)) (map_option (apfst ((@) p)) (scan_body r))"
    by simp
  then show ?case by (cases "scan_body r") auto
qed

lemma unhex4_plain: "unhex4 es = Some cp \<Longrightarrow> 4 \<le> length es \<and> (\<forall>c \<in> set (take 4 es). c \<noteq> DQ \<and> c \<noteq> BSL)"
proof (induction es rule: unhex4.induct)
  case (1 a b c d r)
  have "hex_value DQ = None" "hex_value BSL = None" by (simp_all add: hex_value_def)
  then show ?case using 1 by (auto split: option.splits)
qed simp_all

lemma sequence_plain: "\<forall>c \<in> set (take (utf8_sequence_length s) s). c \<noteq> DQ \<and> c \<noteq> BSL"
proof (cases "0 < utf8_sequence_length s")
  case True
  then obtain cp where cp: "scalar cp" "\<not> cp < 0x80" "take (utf8_sequence_length s) s = utf8_encode cp"
    using utf8_sequence_length_sound [of s] by auto
  then show ?thesis using utf8_encode_high_bytes [OF cp(2) _ cp(1)] by fastforce
qed simp

lemma scan_body_unescape:
  "json_unescape body = Some s \<Longrightarrow> scan_body (body @ DQ # r) = Some (body, r)"
proof (induction body arbitrary: s rule: json_unescape.induct)
  case 1
  then show ?case by simp
next
  case (2 c cs)
  show ?case
  proof (cases "c = BSL")
    case bsl: True
    with 2(5) obtain e es where cs: "cs = e # es" by (cases cs) (auto simp: json_unescape.simps)
    show ?thesis
    proof (cases "e = CHR ''u''")
      case True
      with 2(5) bsl cs obtain cp s' where u: "unhex4 es = Some cp" "scalar cp"
        "json_unescape (drop 4 es) = Some s'"
        by (auto simp: json_unescape.simps split: option.splits if_splits)
      have "scan_body (drop 4 es @ DQ # r) = Some (drop 4 es, r)"
        using "2.IH"(1) [OF bsl cs True u(1,2,3)] .
      then have "scan_body (take 4 es @ drop 4 es @ DQ # r) = Some (take 4 es @ drop 4 es, r)"
        using unhex4_plain [OF u(1)] by (subst scan_body_plain) (auto simp: apfst_def)
      then have "scan_body (es @ DQ # r) = Some (es, r)"
        by (metis append.assoc append_take_drop_id)
      then show ?thesis using bsl cs by simp
    next
      case False
      with 2(5) bsl cs obtain d s' where "short_unescape e = Some d" "json_unescape es = Some s'"
        by (auto simp: json_unescape.simps split: option.splits)
      then show ?thesis using "2.IH"(2) [OF bsl cs False] bsl cs by simp
    qed
  next
    case nb: False
    with 2(5) have c: "c \<noteq> DQ" "\<not> byte c < 0x20" by (auto simp: json_unescape.simps)
    show ?thesis
    proof (cases "byte c < 0x80")
      case True
      then obtain s' where "json_unescape cs = Some s'"
        using 2(5) nb c by (auto simp: json_unescape.simps)
      then show ?thesis using "2.IH"(3) [OF nb _ True] nb c by simp
    next
      case False
      let ?n = "utf8_sequence_length (c # cs)"
      obtain s' where n: "?n \<noteq> 0" "json_unescape (drop (?n - 1) cs) = Some s'"
        using 2(5) nb c False by (auto simp: json_unescape.simps Let_def split: if_splits)
      have ih: "scan_body (drop (?n - 1) cs @ DQ # r) = Some (drop (?n - 1) cs, r)"
        using "2.IH"(4) [OF nb _ False refl] n c by simp
      have "c # cs = take ?n (c # cs) @ drop (?n - 1) cs"
        using n(1) by (cases ?n) simp_all
      moreover have "scan_body (take ?n (c # cs) @ drop (?n - 1) cs @ DQ # r) =
          Some (take ?n (c # cs) @ drop (?n - 1) cs, r)"
        using scan_body_plain [OF sequence_plain [of "c # cs"]] ih by (simp add: apfst_def)
      ultimately show ?thesis by (metis append.assoc)
    qed
  qed
qed

lemma read_quoted: "json_unescape body = Some s \<Longrightarrow> read_string (body @ DQ # r) = Some (s, r)"
  by (simp add: read_string_def scan_body_unescape)

lemma token_Cons: "\<not> is_ws c \<Longrightarrow> token (c # r) = Some (c, r)"
  by (simp add: token_def)

lemma token_punctuation [simp]:
  "token (DQ # r) = Some (DQ, r)" "token (CHR ''{'' # r) = Some (CHR ''{'', r)"
  "token (CHR ''}'' # r) = Some (CHR ''}'', r)" "token (CHR '','' # r) = Some (CHR '','', r)"
  "token (CHR '':'' # r) = Some (CHR '':'', r)"
  by (simp_all add: token_Cons is_ws_def)

lemma token_ws: "list_all is_ws w \<Longrightarrow> token (w @ r) = token r"
  by (induction w) (simp_all add: token_def)

lemma terminated_punctuation [simp]:
  "terminated (CHR ''}'' # r)" "terminated (CHR '','' # r)" "terminated []"
  by (simp_all add: terminated_def is_num_char_def is_digit_def)

text \<open>The members of an object text, one unit of fuel per member.\<close>

lemma read_members_join:
  assumes "list_all2 (\<lambda>(kb, t) (k, v). json_unescape kb = Some k \<and> read_json t = Some v) texts ms"
    and "texts \<noteq> []" "length (join_texts (map member_text texts)) \<le> n"
  shows "read_members n (join_texts (map member_text texts) @ CHR ''}'' # r) = Some (ms, r)"
  using assms
proof (induction texts ms arbitrary: n rule: list_all2_induct)
  case (Cons m texts y ms)
  obtain kb t k v where m: "m = (kb, t)" "y = (k, v)" "json_unescape kb = Some k" "read_json t = Some v"
    using Cons.hyps(1) by (cases m; cases y) auto
  obtain w where w: "read_value (Suc (length t)) t = Some (v, w)" "list_all is_ws w"
    using m(4) by (auto simp: read_json_def bind_eq_Some_conv split: if_splits)
  show ?case
  proof (cases texts)
    case Nil
    then obtain n' where n: "n = Suc n'" "Suc (length t) \<le> n'"
      using Cons.prems m(1) by (cases n) (auto simp: member_text_def quoted_def)
    show ?thesis
      using Nil m n Cons.hyps(2) read_value_carries [OF w(1) n(2), of "CHR ''}'' # r"]
      by (simp add: read_members.simps member_text_def quoted_def read_quoted token_ws [OF w(2)])
  next
    case (Cons a rest)
    define more_text where "more_text = join_texts (map member_text texts)"
    have j: "join_texts (map member_text (m # texts)) = member_text m @ CHR '','' # more_text"
      using Cons by (simp add: more_text_def)
    have "length (member_text m @ CHR '','' # more_text) \<le> n"
      using Cons.prems unfolding j by simp
    then obtain n' where n: "n = Suc n'" "Suc (length t) \<le> n'" "length more_text \<le> n'"
      using m(1) by (cases n) (auto simp: member_text_def quoted_def)
    have "read_members n' (more_text @ CHR ''}'' # r) = Some (ms, r)"
      using Cons.IH [of n'] Cons n(3) by (simp add: more_text_def)
    then show ?thesis
      using m n(1) read_value_carries [OF w(1) n(2), of "CHR '','' # more_text @ CHR ''}'' # r"]
      unfolding j
      by (simp add: read_members.simps member_text_def quoted_def read_quoted token_ws [OF w(2)])
  qed
qed simp

lemma read_json_object:
  assumes "list_all2 (\<lambda>(kb, t) (k, v). json_unescape kb = Some k \<and> read_json t = Some v) texts ms"
  shows "read_json (object_text texts) = Some (JObj ms)"
proof (cases "texts = []")
  case True
  then show ?thesis
    using assms by (simp add: read_json_def object_text_def read_value.simps)
next
  case False
  let ?j = "join_texts (map member_text texts)"
  obtain r where "?j = DQ # r"
    using False by (cases texts; cases "tl texts") (auto simp: member_text_def quoted_def)
  moreover have "read_members (Suc (Suc (length ?j))) (?j @ ''}'') = Some (ms, [])"
    using read_members_join [OF assms False, of "Suc (Suc (length ?j))" "[]"] by simp
  ultimately show ?thesis
    by (simp add: read_json_def object_text_def read_value.simps(2))
qed

lemma read_json_number:
  assumes "\<forall>c \<in> set s. is_num_char c" "number_value s = Some v"
  shows "read_json s = Some v"
proof -
  obtain c cs where s: "s = c # cs" "is_num_char c"
    using assms by (cases s) (auto simp: number_value_def natural_def)
  then have "\<not> is_ws c" "c \<noteq> DQ" "c \<noteq> CHR ''{''" "c \<noteq> CHR ''[''"
    "c \<noteq> CHR ''n''" "c \<noteq> CHR ''t''" "c \<noteq> CHR ''f''"
    by (auto simp: is_num_char_def is_digit_def is_ws_def)
  then show ?thesis
    using s assms
    by (simp add: read_json_def read_value.simps(2) token_Cons read_literal_def
        takeWhile_eq_all_conv [THEN iffD2] dropWhile_eq_Nil_conv [THEN iffD2])
qed

lemma natural_show_nat: "natural (show_nat n)"
proof (cases "n = 0")
  case True
  then show ?thesis by (simp add: natural_def show_nat.simps digit_char_def is_digit_def)
next
  case False
  then show ?thesis
    using hd_show_nat [of n] by (simp add: natural_def list_all_iff show_nat_digits)
qed

interpretation ref: json_reader read_json
proof
  fix body s
  assume "json_unescape body = Some s"
  then show "read_json (quoted body) = Some (JStr s)"
    using read_quoted [of body s "[]"] by (simp add: read_json_def read_value.simps(2) quoted_def)
next
  fix w :: "64 word"
  have "number_value (show_nat (unat w)) = Some (JUint w)"
    using unat_size_t [of w] by (simp add: number_value_def natural_show_nat)
  then show "read_json (show_nat (unat w)) = Some (JUint w)"
    by (intro read_json_number) (auto simp: is_num_char_def show_nat_digits)
next
  fix w :: "64 word"
  assume neg: "sint w < 0"
  define k where "k = nat (- sint w)"
  have "- (2 ^ 63) \<le> sint w" using sint_greater_eq [of w] by simp
  then have k: "0 < k" "k \<le> 2 ^ 63" "sint w = - int k" using neg by (simp_all add: k_def)
  have "(of_int (sint w) :: 64 word) = w" by simp
  then have "(of_int (- int k) :: 64 word) = w" unfolding k(3) .
  then have "number_value (CHR ''-'' # show_nat k) = Some (JSint w)"
    using k by (simp add: number_value_def natural_show_nat natural_def [of "_ # _"] is_digit_def)
  moreover have "show_int (sint w) = CHR ''-'' # show_nat k"
    using neg by (simp add: show_int_def k_def)
  ultimately show "read_json (show_int (sint w)) = Some (JSint w)"
    by (auto simp: is_num_char_def show_nat_digits intro!: read_json_number)
next
  fix b
  have "read_json ''true'' = Some (JBool True)" "read_json ''false'' = Some (JBool False)"
    by code_simp+
  then show "read_json (if b then ''true'' else ''false'') = Some (JBool b)" by simp
qed (rule read_json_object)

end
