(* ===== verification/Registry.thy ===== *)
theory Registry
  imports Cubicle_Prelude
begin

text \<open>
  The tab-separated records the manager keeps in its state directory: workspaces, processes
  and event cursors (\<open>src/src/manager/registry.c\<close>), workspace keys and macros
  (\<open>src/src/manager/main.c\<close>). Every record has a parser and the text the manager prints for
  it. The locale \<open>record_file\<close> is what a file of records promises to its readers.
\<close>

section \<open>Fields\<close>

abbreviation TAB :: char where "TAB \<equiv> CHR 0x09"
abbreviation NL :: char where "NL \<equiv> CHR 0x0A"

definition is_sep :: "char \<Rightarrow> bool" where
  "is_sep c \<longleftrightarrow> c = TAB \<or> c = NL"

text \<open>Every field \<open>next_field\<close> returns, in order; the next call returns NULL.\<close>

fun split_fields :: "bytes \<Rightarrow> bytes list" where
  "split_fields [] = [[]]"
| "split_fields (c # cs) =
     (if is_sep c then [] # split_fields cs
      else case split_fields cs of [] \<Rightarrow> [[c]] | f # fs \<Rightarrow> (c # f) # fs)"

definition next_field :: "bytes list \<Rightarrow> nat \<Rightarrow> bytes option" where
  "next_field fs i = (if i < length fs then Some (fs ! i) else None)"

text \<open>\<open>strtok\<close> with the same separators skips empty fields.\<close>

definition tokens :: "bytes \<Rightarrow> bytes list" where
  "tokens s = filter (\<lambda>f. f \<noteq> []) (split_fields s)"

text \<open>\<open>snprintf(field, size, "%s", text)\<close>.\<close>

definition store :: "nat \<Rightarrow> bytes \<Rightarrow> bytes" where
  "store n text = take (n - 1) text"

definition sign_split :: "bytes \<Rightarrow> bool \<times> bytes" where
  "sign_split s =
     (case dropWhile isspace s of
        [] \<Rightarrow> (False, [])
      | c # r \<Rightarrow> if c = CHR ''-'' then (True, r) else if c = CHR ''+'' then (False, r) else (False, c # r))"

definition strtoull :: "bytes \<Rightarrow> 64 word" where
  "strtoull s =
     (let (neg, d) = sign_split s; v = dec_value (takeWhile is_digit d) in
      if v > 2 ^ 64 - 1 then - 1 else if neg then - of_nat v else of_nat v)"

definition atoll :: "bytes \<Rightarrow> int" where
  "atoll s =
     (let (neg, d) = sign_split s; v = int (dec_value (takeWhile is_digit d)) in
      if neg then max (- v) (- (2 ^ 63)) else min v (2 ^ 63 - 1))"

section \<open>Records\<close>

record workspace_record =
  ws_id :: bytes
  ws_name :: bytes
  ws_directory :: bytes

definition cubicle_parse_workspace_record :: "bytes \<Rightarrow> workspace_record option" where
  "cubicle_parse_workspace_record line =
     (case tokens line of
        i # n # rest \<Rightarrow>
          Some \<lparr>ws_id = store 33 i, ws_name = store 128 n,
                ws_directory = store 4096 (case rest of [] \<Rightarrow> [] | d # _ \<Rightarrow> d)\<rparr>
      | _ \<Rightarrow> None)"

definition workspace_line :: "workspace_record \<Rightarrow> bytes" where
  "workspace_line r = ws_id r @ [TAB] @ ws_name r @ [TAB] @ ws_directory r @ [NL]"

record process_record =
  pr_process_id :: bytes
  pr_workspace_id :: bytes
  pr_friendly_name :: bytes
  pr_mode :: bytes
  pr_state :: bytes
  pr_controller_id :: bytes
  pr_control_socket :: bytes
  pr_cwd :: bytes
  pr_argv_json :: bytes
  pr_saved :: bool
  pr_restart :: bool
  pr_stdin_policy :: bytes
  pr_workspace_name :: bytes
  pr_workspace_directory :: bytes

definition or_default :: "bytes \<Rightarrow> bytes option \<Rightarrow> bytes" where
  "or_default d f = (case f of None \<Rightarrow> d | Some s \<Rightarrow> s)"

definition cubicle_parse_process_record :: "bytes \<Rightarrow> process_record option" where
  "cubicle_parse_process_record line =
     (let f = next_field (split_fields line) in
      if f 0 = None \<or> f 1 = None \<or> f 2 = None \<or> f 3 = None \<or> f 4 = None \<or> f 5 = None \<or> f 6 = None
      then None
      else Some
        \<lparr>pr_process_id = store 33 (the (f 0)), pr_workspace_id = store 33 (the (f 1)),
         pr_friendly_name = store 128 (the (f 2)), pr_mode = store 32 (the (f 3)),
         pr_state = store 32 (the (f 4)), pr_controller_id = store 33 (the (f 5)),
         pr_control_socket = store 4096 (the (f 6)), pr_cwd = store 4096 (or_default [] (f 7)),
         pr_argv_json = store 16384 (or_default [] (f 9)), pr_saved = (f 8 = Some ''1''),
         pr_restart = (f 10 = Some ''1''), pr_stdin_policy = store 32 (or_default ''open'' (f 11)),
         pr_workspace_name = store 128 (or_default [] (f 12)),
         pr_workspace_directory = store 4096 (or_default [] (f 13))\<rparr>)"

text \<open>What \<open>append_process_record\<close> and \<open>write_process_record\<close> print.\<close>

definition flag_text :: "bool \<Rightarrow> bytes" where
  "flag_text b = (if b then ''1'' else ''0'')"

definition process_line :: "process_record \<Rightarrow> bytes" where
  "process_line r =
     pr_process_id r @ [TAB] @ pr_workspace_id r @ [TAB] @ pr_friendly_name r @ [TAB] @ pr_mode r
     @ [TAB] @ pr_state r @ [TAB] @ pr_controller_id r @ [TAB] @ pr_control_socket r @ [TAB] @ pr_cwd r
     @ [TAB] @ flag_text (pr_saved r) @ [TAB] @ pr_argv_json r @ [TAB] @ flag_text (pr_restart r)
     @ [TAB] @ pr_stdin_policy r @ [TAB] @ pr_workspace_name r @ [TAB] @ pr_workspace_directory r @ [NL]"

record cursor_record =
  cr_process_id :: bytes
  cr_sequence :: int
  cr_offset :: int

definition cubicle_parse_cursor_record :: "bytes \<Rightarrow> cursor_record option" where
  "cubicle_parse_cursor_record line =
     (case tokens line of
        p # s # rest \<Rightarrow>
          Some \<lparr>cr_process_id = store 33 p, cr_sequence = atoll s,
                cr_offset = (case rest of [] \<Rightarrow> 0 | d # _ \<Rightarrow> atoll d)\<rparr>
      | _ \<Rightarrow> None)"

definition cursor_line :: "cursor_record \<Rightarrow> bytes" where
  "cursor_line r = cr_process_id r @ [TAB] @ show_int (cr_sequence r) @ [TAB] @ show_int (cr_offset r) @ [NL]"

text \<open>\<open>sscanf(line, "seq=%lld", ...)\<close>.\<close>

definition cubicle_parse_event_sequence :: "bytes \<Rightarrow> int option" where
  "cubicle_parse_event_sequence line =
     (if take 4 line = ''seq='' \<and> takeWhile is_digit (snd (sign_split (drop 4 line))) \<noteq> []
      then Some (atoll (drop 4 line)) else None)"

record key_record =
  kr_workspace_id :: bytes
  kr_key_id :: bytes
  kr_fingerprint :: bytes
  kr_label :: bytes
  kr_capabilities :: "64 word"
  kr_created_at_ms :: "64 word"
  kr_revoked_at_ms :: "64 word"
  kr_public_key_hex :: bytes

definition parse_workspace_key_record :: "bytes \<Rightarrow> key_record option" where
  "parse_workspace_key_record line =
     (let fs = split_fields line in
      if length line \<ge> 1024 \<or> length fs < 8 then None
      else
        let r = \<lparr>kr_workspace_id = store 33 (fs ! 0), kr_key_id = store 33 (fs ! 1),
                 kr_fingerprint = store 256 (fs ! 2), kr_label = store 128 (fs ! 3),
                 kr_capabilities = strtoull (fs ! 4), kr_created_at_ms = strtoull (fs ! 5),
                 kr_revoked_at_ms = strtoull (fs ! 6), kr_public_key_hex = store 512 (fs ! 7)\<rparr> in
        if kr_workspace_id r \<noteq> [] \<and> kr_key_id r \<noteq> [] then Some r else None)"

definition key_line :: "key_record \<Rightarrow> bytes" where
  "key_line r =
     kr_workspace_id r @ [TAB] @ kr_key_id r @ [TAB] @ kr_fingerprint r @ [TAB] @ kr_label r
     @ [TAB] @ show_nat (unat (kr_capabilities r)) @ [TAB] @ show_nat (unat (kr_created_at_ms r))
     @ [TAB] @ show_nat (unat (kr_revoked_at_ms r)) @ [TAB] @ kr_public_key_hex r @ [NL]"

record macro_record =
  mr_workspace_id :: bytes
  mr_ordinal :: "64 word"
  mr_name :: bytes
  mr_text :: bytes
  mr_target_pane :: "64 word"
  mr_target_process_name :: bytes
  mr_key_name :: bytes

text \<open>The fields of a macro end at the newline; at most seven are read.\<close>

definition macro_fields :: "bytes \<Rightarrow> bytes list" where
  "macro_fields line = take 7 (split_fields (takeWhile (\<lambda>c. c \<noteq> NL) line))"

definition parse_workspace_macro_record :: "bytes \<Rightarrow> macro_record option" where
  "parse_workspace_macro_record line =
     (let fs = macro_fields line in
      if length line \<ge> 1024 \<or> length fs \<notin> {6, 7} then None
      else
        let r = \<lparr>mr_workspace_id = store 33 (fs ! 0), mr_ordinal = strtoull (fs ! 1),
                 mr_name = store 64 (fs ! 2), mr_text = store 512 (fs ! 3),
                 mr_target_pane = strtoull (fs ! 4),
                 mr_target_process_name = (if length fs = 7 then store 256 (fs ! 5) else []),
                 mr_key_name = store 64 (if length fs = 7 then fs ! 6 else fs ! 5)\<rparr> in
        if mr_workspace_id r \<noteq> [] \<and> mr_ordinal r > 0 \<and> mr_name r \<noteq> [] then Some r else None)"

definition macro_line :: "macro_record \<Rightarrow> bytes" where
  "macro_line r =
     mr_workspace_id r @ [TAB] @ show_nat (unat (mr_ordinal r)) @ [TAB] @ mr_name r @ [TAB] @ mr_text r
     @ [TAB] @ show_nat (unat (mr_target_pane r)) @ [TAB] @ mr_target_process_name r
     @ [TAB] @ mr_key_name r @ [NL]"

section \<open>Files of records\<close>

text \<open>One call of \<open>fgets\<close> with a buffer of \<open>n\<close> bytes, and all of them.\<close>

definition fgets :: "nat \<Rightarrow> bytes \<Rightarrow> bytes" where
  "fgets n s =
     (let l = takeWhile (\<lambda>c. c \<noteq> NL) s in
      if length l \<ge> n - 1 then take (n - 1) s else if NL \<in> set s then l @ [NL] else l)"

function fgets_lines :: "nat \<Rightarrow> bytes \<Rightarrow> bytes list" where
  "fgets_lines n s =
     (if s = [] \<or> n \<le> 1 then [] else fgets n s # fgets_lines n (drop (length (fgets n s)) s))"
  by pat_completeness auto
termination
proof (relation "measure (\<lambda>(n, s). length s)")
  fix n and s :: bytes
  assume a: "\<not> (s = [] \<or> n \<le> (1 :: nat))"
  have "fgets n s \<noteq> []"
  proof (cases "takeWhile (\<lambda>c. c \<noteq> NL) s = []")
    case True
    then have "NL \<in> set s" using a by (cases s) (auto split: if_splits)
    then show ?thesis using a True by (simp add: fgets_def Let_def)
  next
    case False
    then show ?thesis using a by (simp add: fgets_def Let_def)
  qed
  then show "((n, drop (length (fgets n s)) s), n, s) \<in> measure (\<lambda>(n, s). length s)"
    using a by simp
qed simp

declare fgets_lines.simps [simp del]

definition file_records :: "(bytes \<Rightarrow> 'r option) \<Rightarrow> nat \<Rightarrow> bytes \<Rightarrow> 'r list" where
  "file_records parse n content = List.map_filter (\<lambda>l. parse (cstr l)) (fgets_lines n content)"

lemma fgets_line:
  assumes "NL \<notin> set b" "length b + 1 < n"
  shows "fgets n (b @ NL # r) = b @ [NL]"
proof -
  have "takeWhile (\<lambda>c. c \<noteq> NL) (b @ NL # r) = b"
    using assms(1) by (induction b) auto
  then show ?thesis using assms(2) by (simp add: fgets_def)
qed

lemma fgets_lines_line:
  assumes "NL \<notin> set b" "length b + 1 < n"
  shows "fgets_lines n (b @ NL # r) = (b @ [NL]) # fgets_lines n r"
  using assms fgets_line [OF assms, of r] by (subst fgets_lines.simps) auto

lemma file_records_line:
  assumes "NL \<notin> set b" "is_cstr b" "length b + 1 < n"
  shows "file_records parse n (b @ NL # r) =
    (case parse (b @ [NL]) of None \<Rightarrow> [] | Some x \<Rightarrow> [x]) @ file_records parse n r"
proof -
  have "cstr (b @ [NL]) = b @ [NL]" using assms(2) by (simp add: cstr_id)
  then show ?thesis
    using fgets_lines_line [OF assms(1,3), of r]
    by (simp add: file_records_def List.map_filter_simps split: option.split)
qed

locale record_file =
  fixes parse :: "bytes \<Rightarrow> 'r option" and line :: "'r \<Rightarrow> bytes" and ok :: "'r \<Rightarrow> bool" and n :: nat
  assumes parse_line: "ok r \<Longrightarrow> parse (line r) = Some r"
    and line_shape: "ok r \<Longrightarrow> \<exists>b. line r = b @ [NL] \<and> NL \<notin> set b \<and> is_cstr b \<and> length b + 1 < n"
begin

lemma file_records_Cons:
  assumes "ok r"
  shows "file_records parse n (line r @ content) = r # file_records parse n content"
proof -
  obtain b where b: "line r = b @ [NL]" "NL \<notin> set b" "is_cstr b" "length b + 1 < n"
    using line_shape [OF assms] by blast
  have "cstr (b @ [NL]) = b @ [NL]" using b(3) by (simp add: cstr_id)
  then show ?thesis
    using parse_line [OF assms] fgets_lines_line [OF b(2,4), of content] b(1)
    by (simp add: file_records_def List.map_filter_simps)
qed

lemma file_records_lines: "list_all ok rs \<Longrightarrow> file_records parse n (concat (map line rs)) = rs"
proof (induction rs)
  case Nil
  then show ?case by (simp add: file_records_def fgets_lines.simps List.map_filter_simps)
next
  case (Cons r rs)
  then show ?case using file_records_Cons [of r] by simp
qed

lemma file_records_prefix:
  "list_all ok rs \<Longrightarrow> file_records parse n (concat (map line rs) @ content) = rs @ file_records parse n content"
proof (induction rs)
  case (Cons r rs)
  then show ?case using file_records_Cons [of r] by simp
qed simp

lemma file_records_append:
  "list_all ok rs \<Longrightarrow> ok r \<Longrightarrow> file_records parse n (concat (map line rs) @ line r) = rs @ [r]"
  using file_records_lines [of "rs @ [r]"] by simp

end

section \<open>Printing and parsing\<close>

definition plain_field :: "bytes \<Rightarrow> bool" where
  "plain_field s \<longleftrightarrow> (\<forall>c \<in> set s. \<not> is_sep c \<and> c \<noteq> NUL)"

definition field_ok :: "nat \<Rightarrow> bytes \<Rightarrow> bool" where
  "field_ok n s \<longleftrightarrow> length s < n \<and> plain_field s"

lemma split_fields_sep:
  assumes "plain_field f" "is_sep c"
  shows "split_fields (f @ c # r) = f # split_fields r"
proof -
  have "\<forall>c \<in> set f. \<not> is_sep c" using assms(1) by (simp add: plain_field_def)
  then show ?thesis using assms(2) by (induction f) simp_all
qed

lemma is_sep_simps [simp]: "is_sep TAB" "is_sep NL"
  by (simp_all add: is_sep_def)

lemma store_id: "field_ok n s \<Longrightarrow> store n s = s"
proof -
  assume "field_ok n s"
  then have "length s \<le> n - 1" unfolding field_ok_def by linarith
  then show ?thesis by (simp add: store_def)
qed

lemma plain_field_cstr: "plain_field s \<Longrightarrow> is_cstr s"
  unfolding plain_field_def is_cstr_def by blast

lemma plain_field_NL: "plain_field s \<Longrightarrow> NL \<notin> set s"
  unfolding plain_field_def using is_sep_simps(2) by blast

lemma digits_not_sep: "is_digit c \<Longrightarrow> \<not> is_sep c \<and> c \<noteq> NUL \<and> \<not> isspace c \<and> c \<noteq> CHR ''-'' \<and> c \<noteq> CHR ''+''"
  unfolding is_digit_def is_sep_def isspace_def by (intro conjI notI) auto

lemma plain_field_show_nat [simp]: "plain_field (show_nat k)"
  unfolding plain_field_def using show_nat_digits digits_not_sep by blast

lemma plain_field_flag [simp]: "plain_field (flag_text b)"
  by (simp add: plain_field_def flag_text_def is_sep_def)

lemma takeWhile_digits: "takeWhile is_digit (show_nat k) = show_nat k"
  by (simp add: takeWhile_eq_all_conv show_nat_digits)

lemma sign_split_show_nat: "sign_split (show_nat k) = (False, show_nat k)"
proof -
  obtain c cs where s: "show_nat k = c # cs" by (cases "show_nat k") auto
  then have "is_digit c" using show_nat_digits [of c k] by simp
  then show ?thesis using s digits_not_sep [of c] by (simp add: sign_split_def)
qed

lemma strtoull_show_nat: "strtoull (show_nat (unat w)) = w"
proof -
  have "unat w < 2 ^ 64" by (rule order_less_le_trans [OF unsigned_less]) simp
  then show ?thesis by (simp add: strtoull_def sign_split_show_nat takeWhile_digits)
qed

lemma atoll_show_int: "- (2 ^ 63) \<le> i \<Longrightarrow> i < 2 ^ 63 \<Longrightarrow> atoll (show_int i) = i"
proof -
  assume i: "- (2 ^ 63) \<le> i" "i < 2 ^ 63"
  have "sign_split (CHR ''-'' # s) = (True, s)" for s by (simp add: sign_split_def isspace_def)
  then show ?thesis using i
    by (simp add: atoll_def show_int_def sign_split_show_nat takeWhile_digits)
qed

lemma length_show_u64: "length (show_nat (unat (w :: 64 word))) \<le> 20"
proof -
  have "unat w < 2 ^ 64" by (rule order_less_le_trans [OF unsigned_less]) simp
  then have "unat w < 10 ^ 20" by simp
  then show ?thesis by (rule length_show_nat_le) simp
qed

definition process_ok :: "process_record \<Rightarrow> bool" where
  "process_ok r \<longleftrightarrow>
     field_ok 33 (pr_process_id r) \<and> field_ok 33 (pr_workspace_id r) \<and> field_ok 128 (pr_friendly_name r)
     \<and> field_ok 32 (pr_mode r) \<and> field_ok 32 (pr_state r) \<and> field_ok 33 (pr_controller_id r)
     \<and> field_ok 4096 (pr_control_socket r) \<and> field_ok 4096 (pr_cwd r) \<and> field_ok 16384 (pr_argv_json r)
     \<and> field_ok 32 (pr_stdin_policy r) \<and> field_ok 128 (pr_workspace_name r)
     \<and> field_ok 4096 (pr_workspace_directory r) \<and> length (process_line r) < 21504"

definition workspace_ok :: "workspace_record \<Rightarrow> bool" where
  "workspace_ok r \<longleftrightarrow>
     field_ok 33 (ws_id r) \<and> ws_id r \<noteq> [] \<and> field_ok 128 (ws_name r) \<and> ws_name r \<noteq> []
     \<and> field_ok 4096 (ws_directory r) \<and> length (workspace_line r) < 512"

definition cursor_ok :: "cursor_record \<Rightarrow> bool" where
  "cursor_ok r \<longleftrightarrow> field_ok 33 (cr_process_id r) \<and> cr_process_id r \<noteq> []
     \<and> - (2 ^ 63) \<le> cr_sequence r \<and> cr_sequence r < 2 ^ 63
     \<and> - (2 ^ 63) \<le> cr_offset r \<and> cr_offset r < 2 ^ 63"

definition key_ok :: "key_record \<Rightarrow> bool" where
  "key_ok r \<longleftrightarrow>
     field_ok 33 (kr_workspace_id r) \<and> kr_workspace_id r \<noteq> [] \<and> field_ok 33 (kr_key_id r)
     \<and> kr_key_id r \<noteq> [] \<and> field_ok 256 (kr_fingerprint r) \<and> field_ok 128 (kr_label r)
     \<and> field_ok 512 (kr_public_key_hex r) \<and> length (key_line r) < 1024"

definition macro_ok :: "macro_record \<Rightarrow> bool" where
  "macro_ok r \<longleftrightarrow>
     field_ok 33 (mr_workspace_id r) \<and> mr_workspace_id r \<noteq> [] \<and> mr_ordinal r > 0
     \<and> field_ok 64 (mr_name r) \<and> mr_name r \<noteq> [] \<and> field_ok 512 (mr_text r)
     \<and> field_ok 256 (mr_target_process_name r) \<and> field_ok 64 (mr_key_name r)
     \<and> length (macro_line r) < 1024"

lemmas field_facts = field_ok_def plain_field_cstr plain_field_NL split_fields_sep

interpretation processes: record_file cubicle_parse_process_record process_line process_ok 21504
proof
  fix r
  assume ok: "process_ok r"
  then have "split_fields (process_line r) =
    [pr_process_id r, pr_workspace_id r, pr_friendly_name r, pr_mode r, pr_state r, pr_controller_id r,
     pr_control_socket r, pr_cwd r, flag_text (pr_saved r), pr_argv_json r, flag_text (pr_restart r),
     pr_stdin_policy r, pr_workspace_name r, pr_workspace_directory r, []]"
    by (simp add: process_line_def process_ok_def field_facts)
  then show "cubicle_parse_process_record (process_line r) = Some r"
    using ok by (simp add: cubicle_parse_process_record_def next_field_def or_default_def process_ok_def
        store_id flag_text_def)
  show "\<exists>b. process_line r = b @ [NL] \<and> NL \<notin> set b \<and> is_cstr b \<and> length b + 1 < 21504"
    using ok by (intro exI [of _ "butlast (process_line r)"])
      (simp add: process_line_def process_ok_def field_facts butlast_append)
qed

lemma tokens_split: "split_fields s = fs \<Longrightarrow> tokens s = filter (\<lambda>f. f \<noteq> []) fs"
  by (simp add: tokens_def)

interpretation workspaces: record_file cubicle_parse_workspace_record workspace_line workspace_ok 512
proof
  fix r
  assume ok: "workspace_ok r"
  then have "split_fields (workspace_line r) = [ws_id r, ws_name r, ws_directory r, []]"
    by (simp add: workspace_line_def workspace_ok_def field_facts)
  from tokens_split [OF this] show "cubicle_parse_workspace_record (workspace_line r) = Some r"
    using ok by (cases "ws_directory r = []")
      (simp_all add: cubicle_parse_workspace_record_def workspace_ok_def store_id)
  show "\<exists>b. workspace_line r = b @ [NL] \<and> NL \<notin> set b \<and> is_cstr b \<and> length b + 1 < 512"
    using ok by (intro exI [of _ "butlast (workspace_line r)"])
      (simp add: workspace_line_def workspace_ok_def field_facts butlast_append)
qed

lemma plain_field_show_int [simp]: "plain_field (show_int i)"
proof -
  have "plain_field (CHR ''-'' # show_nat k)" for k
    using plain_field_show_nat [of k] by (simp add: plain_field_def is_sep_def)
  then show ?thesis by (simp add: show_int_def)
qed

lemma length_show_int64: "- (2 ^ 63) \<le> i \<Longrightarrow> i < 2 ^ 63 \<Longrightarrow> length (show_int i) \<le> 20"
proof -
  assume "- (2 ^ 63) \<le> i" "i < 2 ^ 63"
  then have "nat \<bar>i\<bar> < 10 ^ 19" by simp
  then show ?thesis using length_show_nat_le [of "nat \<bar>i\<bar>" 19] by (auto simp: show_int_def)
qed

interpretation cursors: record_file cubicle_parse_cursor_record cursor_line cursor_ok 256
proof
  fix r
  assume ok: "cursor_ok r"
  then have "split_fields (cursor_line r) = [cr_process_id r, show_int (cr_sequence r), show_int (cr_offset r), []]"
    by (simp add: cursor_line_def cursor_ok_def field_facts)
  moreover have "show_int i \<noteq> []" for i by (simp add: show_int_def)
  ultimately show "cubicle_parse_cursor_record (cursor_line r) = Some r"
    using ok by (simp add: tokens_split cubicle_parse_cursor_record_def cursor_ok_def store_id atoll_show_int)
  show "\<exists>b. cursor_line r = b @ [NL] \<and> NL \<notin> set b \<and> is_cstr b \<and> length b + 1 < 256"
    using ok length_show_int64 [of "cr_sequence r"] length_show_int64 [of "cr_offset r"]
    by (intro exI [of _ "butlast (cursor_line r)"])
      (simp add: cursor_line_def cursor_ok_def field_facts butlast_append)
qed

interpretation keys: record_file parse_workspace_key_record key_line key_ok 1024
proof
  fix r
  assume ok: "key_ok r"
  then have "split_fields (key_line r) =
    [kr_workspace_id r, kr_key_id r, kr_fingerprint r, kr_label r, show_nat (unat (kr_capabilities r)),
     show_nat (unat (kr_created_at_ms r)), show_nat (unat (kr_revoked_at_ms r)), kr_public_key_hex r, []]"
    by (simp add: key_line_def key_ok_def field_facts)
  then show "parse_workspace_key_record (key_line r) = Some r"
    using ok by (simp add: parse_workspace_key_record_def key_ok_def store_id strtoull_show_nat)
  show "\<exists>b. key_line r = b @ [NL] \<and> NL \<notin> set b \<and> is_cstr b \<and> length b + 1 < 1024"
    using ok by (intro exI [of _ "butlast (key_line r)"])
      (simp add: key_line_def key_ok_def field_facts butlast_append)
qed

lemma split_fields_plain: "plain_field f \<Longrightarrow> split_fields f = [f]"
  by (induction f) (auto simp: plain_field_def)

interpretation macros: record_file parse_workspace_macro_record macro_line macro_ok 1024
proof
  fix r
  assume ok: "macro_ok r"
  define b where "b = butlast (macro_line r)"
  have b: "macro_line r = b @ [NL]" by (simp add: b_def macro_line_def butlast_append)
  have nl: "NL \<notin> set b"
    using ok by (simp add: b_def macro_line_def macro_ok_def field_facts butlast_append)
  have "split_fields b = [mr_workspace_id r, show_nat (unat (mr_ordinal r)), mr_name r, mr_text r,
    show_nat (unat (mr_target_pane r)), mr_target_process_name r, mr_key_name r]"
    using ok by (simp add: b_def macro_line_def macro_ok_def field_facts butlast_append split_fields_plain)
  moreover have "takeWhile (\<lambda>c. c \<noteq> NL) (b @ [NL]) = b"
    using nl by (induction b) auto
  ultimately have "macro_fields (macro_line r) = [mr_workspace_id r, show_nat (unat (mr_ordinal r)), mr_name r,
    mr_text r, show_nat (unat (mr_target_pane r)), mr_target_process_name r, mr_key_name r]"
    by (simp add: macro_fields_def b)
  then show "parse_workspace_macro_record (macro_line r) = Some r"
    using ok by (simp add: parse_workspace_macro_record_def macro_ok_def store_id strtoull_show_nat)
  show "\<exists>b. macro_line r = b @ [NL] \<and> NL \<notin> set b \<and> is_cstr b \<and> length b + 1 < 1024"
    using ok b nl by (intro exI [of _ b]) (simp add: b_def macro_line_def macro_ok_def field_facts butlast_append)
qed

end
