(* ===== verification/Io.thy ===== *)
theory Io
  imports Cubicle_Prelude
begin

text \<open>
  Writing to descriptors: \<open>cubicle_write_all\<close> of \<open>src/src/common/util.c\<close>,
  \<open>write_best_effort\<close> of \<open>src/src/controller/io.c\<close> and the random identifiers of
  \<open>cubicle_generate_hex_id\<close>. What the kernel answers to the calls of one operation is a list
  of outcomes; past its end every call succeeds completely.
\<close>

section \<open>Writing\<close>

datatype write_outcome =
    WError errno
  | WShort nat

text \<open>The bytes that reached the descriptor, the result, and the outcomes left over.\<close>

fun cubicle_write_all :: "write_outcome list \<Rightarrow> bytes \<Rightarrow> bytes \<times> unit result \<times> write_outcome list" where
  "cubicle_write_all ws [] = ([], Inr (), ws)"
| "cubicle_write_all [] buffer = (buffer, Inr (), [])"
| "cubicle_write_all (WError e # ws) buffer =
     (if e = EINTR then cubicle_write_all ws buffer else ([], Inl e, ws))"
| "cubicle_write_all (WShort n # ws) buffer =
     (let (written, r, ws') = cubicle_write_all ws (drop n buffer) in
      (take n buffer @ written, r, ws'))"

text \<open>\<open>EWOULDBLOCK\<close> is \<open>EAGAIN\<close>; the loop is the same.\<close>

definition write_best_effort :: "write_outcome list \<Rightarrow> bytes \<Rightarrow> bytes \<times> unit result \<times> write_outcome list" where
  "write_best_effort ws buffer = cubicle_write_all ws buffer"

lemma write_all_cases:
  assumes "cubicle_write_all ws buffer = (written, r, ws')"
  shows "\<exists>rest. buffer = written @ rest \<and> (r = Inr () \<longleftrightarrow> rest = []) \<and>
    (\<forall>e. r = Inl e \<longrightarrow> e \<noteq> EINTR \<and> WError e \<in> set ws)"
  using assms
proof (induction ws buffer arbitrary: written rule: cubicle_write_all.induct)
  case (3 e ws v va)
  then show ?case by (auto split: if_splits)
next
  case (4 n ws v va)
  obtain w where w: "cubicle_write_all ws (drop n (v # va)) = (w, r, ws')" "written = take n (v # va) @ w"
    using "4.prems" by (auto split: prod.splits)
  from "4.IH" [OF w(1)] obtain rest where "drop n (v # va) = w @ rest" "r = Inr () \<longleftrightarrow> rest = []"
    "\<forall>e. r = Inl e \<longrightarrow> e \<noteq> EINTR \<and> WError e \<in> set ws" by blast
  then show ?case
    using w(2) append_take_drop_id [of n "v # va"] by (intro exI [of _ rest]) (auto simp del: append_take_drop_id)
qed auto

section \<open>Random identifiers\<close>

datatype read_outcome =
    RError errno
  | REof
  | RData bytes

text \<open>Sixteen bytes are collected; a read never returns more than was asked for.\<close>

fun read_random :: "read_outcome list \<Rightarrow> bytes \<Rightarrow> bytes result option" where
  "read_random [] got = (if length got \<ge> 16 then Some (Inr got) else None)"
| "read_random (out # rs) got =
     (if length got \<ge> 16 then Some (Inr got)
      else case out of
        RError e \<Rightarrow> if e = EINTR then read_random rs got else Some (Inl e)
      | REof \<Rightarrow> Some (Inl EIO)
      | RData d \<Rightarrow> read_random rs (got @ take (16 - length got) d))"

text \<open>\<open>None\<close> when the outcomes end before sixteen bytes arrived.\<close>

definition cubicle_generate_hex_id :: "errno option \<Rightarrow> read_outcome list \<Rightarrow> nat \<Rightarrow> bytes result option" where
  "cubicle_generate_hex_id open_error rs id_size =
     (if id_size \<noteq> 33 then Some (Inl EINVAL)
      else case open_error of
        Some e \<Rightarrow> Some (Inl e)
      | None \<Rightarrow>
          (case read_random rs [] of
             None \<Rightarrow> None
           | Some (Inl e) \<Rightarrow> Some (Inl e)
           | Some (Inr bs) \<Rightarrow> Some (Inr (concat (map hex2 bs)))))"

lemma read_random_length:
  "length got \<le> 16 \<Longrightarrow> read_random rs got = Some (Inr bs) \<Longrightarrow> length bs = 16"
  by (induction rs got rule: read_random.induct) (auto split: read_outcome.splits if_splits)

text \<open>C27. (\<open>cubicle_write_all\<close>, \<open>write_best_effort\<close>.) What reaches the descriptor is a prefix of the buffer;
  the call succeeds exactly when it is the whole buffer, and it fails only with an error the
  kernel reported, never with an interruption.\<close>

theorem write_all_prefix:
  "\<exists>written r ws' rest. cubicle_write_all ws buffer = (written, r, ws') \<and> write_best_effort ws buffer = (written, r, ws')
    \<and> buffer = written @ rest \<and> (r = Inr () \<longleftrightarrow> rest = [])
    \<and> r \<noteq> Inl EINTR \<and> r \<in> insert (Inr ()) (Inl ` {e. WError e \<in> set ws})"
proof -
  obtain written r ws' where w: "cubicle_write_all ws buffer = (written, r, ws')" by (metis prod_cases3)
  obtain rest where "buffer = written @ rest" "r = Inr () \<longleftrightarrow> rest = []"
    "\<forall>e. r = Inl e \<longrightarrow> e \<noteq> EINTR \<and> WError e \<in> set ws"
    using write_all_cases [OF w] by blast
  then show ?thesis using w by (cases r) (auto simp: write_best_effort_def)
qed

end
