(* ===== verification/Rpc_Envelope.thy ===== *)
theory Rpc_Envelope
  imports Json_Reader
begin

text \<open>
  The RPC envelopes of \<open>src/src/common/rpc.c\<close> (from line 543) and the error codes of
  \<open>src/src/client/error.c\<close>: what a peer writes as a request, a result or an error, and what
  the other side accepts. \<open>rd\<close> is the JSON reader and \<open>wr\<close> the JSON writer of the vendored
  library.
\<close>

section \<open>Error codes\<close>

datatype cubicle_error_code =
    CUBICLE_OK | CUBICLE_ERR_INVALID_ARGUMENT | CUBICLE_ERR_NOT_FOUND
  | CUBICLE_ERR_ALREADY_EXISTS | CUBICLE_ERR_AMBIGUOUS_NAME | CUBICLE_ERR_PERMISSION_DENIED
  | CUBICLE_ERR_AUTHENTICATION_FAILED | CUBICLE_ERR_SESSION_EXPIRED | CUBICLE_ERR_UNSUPPORTED
  | CUBICLE_ERR_INVALID_STATE | CUBICLE_ERR_CONFLICT | CUBICLE_ERR_TIMEOUT
  | CUBICLE_ERR_MANAGER_UNAVAILABLE | CUBICLE_ERR_CONTROLLER_UNAVAILABLE
  | CUBICLE_ERR_PROTOCOL | CUBICLE_ERR_IO | CUBICLE_ERR_RESOURCE_LIMIT | CUBICLE_ERR_INTERNAL

fun cubicle_error_code_name :: "cubicle_error_code \<Rightarrow> bytes" where
  "cubicle_error_code_name CUBICLE_OK = ''ok''"
| "cubicle_error_code_name CUBICLE_ERR_INVALID_ARGUMENT = ''invalid_argument''"
| "cubicle_error_code_name CUBICLE_ERR_NOT_FOUND = ''not_found''"
| "cubicle_error_code_name CUBICLE_ERR_ALREADY_EXISTS = ''already_exists''"
| "cubicle_error_code_name CUBICLE_ERR_AMBIGUOUS_NAME = ''ambiguous_name''"
| "cubicle_error_code_name CUBICLE_ERR_PERMISSION_DENIED = ''permission_denied''"
| "cubicle_error_code_name CUBICLE_ERR_AUTHENTICATION_FAILED = ''authentication_failed''"
| "cubicle_error_code_name CUBICLE_ERR_SESSION_EXPIRED = ''session_expired''"
| "cubicle_error_code_name CUBICLE_ERR_UNSUPPORTED = ''unsupported''"
| "cubicle_error_code_name CUBICLE_ERR_INVALID_STATE = ''invalid_state''"
| "cubicle_error_code_name CUBICLE_ERR_CONFLICT = ''conflict''"
| "cubicle_error_code_name CUBICLE_ERR_TIMEOUT = ''timeout''"
| "cubicle_error_code_name CUBICLE_ERR_MANAGER_UNAVAILABLE = ''manager_unavailable''"
| "cubicle_error_code_name CUBICLE_ERR_CONTROLLER_UNAVAILABLE = ''controller_unavailable''"
| "cubicle_error_code_name CUBICLE_ERR_PROTOCOL = ''protocol''"
| "cubicle_error_code_name CUBICLE_ERR_IO = ''io''"
| "cubicle_error_code_name CUBICLE_ERR_RESOURCE_LIMIT = ''resource_limit''"
| "cubicle_error_code_name CUBICLE_ERR_INTERNAL = ''internal''"

text \<open>The codes in the order of their numbers.\<close>

definition cubicle_error_codes :: "cubicle_error_code list" where
  "cubicle_error_codes =
     [CUBICLE_OK, CUBICLE_ERR_INVALID_ARGUMENT, CUBICLE_ERR_NOT_FOUND,
      CUBICLE_ERR_ALREADY_EXISTS, CUBICLE_ERR_AMBIGUOUS_NAME, CUBICLE_ERR_PERMISSION_DENIED,
      CUBICLE_ERR_AUTHENTICATION_FAILED, CUBICLE_ERR_SESSION_EXPIRED, CUBICLE_ERR_UNSUPPORTED,
      CUBICLE_ERR_INVALID_STATE, CUBICLE_ERR_CONFLICT, CUBICLE_ERR_TIMEOUT,
      CUBICLE_ERR_MANAGER_UNAVAILABLE, CUBICLE_ERR_CONTROLLER_UNAVAILABLE,
      CUBICLE_ERR_PROTOCOL, CUBICLE_ERR_IO, CUBICLE_ERR_RESOURCE_LIMIT, CUBICLE_ERR_INTERNAL]"

definition rpc_error_code_from_name :: "bytes \<Rightarrow> cubicle_error_code" where
  "rpc_error_code_from_name name =
     (case find (\<lambda>code. cubicle_error_code_name code = name) cubicle_error_codes of
        Some code \<Rightarrow> code
      | None \<Rightarrow> CUBICLE_ERR_PROTOCOL)"

record cubicle_error =
  err_code :: cubicle_error_code
  err_system_errno :: int
  err_retryable :: bool
  err_message :: bytes

text \<open>The value of \<open>errno\<close> where the code returns -1 without setting it.\<close>

definition errno_unset :: errno where
  "errno_unset = OtherErrno 0"

section \<open>Fields of an envelope\<close>

definition CUBICLE_PROTOCOL_MAJOR :: "32 word" where
  "CUBICLE_PROTOCOL_MAJOR = 0"
definition CUBICLE_PROTOCOL_MINOR :: "32 word" where
  "CUBICLE_PROTOCOL_MINOR = 1"

definition json_fragment_valid :: "(bytes \<Rightarrow> json option) \<Rightarrow> bytes \<Rightarrow> unit result" where
  "json_fragment_valid rd text = rbind (cubicle_json_parse rd (Some text)) (\<lambda>_. Inr ())"

definition field_allowed :: "bytes \<Rightarrow> bytes list \<Rightarrow> bool" where
  "field_allowed field allowed \<longleftrightarrow> field \<in> set allowed"

text \<open>The keys are compared as C strings, up to their first NUL.\<close>

fun top_level_fields_loop :: "bytes list \<Rightarrow> (bytes \<times> json) list \<Rightarrow> unit result" where
  "top_level_fields_loop allowed [] = Inr ()"
| "top_level_fields_loop allowed ((key, v) # members) =
     (if \<not> field_allowed (cstr key) allowed then Inl EINVAL
      else if cstr key = ''extensions'' \<and> \<not> is_obj v then Inl EINVAL
      else top_level_fields_loop allowed members)"

definition validate_top_level_fields :: "json \<Rightarrow> bytes list \<Rightarrow> unit result" where
  "validate_top_level_fields obj allowed =
     (case obj of JObj members \<Rightarrow> top_level_fields_loop allowed members | _ \<Rightarrow> Inl EINVAL)"

definition get_required_u32 :: "json \<Rightarrow> bytes \<Rightarrow> 32 word result" where
  "get_required_u32 obj field =
     (case cubicle_json_get_u64 obj field of
        Inl _ \<Rightarrow> Inl EINVAL
      | Inr v \<Rightarrow> if unat v > 2 ^ 32 - 1 then Inl EINVAL else Inr (ucast v))"

section \<open>Requests\<close>

record request_envelope =
  req_protocol_major :: "32 word"
  req_protocol_minor :: "32 word"
  req_request_id :: bytes
  req_session_id :: bytes
  req_method :: bytes
  req_params :: json

definition request_fields :: "bytes list" where
  "request_fields =
     [''protocol_major'', ''protocol_minor'', ''request_id'', ''session_id'', ''method'',
      ''params'', ''extensions'']"

definition cubicle_rpc_decode_request ::
    "(bytes \<Rightarrow> json option) \<Rightarrow> bytes option \<Rightarrow> request_envelope result" where
  "cubicle_rpc_decode_request rd text =
     (case cubicle_json_parse rd text of
        Inl _ \<Rightarrow> Inl EINVAL
      | Inr root \<Rightarrow>
          if \<not> is_obj root then Inl EINVAL
          else
            rbind (validate_top_level_fields root request_fields) (\<lambda>_.
            rbind (get_required_u32 root ''protocol_major'') (\<lambda>major.
            rbind (get_required_u32 root ''protocol_minor'') (\<lambda>minor.
            rbind (cubicle_json_get_string root ''request_id'' 64) (\<lambda>rid.
            rbind (cubicle_json_get_string root ''method'' 128) (\<lambda>meth.
              let sid = (case cubicle_json_get_string root ''session_id'' 64 of
                           Inl _ \<Rightarrow> [] | Inr s \<Rightarrow> s) in
              if major \<noteq> CUBICLE_PROTOCOL_MAJOR \<or> minor > CUBICLE_PROTOCOL_MINOR \<or> rid = []
                \<or> meth = [] \<or> length meth > CUBICLE_JSON_MAX_METHOD_BYTES
              then Inl EINVAL
              else rbind (cubicle_json_get_object root ''params'') (\<lambda>p.
                Inr \<lparr>req_protocol_major = major, req_protocol_minor = minor, req_request_id = rid,
                     req_session_id = sid, req_method = meth, req_params = p\<rparr>)))))))"

definition request_prefix :: bytes where
  "request_prefix = ''{\"protocol_major\":0,\"protocol_minor\":1,\"request_id\":''"

definition cubicle_rpc_request ::
    "(bytes \<Rightarrow> json option) \<Rightarrow> nat \<Rightarrow> bytes \<Rightarrow> bytes option \<Rightarrow> bytes \<Rightarrow> bytes \<Rightarrow> bytes result" where
  "cubicle_rpc_request rd buffer_size rid sid meth params_json =
     (if buffer_size = 0 then Inl EINVAL
      else rbind (json_fragment_valid rd params_json) (\<lambda>_.
        rbind (append_raw buffer_size [] request_prefix) (\<lambda>u1.
        rbind (append_json_string buffer_size u1 rid) (\<lambda>u2.
        rbind (append_raw buffer_size u2 '',\"session_id\":'') (\<lambda>u3.
        rbind (append_json_string buffer_size u3 (case sid of None \<Rightarrow> [] | Some s \<Rightarrow> s)) (\<lambda>u4.
        rbind (append_raw buffer_size u4 '',\"method\":'') (\<lambda>u5.
        rbind (append_json_string buffer_size u5 meth) (\<lambda>u6.
        rbind (append_raw buffer_size u6 '',\"params\":'') (\<lambda>u7.
        rbind (append_raw buffer_size u7 params_json) (\<lambda>u8.
        append_raw buffer_size u8 ''}''))))))))))"

section \<open>Responses\<close>

record response_envelope =
  resp_request_id :: bytes
  resp_success :: bool
  resp_result :: "json option"
  resp_error :: "json option"

definition response_fields :: "bytes list" where
  "response_fields = [''request_id'', ''success'', ''result'', ''error'', ''extensions'']"

definition to_option :: "'a result \<Rightarrow> 'a option" where
  "to_option r = (case r of Inl _ \<Rightarrow> None | Inr x \<Rightarrow> Some x)"

definition cubicle_rpc_decode_response ::
    "(bytes \<Rightarrow> json option) \<Rightarrow> bytes option \<Rightarrow> bytes \<Rightarrow> response_envelope result" where
  "cubicle_rpc_decode_response rd text expected_request_id =
     (case cubicle_json_parse rd text of
        Inl _ \<Rightarrow> Inl EINVAL
      | Inr root \<Rightarrow>
          if \<not> is_obj root then Inl EINVAL
          else
            rbind (validate_top_level_fields root response_fields) (\<lambda>_.
            rbind (cubicle_json_get_string root ''request_id'' 64) (\<lambda>rid.
            rbind (cubicle_json_get_bool root ''success'') (\<lambda>ok.
              if rid \<noteq> expected_request_id then Inl errno_unset
              else
                let result = to_option (cubicle_json_object_get root ''result'');
                    error = to_option (cubicle_json_get_object root ''error'') in
                if ok \<and> (result = None \<or> error \<noteq> None) then Inl EINVAL
                else if \<not> ok \<and> (error = None \<or> result \<noteq> None) then Inl EINVAL
                else Inr \<lparr>resp_request_id = rid, resp_success = ok, resp_result = result,
                          resp_error = error\<rparr>))))"

definition cubicle_rpc_success ::
    "(bytes \<Rightarrow> json option) \<Rightarrow> nat \<Rightarrow> bytes \<Rightarrow> bytes \<Rightarrow> bytes result" where
  "cubicle_rpc_success rd buffer_size rid result_json =
     (if buffer_size = 0 then Inl EINVAL
      else rbind (json_fragment_valid rd result_json) (\<lambda>_.
        rbind (append_raw buffer_size [] ''{\"request_id\":'') (\<lambda>u1.
        rbind (append_json_string buffer_size u1 rid) (\<lambda>u2.
        rbind (append_raw buffer_size u2 '',\"success\":true,\"result\":'') (\<lambda>u3.
        rbind (append_raw buffer_size u3 result_json) (\<lambda>u4.
        append_raw buffer_size u4 ''}''))))))"

text \<open>The request id is printed as it is; only the message is escaped.\<close>

definition rpc_error_text :: "bytes \<Rightarrow> cubicle_error_code \<Rightarrow> bytes \<Rightarrow> bool \<Rightarrow> int \<Rightarrow> bytes" where
  "rpc_error_text rid code escaped_message retry sys =
     ''{\"request_id\":\"'' @ rid @ ''\",\"success\":false,\"error\":{\"code\":\"''
     @ cubicle_error_code_name code @ ''\",\"message\":\"'' @ escaped_message
     @ ''\",\"retryable\":'' @ (if retry then ''true'' else ''false'')
     @ '',\"system_errno\":'' @ show_int sys @ ''}}''"

definition cubicle_rpc_error ::
    "nat \<Rightarrow> bytes \<Rightarrow> cubicle_error_code \<Rightarrow> bytes \<Rightarrow> bool \<Rightarrow> int \<Rightarrow> bytes result" where
  "cubicle_rpc_error buffer_size rid code msg retry sys =
     (if buffer_size = 0 then Inl EINVAL
      else rbind (cubicle_json_escape 512 (Some msg)) (\<lambda>escaped_message.
        let text = rpc_error_text rid code escaped_message retry sys in
        if length text \<ge> buffer_size then Inl ENOSPC else Inr text))"

section \<open>Reading single fields of a text\<close>

definition cubicle_rpc_get_string ::
    "(bytes \<Rightarrow> json option) \<Rightarrow> bytes option \<Rightarrow> bytes \<Rightarrow> nat \<Rightarrow> bytes result" where
  "cubicle_rpc_get_string rd text field value_size =
     rbind (cubicle_json_parse rd text) (\<lambda>root. cubicle_json_get_string root field value_size)"

definition cubicle_rpc_get_uint64 ::
    "(bytes \<Rightarrow> json option) \<Rightarrow> bytes option \<Rightarrow> bytes \<Rightarrow> 64 word result" where
  "cubicle_rpc_get_uint64 rd text field =
     rbind (cubicle_json_parse rd text) (\<lambda>root. cubicle_json_get_u64 root field)"

definition cubicle_rpc_get_bool ::
    "(bytes \<Rightarrow> json option) \<Rightarrow> bytes option \<Rightarrow> bytes \<Rightarrow> bool result" where
  "cubicle_rpc_get_bool rd text field =
     rbind (cubicle_json_parse rd text) (\<lambda>root. cubicle_json_get_bool root field)"

definition cubicle_rpc_get_object ::
    "(bytes \<Rightarrow> json option) \<Rightarrow> (json \<Rightarrow> bytes option) \<Rightarrow> bytes option \<Rightarrow> bytes \<Rightarrow> nat \<Rightarrow> bytes result" where
  "cubicle_rpc_get_object rd wr text field object_size =
     (if object_size = 0 then Inl EINVAL
      else rbind (cubicle_json_parse rd text) (\<lambda>root.
        rbind (cubicle_json_copy_value wr (to_option (cubicle_json_get_object root field))) (\<lambda>copy.
        if length copy \<ge> object_size then Inl ENOSPC else Inr copy)))"

definition cubicle_rpc_response_ok :: "(bytes \<Rightarrow> json option) \<Rightarrow> bytes option \<Rightarrow> bool result" where
  "cubicle_rpc_response_ok rd text =
     (case cubicle_json_parse rd text of
        Inl _ \<Rightarrow> Inl EINVAL
      | Inr root \<Rightarrow>
          if \<not> is_obj root then Inl EINVAL else cubicle_json_get_bool root ''success'')"

definition cubicle_rpc_decode_error_value :: "json \<Rightarrow> cubicle_error result" where
  "cubicle_rpc_decode_error_value error_value =
     (if \<not> is_obj error_value then Inl EINVAL
      else
        rbind (cubicle_json_get_string error_value ''code'' 64) (\<lambda>code_name.
        rbind (cubicle_json_get_string error_value ''message'' 256) (\<lambda>msg.
        rbind (cubicle_json_get_bool error_value ''retryable'') (\<lambda>retry.
        rbind (cubicle_json_get_i64 error_value ''system_errno'') (\<lambda>sys.
          if sys < - (2 ^ 31) \<or> sys > 2 ^ 31 - 1 then Inl errno_unset
          else Inr \<lparr>err_code = rpc_error_code_from_name code_name, err_system_errno = sys,
                    err_retryable = retry, err_message = msg\<rparr>)))))"

definition cubicle_rpc_response_error ::
    "(bytes \<Rightarrow> json option) \<Rightarrow> bytes option \<Rightarrow> cubicle_error result" where
  "cubicle_rpc_response_error rd text =
     (case cubicle_json_parse rd text of
        Inl _ \<Rightarrow> Inl EINVAL
      | Inr root \<Rightarrow>
          if \<not> is_obj root then Inl EINVAL
          else
            (case (validate_top_level_fields root response_fields,
                   cubicle_json_get_string root ''request_id'' 64,
                   cubicle_json_get_bool root ''success'',
                   cubicle_json_object_get root ''result'',
                   cubicle_json_get_object root ''error'') of
               (Inr _, Inr _, Inr False, Inl _, Inr error_value) \<Rightarrow>
                 (case cubicle_rpc_decode_error_value error_value of
                    Inl _ \<Rightarrow> Inl EINVAL | Inr e \<Rightarrow> Inr e)
             | _ \<Rightarrow> Inl EINVAL))"

section \<open>Writing\<close>

lemma append_raw_ok: "length used + length text < n \<Longrightarrow> append_raw n used text = Inr (used @ text)"
  by (simp add: append_raw_def)

lemma json_escape_fits: "6 * length s < n \<Longrightarrow> cubicle_json_escape n (Some s) = Inr (escape_text s)"
  using length_escape_text [of s]
  by (auto simp: cubicle_json_escape_def json_escape_loop_eq)

lemma append_json_string_ok:
  assumes "6 * length s < 1024" "length used + length (escape_text s) + 2 < n"
  shows "append_json_string n used s = Inr (used @ quoted (escape_text s))"
  using assms json_escape_fits [OF assms(1)]
  by (simp add: append_json_string_def append_raw_ok quoted_def)

lemma show_nat_01: "show_nat 0 = ''0''" "show_nat (Suc 0) = ''1''"
  by code_simp+

text \<open>A text without quotes, backslashes and control characters, such as every field name.\<close>

definition plain_ascii :: "bytes \<Rightarrow> bool" where
  "plain_ascii s \<longleftrightarrow> (\<forall>c \<in> set s. 0x20 \<le> byte c \<and> byte c < 0x80 \<and> c \<noteq> DQ \<and> c \<noteq> BSL)"

lemma plain_ascii_unescape: "plain_ascii s \<Longrightarrow> json_unescape s = Some s"
  by (induction s) (auto simp: plain_ascii_def json_unescape.simps)

lemma unescape_escape_text: "valid_utf8 s \<Longrightarrow> json_unescape (escape_text s) = Some s"
  using json_unescape_escape_text [of s "[]"] by (simp add: json_unescape.simps)

lemma fragment_valid:
  "json_fragment_valid rd t = Inr () \<longleftrightarrow>
    length t \<le> CUBICLE_JSON_MAX_DOCUMENT_BYTES \<and>
    (\<exists>v. rd t = Some v \<and> json_limits v \<and> json_depth v \<le> CUBICLE_JSON_MAX_DEPTH)"
  by (auto simp: json_fragment_valid_def cubicle_json_parse_def rbind_eq_Inr validate_json_iff(1)
      simp del: validate_json_value.simps split: option.splits)

lemma json_parse_ok:
  assumes "rd t = Some v" "length t \<le> CUBICLE_JSON_MAX_DOCUMENT_BYTES" "json_limits v"
    "json_depth v \<le> CUBICLE_JSON_MAX_DEPTH"
  shows "cubicle_json_parse rd (Some t) = Inr v"
proof -
  have "validate_json_value v 1 = Inr ()" using assms by (simp only: validate_json_iff(1)) simp
  then show ?thesis using assms by (simp add: cubicle_json_parse_def del: validate_json_value.simps)
qed

lemma error_code_name_plain: "plain_ascii (cubicle_error_code_name c)"
  by (cases c) (simp_all add: plain_ascii_def)

lemma error_code_name_inverse: "rpc_error_code_from_name (cubicle_error_code_name c) = c"
  by (cases c) (simp_all add: rpc_error_code_from_name_def cubicle_error_codes_def)

lemma length_error_code_name: "length (cubicle_error_code_name c) \<le> 22"
  by (cases c) simp_all

lemma accessors_Cons [simp]:
  "cubicle_json_object_get (JObj ((k, v) # ms)) f =
     (if k = f then Inr v else cubicle_json_object_get (JObj ms) f)"
  "cubicle_json_object_get (JObj []) f = Inl ENOENT"
  by (auto simp: cubicle_json_object_get_def find_object_member_def)

context json_reader
begin

lemma rd_escaped: "valid_utf8 s \<Longrightarrow> rd (quoted (escape_text s)) = Some (JStr s)"
  by (intro rd_string unescape_escape_text)

lemma rd_members:
  assumes "list_all2 (\<lambda>(kb, t) (k, v). plain_ascii kb \<and> kb = k \<and> rd t = Some v) texts ms"
  shows "rd (object_text texts) = Some (JObj ms)"
  using assms by (intro rd_object) (auto elim!: list_all2_mono dest: plain_ascii_unescape)


lemma rd_request:
  assumes "valid_utf8 rid" "valid_utf8 sid" "valid_utf8 meth" "rd pt = Some p"
  shows "rd (request_prefix @ quoted (escape_text rid) @ '',\"session_id\":'' @ quoted (escape_text sid)
      @ '',\"method\":'' @ quoted (escape_text meth) @ '',\"params\":'' @ pt @ ''}'') =
    Some (JObj [(''protocol_major'', JUint 0), (''protocol_minor'', JUint 1), (''request_id'', JStr rid),
      (''session_id'', JStr sid), (''method'', JStr meth), (''params'', p)])"
    (is "rd ?t = _")
proof -
  have n: "rd ''0'' = Some (JUint 0)" "rd ''1'' = Some (JUint 1)"
    using rd_uint [of 0] rd_uint [of 1] by (simp_all add: show_nat_01)
  have t: "?t = object_text [(''protocol_major'', ''0''), (''protocol_minor'', ''1''),
      (''request_id'', quoted (escape_text rid)), (''session_id'', quoted (escape_text sid)),
      (''method'', quoted (escape_text meth)), (''params'', pt)]"
    by (simp add: object_text_def member_text_def quoted_def request_prefix_def)
  show ?thesis
    unfolding t using assms n by (intro rd_members) (simp add: rd_escaped, simp add: plain_ascii_def)
qed

lemma rd_success:
  assumes "valid_utf8 rid" "rd rt = Some v"
  shows "rd (''{\"request_id\":'' @ quoted (escape_text rid) @ '',\"success\":true,\"result\":'' @ rt @ ''}'') =
    Some (JObj [(''request_id'', JStr rid), (''success'', JBool True), (''result'', v)])"
    (is "rd ?t = _")
proof -
  have n: "rd ''true'' = Some (JBool True)" using rd_bool [of True] by simp
  have t: "?t = object_text [(''request_id'', quoted (escape_text rid)), (''success'', ''true''),
      (''result'', rt)]"
    by (simp add: object_text_def member_text_def quoted_def)
  show ?thesis
    unfolding t using assms n by (intro rd_members) (simp add: rd_escaped, simp add: plain_ascii_def)
qed

lemma rd_int32:
  assumes "- (2 ^ 31) \<le> i" "i < 2 ^ 31"
  shows "\<exists>v. rd (show_int i) = Some v \<and> v \<in> {JUint (of_int i), JSint (of_int i)} \<and> sint (of_int i :: 64 word) = i"
proof -
  have s: "sint (of_int i :: 64 word) = i"
    using assms by (simp add: signed_of_int signed_take_bit_int_eq_self)
  show ?thesis
  proof (cases "i < 0")
    case True
    then show ?thesis using rd_negative [of "of_int i"] s by simp
  next
    case False
    then have "unat (of_int i :: 64 word) = nat i"
      using assms by (simp add: unsigned_of_int take_bit_int_eq_self)
    then show ?thesis using rd_uint [of "of_int i"] s False by (simp add: show_int_def)
  qed
qed

lemma rd_error:
  assumes "json_unescape rb = Some rid" "json_unescape mb = Some msg" "- (2 ^ 31) \<le> i" "i < 2 ^ 31"
  shows "\<exists>v. rd (rpc_error_text rb code mb retry i) =
      Some (JObj [(''request_id'', JStr rid), (''success'', JBool False),
        (''error'', JObj [(''code'', JStr (cubicle_error_code_name code)), (''message'', JStr msg),
           (''retryable'', JBool retry), (''system_errno'', v)])])
    \<and> v \<in> {JUint (of_int i), JSint (of_int i)} \<and> sint (of_int i :: 64 word) = i"
proof -
  obtain v where v: "rd (show_int i) = Some v" "v \<in> {JUint (of_int i), JSint (of_int i)}"
    "sint (of_int i :: 64 word) = i"
    using rd_int32 [OF assms(3,4)] by blast
  let ?e = "object_text [(''code'', quoted (cubicle_error_code_name code)), (''message'', quoted mb),
    (''retryable'', if retry then ''true'' else ''false''), (''system_errno'', show_int i)]"
  have code: "rd (quoted (cubicle_error_code_name code)) = Some (JStr (cubicle_error_code_name code))"
    by (intro rd_string plain_ascii_unescape error_code_name_plain)
  have "rd ?e = Some (JObj [(''code'', JStr (cubicle_error_code_name code)), (''message'', JStr msg),
     (''retryable'', JBool retry), (''system_errno'', v)])"
    by (intro rd_members) (simp add: code v(1) rd_bool rd_string [OF assms(2)], simp add: plain_ascii_def)
  moreover have f: "rd ''false'' = Some (JBool False)" using rd_bool [of False] by simp
  moreover have t: "rpc_error_text rb code mb retry i = object_text [(''request_id'', quoted rb),
      (''success'', ''false''), (''error'', ?e)]"
    by (simp add: rpc_error_text_def object_text_def member_text_def quoted_def)
  ultimately have "rd (rpc_error_text rb code mb retry i) =
    Some (JObj [(''request_id'', JStr rid), (''success'', JBool False),
        (''error'', JObj [(''code'', JStr (cubicle_error_code_name code)), (''message'', JStr msg),
           (''retryable'', JBool retry), (''system_errno'', v)])])"
    unfolding t by (intro rd_members) (simp add: rd_string [OF assms(1)], simp add: plain_ascii_def)
  then show ?thesis using v by blast
qed

end

section \<open>Properties\<close>

lemma plain_ascii_valid: "plain_ascii s \<Longrightarrow> valid_utf8 s"
proof (induction s)
  case (Cons c cs)
  then show ?case using valid_utf8_append [OF ascii_valid_utf8 [of c], of cs] by (simp add: plain_ascii_def)
qed simp

lemma printable_not_NUL: "0x20 \<le> byte c \<Longrightarrow> c \<noteq> NUL"
  by (rule notI) simp

lemma plain_ascii_cstr: "plain_ascii s \<Longrightarrow> is_cstr s"
  unfolding plain_ascii_def is_cstr_def using printable_not_NUL by blast

lemmas envelope_simps =
  validate_top_level_fields_def field_allowed_def request_fields_def response_fields_def
  cubicle_json_get_string_def cubicle_json_get_u64_def cubicle_json_get_i64_def
  cubicle_json_get_bool_def cubicle_json_get_object_def get_required_u32_def to_option_def

lemma cstr_field_names:
  "cstr ''protocol_major'' = ''protocol_major''" "cstr ''protocol_minor'' = ''protocol_minor''"
  "cstr ''request_id'' = ''request_id''" "cstr ''session_id'' = ''session_id''"
  "cstr ''method'' = ''method''" "cstr ''params'' = ''params''" "cstr ''success'' = ''success''"
  "cstr ''result'' = ''result''" "cstr ''error'' = ''error''"
  by code_simp+

text \<open>The text \<open>cubicle_rpc_request\<close> writes when it fits.\<close>

lemma rpc_request_text:
  assumes "json_fragment_valid rd pt = Inr ()"
    and "6 * length rid < 1024" "6 * length sid < 1024" "6 * length meth < 1024"
    and "6 * (length rid + length sid + length meth) + length pt + 128 \<le> n"
  shows "cubicle_rpc_request rd n rid (Some sid) meth pt =
    Inr (request_prefix @ quoted (escape_text rid) @ '',\"session_id\":'' @ quoted (escape_text sid)
      @ '',\"method\":'' @ quoted (escape_text meth) @ '',\"params\":'' @ pt @ ''}'')"
proof -
  have "length request_prefix = 52" by (simp add: request_prefix_def)
  then show ?thesis
    using assms length_escape_text [of rid] length_escape_text [of sid] length_escape_text [of meth]
    by (simp add: cubicle_rpc_request_def append_raw_ok append_json_string_ok quoted_def)
qed

text \<open>C20. (\<open>cubicle_rpc_request\<close>, \<open>cubicle_rpc_decode_request\<close>.) With ids and method that fit the
  fields of the envelope, an object as params that nests at most 31 levels and a buffer of
  six bytes per id byte, the request is written and the receiver decodes exactly what was
  sent.\<close>

theorem rpc_request_round_trip:
  assumes "json_reader rd"
    and "valid_utf8 rid" "is_cstr rid" "rid \<noteq> []" "length rid < 64"
    and "valid_utf8 sid" "is_cstr sid" "length sid < 64"
    and "valid_utf8 meth" "is_cstr meth" "meth \<noteq> []" "length meth < 128"
    and "rd pt = Some (JObj ms)" "json_limits (JObj ms)" "json_depth (JObj ms) \<le> 31"
    and "length pt + 2048 \<le> CUBICLE_JSON_MAX_DOCUMENT_BYTES"
    and "6 * (length rid + length sid + length meth) + length pt + 128 \<le> n"
  shows "\<exists>t. cubicle_rpc_request rd n rid (Some sid) meth pt = Inr t \<and>
    cubicle_rpc_decode_request rd (Some t) =
      Inr \<lparr>req_protocol_major = 0, req_protocol_minor = 1, req_request_id = rid,
           req_session_id = sid, req_method = meth, req_params = JObj ms\<rparr>"
proof -
  have valid: "json_fragment_valid rd pt = Inr ()"
    using assms(13-16) by (auto simp: fragment_valid json_limit_defs)
  define t where "t = request_prefix @ quoted (escape_text rid) @ '',\"session_id\":''
    @ quoted (escape_text sid) @ '',\"method\":'' @ quoted (escape_text meth)
    @ '',\"params\":'' @ pt @ ''}''"
  define root where "root = JObj [(''protocol_major'', JUint 0), (''protocol_minor'', JUint 1),
    (''request_id'', JStr rid), (''session_id'', JStr sid), (''method'', JStr meth), (''params'', JObj ms)]"
  have "cubicle_rpc_request rd n rid (Some sid) meth pt = Inr t"
    unfolding t_def using valid assms by (intro rpc_request_text) simp_all
  moreover have "cubicle_json_parse rd (Some t) = Inr root"
  proof (rule json_parse_ok)
    show "rd t = Some root"
      unfolding t_def root_def by (rule json_reader.rd_request [OF assms(1,2,6,9,13)])
    have "length request_prefix = 52" by (simp add: request_prefix_def)
    then show "length t \<le> CUBICLE_JSON_MAX_DOCUMENT_BYTES"
      using assms(5,8,12,16) length_escape_text [of rid] length_escape_text [of sid]
        length_escape_text [of meth] by (simp add: t_def quoted_def)
    show "json_limits root"
      using assms(5,8,12,14) by (simp add: root_def json_limit_defs del: json_limits.simps(3) add: json_limits.simps(3) [of "_ # _"])
    show "json_depth root \<le> CUBICLE_JSON_MAX_DEPTH"
      using assms(15) by (simp add: root_def json_limit_defs)
  qed
  ultimately show ?thesis
    using assms(3-5,7,8,10-12)
    by (simp add: cubicle_rpc_decode_request_def root_def envelope_simps cstr_field_names cstr_id
        CUBICLE_PROTOCOL_MAJOR_def CUBICLE_PROTOCOL_MINOR_def json_limit_defs)
qed

theorem rpc_request_round_trip_witness:
  "\<exists>t. cubicle_rpc_request read_json 4096 ''r1'' (Some []) ''process.list'' ''{}'' = Inr t \<and>
    cubicle_rpc_decode_request read_json (Some t) =
      Inr \<lparr>req_protocol_major = 0, req_protocol_minor = 1, req_request_id = ''r1'',
           req_session_id = [], req_method = ''process.list'', req_params = JObj []\<rparr>"
proof (rule rpc_request_round_trip [OF ref.json_reader_axioms])
  show "read_json ''{}'' = Some (JObj [])" by code_simp
qed (simp_all add: plain_ascii_valid plain_ascii_def json_limit_defs)

text \<open>C21. (\<open>cubicle_rpc_success\<close>, \<open>cubicle_rpc_decode_response\<close>.) A result is written into a buffer
  of six bytes per id byte and decoded by the peer that waits for this id, with the same
  value.\<close>

theorem rpc_success_round_trip:
  assumes "json_reader rd"
    and "valid_utf8 rid" "is_cstr rid" "length rid < 64"
    and "rd rt = Some v" "json_limits v" "json_depth v \<le> 31"
    and "length rt + 1024 \<le> CUBICLE_JSON_MAX_DOCUMENT_BYTES"
    and "6 * length rid + length rt + 64 \<le> n"
  shows "\<exists>t. cubicle_rpc_success rd n rid rt = Inr t \<and>
    cubicle_rpc_decode_response rd (Some t) rid =
      Inr \<lparr>resp_request_id = rid, resp_success = True, resp_result = Some v, resp_error = None\<rparr>"
proof -
  have valid: "json_fragment_valid rd rt = Inr ()"
    using assms(5-8) by (auto simp: fragment_valid json_limit_defs)
  define t where "t = ''{\"request_id\":'' @ quoted (escape_text rid)
    @ '',\"success\":true,\"result\":'' @ rt @ ''}''"
  define root where "root = JObj [(''request_id'', JStr rid), (''success'', JBool True), (''result'', v)]"
  have "cubicle_rpc_success rd n rid rt = Inr t"
    using valid assms(4,9) length_escape_text [of rid]
    by (simp add: cubicle_rpc_success_def append_raw_ok append_json_string_ok quoted_def t_def)
  moreover have "cubicle_json_parse rd (Some t) = Inr root"
  proof (rule json_parse_ok)
    show "rd t = Some root"
      unfolding t_def root_def by (rule json_reader.rd_success [OF assms(1,2,5)])
    show "length t \<le> CUBICLE_JSON_MAX_DOCUMENT_BYTES"
      using assms(4,8) length_escape_text [of rid] by (simp add: t_def quoted_def)
    show "json_limits root"
      using assms(4,6) by (simp add: root_def json_limit_defs)
    show "json_depth root \<le> CUBICLE_JSON_MAX_DEPTH"
      using assms(7) by (simp add: root_def json_limit_defs)
  qed
  ultimately show ?thesis
    using assms(3,4)
    by (simp add: cubicle_rpc_decode_response_def root_def envelope_simps cstr_field_names cstr_id)
qed

theorem rpc_success_round_trip_witness:
  "\<exists>t. cubicle_rpc_success read_json 256 ''r1'' ''{\"a\":[true]}'' = Inr t \<and>
    cubicle_rpc_decode_response read_json (Some t) ''r1'' =
      Inr \<lparr>resp_request_id = ''r1'', resp_success = True,
           resp_result = Some (JObj [(''a'', JArr [JBool True])]), resp_error = None\<rparr>"
proof (rule rpc_success_round_trip [OF ref.json_reader_axioms])
  show "read_json ''{\"a\":[true]}'' = Some (JObj [(''a'', JArr [JBool True])])" by code_simp
qed (simp_all add: plain_ascii_valid plain_ascii_def json_limit_defs)

text \<open>The text of an error, its tree and that the tree is accepted.\<close>

lemma rpc_error_parse:
  assumes "json_reader rd" "json_unescape rb = Some rid" "length rb < 64" "length rid < 64"
    and "valid_utf8 msg" "6 * length msg < 512" "- (2 ^ 31) \<le> i" "i < 2 ^ 31" "1024 \<le> n"
  shows "\<exists>t v. cubicle_rpc_error n rb code msg retry i = Inr t \<and>
    cubicle_json_parse rd (Some t) =
      Inr (JObj [(''request_id'', JStr rid), (''success'', JBool False),
        (''error'', JObj [(''code'', JStr (cubicle_error_code_name code)), (''message'', JStr msg),
           (''retryable'', JBool retry), (''system_errno'', v)])])
    \<and> v \<in> {JUint (of_int i), JSint (of_int i)} \<and> sint (of_int i :: 64 word) = i"
proof -
  let ?t = "rpc_error_text rb code (escape_text msg) retry i"
  obtain v where v: "rd ?t = Some (JObj [(''request_id'', JStr rid), (''success'', JBool False),
        (''error'', JObj [(''code'', JStr (cubicle_error_code_name code)), (''message'', JStr msg),
           (''retryable'', JBool retry), (''system_errno'', v)])])"
    "v \<in> {JUint (of_int i), JSint (of_int i)}" "sint (of_int i :: 64 word) = i"
    using json_reader.rd_error [OF assms(1,2) unescape_escape_text [OF assms(5)] assms(7,8)] by blast
  have "nat \<bar>i\<bar> < 10 ^ 10" using assms(7,8) by simp
  then have "length (show_int i) \<le> 11"
    using length_show_nat_le [of "nat \<bar>i\<bar>" 10] by (auto simp: show_int_def)
  then have len: "length ?t < 1024"
    using assms(3,6) length_escape_text [of msg] length_error_code_name [of code]
    by (simp add: rpc_error_text_def)
  then have "cubicle_rpc_error n rb code msg retry i = Inr ?t"
    using assms(6,9) json_escape_fits [of msg 512] by (simp add: cubicle_rpc_error_def)
  moreover have "cubicle_json_parse rd (Some ?t) = Inr (JObj [(''request_id'', JStr rid),
      (''success'', JBool False),
      (''error'', JObj [(''code'', JStr (cubicle_error_code_name code)), (''message'', JStr msg),
           (''retryable'', JBool retry), (''system_errno'', v)])])"
    using v(1,2) len assms(4,6) length_error_code_name [of code]
    by (intro json_parse_ok) (auto simp: json_limit_defs)
  ultimately show ?thesis using v(2,3) by blast
qed

text \<open>C22. (\<open>cubicle_rpc_error\<close>, \<open>cubicle_rpc_decode_response\<close>, \<open>cubicle_rpc_response_error\<close>.) An error
  for an id without characters that need escaping is accepted by the peer that waits for
  the id, and every part of the error, its code included, arrives as it was sent.\<close>

theorem rpc_error_round_trip:
  assumes "json_reader rd" "plain_ascii rid" "length rid < 64"
    and "valid_utf8 msg" "is_cstr msg" "6 * length msg < 512"
    and "- (2 ^ 31) \<le> i" "i < 2 ^ 31" "1024 \<le> n"
  shows "\<exists>t v. cubicle_rpc_error n rid code msg retry i = Inr t \<and>
    cubicle_rpc_decode_response rd (Some t) rid =
      Inr \<lparr>resp_request_id = rid, resp_success = False, resp_result = None, resp_error = Some v\<rparr> \<and>
    cubicle_rpc_response_error rd (Some t) =
      Inr \<lparr>err_code = code, err_system_errno = i, err_retryable = retry, err_message = msg\<rparr>"
proof -
  have cs: "is_cstr rid" "is_cstr (cubicle_error_code_name code)"
    using assms(2) error_code_name_plain [of code] by (simp_all add: plain_ascii_cstr)
  obtain t v where t: "cubicle_rpc_error n rid code msg retry i = Inr t"
    "cubicle_json_parse rd (Some t) =
      Inr (JObj [(''request_id'', JStr rid), (''success'', JBool False),
        (''error'', JObj [(''code'', JStr (cubicle_error_code_name code)), (''message'', JStr msg),
           (''retryable'', JBool retry), (''system_errno'', v)])])"
    and v: "v \<in> {JUint (of_int i), JSint (of_int i)}" "sint (of_int i :: 64 word) = i"
    using rpc_error_parse [OF assms(1) plain_ascii_unescape [OF assms(2)] assms(3,3,4,6-9), of code retry]
    by (elim exE conjE)
  have sys: "(case v of JUint w \<Rightarrow> Inr (sint w) | JSint w \<Rightarrow> Inr (sint w) | _ \<Rightarrow> Inl EINVAL) = Inr i"
    using v by (elim insertE emptyE) simp_all
  define e where "e = JObj [(''code'', JStr (cubicle_error_code_name code)), (''message'', JStr msg),
    (''retryable'', JBool retry), (''system_errno'', v)]"
  have "cubicle_rpc_decode_error_value e =
      Inr \<lparr>err_code = code, err_system_errno = i, err_retryable = retry, err_message = msg\<rparr>"
    using cs assms(5,6,7,8) length_error_code_name [of code] sys
    by (simp add: e_def cubicle_rpc_decode_error_value_def envelope_simps cstr_id error_code_name_inverse)
  moreover have "cubicle_json_parse rd (Some t) =
      Inr (JObj [(''request_id'', JStr rid), (''success'', JBool False), (''error'', e)])"
    using t(2) by (simp add: e_def)
  moreover have "is_obj e" "\<exists>ms. e = JObj ms" by (simp_all add: e_def)
  ultimately show ?thesis
    using cs assms(3) t(1)
    by (auto simp: cubicle_rpc_decode_response_def cubicle_rpc_response_error_def envelope_simps
        cstr_field_names cstr_id)
qed

theorem rpc_error_round_trip_witness:
  "\<exists>t v. cubicle_rpc_error 1024 ''r1'' CUBICLE_ERR_NOT_FOUND ''no such process'' False 2 = Inr t \<and>
    cubicle_rpc_decode_response read_json (Some t) ''r1'' =
      Inr \<lparr>resp_request_id = ''r1'', resp_success = False, resp_result = None, resp_error = Some v\<rparr> \<and>
    cubicle_rpc_response_error read_json (Some t) =
      Inr \<lparr>err_code = CUBICLE_ERR_NOT_FOUND, err_system_errno = 2, err_retryable = False,
           err_message = ''no such process''\<rparr>"
  by (rule rpc_error_round_trip [OF ref.json_reader_axioms])
    (simp_all add: plain_ascii_valid plain_ascii_def)



end
