(* ===== verification/Auth_Protocol.thy ===== *)
theory Auth_Protocol
  imports Cubicle_Prelude
begin

text \<open>
  The byte strings that are signed or authenticated during login and resumption
  (\<open>src/src/common/auth_protocol.c\<close>) and the hexadecimal texts of keys and signatures
  (\<open>src/src/common/auth_crypto.c\<close>). The digest function is a parameter.
\<close>

unbundle bit_operations_syntax

section \<open>Appending to the buffer\<close>

text \<open>The buffer is the list of the bytes written so far.\<close>

definition append_bytes :: "nat \<Rightarrow> bytes \<Rightarrow> bytes \<Rightarrow> bytes result" where
  "append_bytes buffer_size used data =
     (if length data > buffer_size - length used then Inl ENOSPC else Inr (used @ data))"

definition append_u32 :: "nat \<Rightarrow> bytes \<Rightarrow> 32 word \<Rightarrow> bytes result" where
  "append_u32 buffer_size used v = append_bytes buffer_size used (be32 (unat v))"

definition append_u64 :: "nat \<Rightarrow> bytes \<Rightarrow> 64 word \<Rightarrow> bytes result" where
  "append_u64 buffer_size used v =
     rbind (append_u32 buffer_size used (ucast (drop_bit 32 v)))
       (\<lambda>u. append_u32 buffer_size u (ucast v))"

definition append_string :: "nat \<Rightarrow> bytes \<Rightarrow> bytes \<Rightarrow> bytes result" where
  "append_string buffer_size used text =
     (if length text > 2 ^ 32 - 1 then Inl EOVERFLOW
      else rbind (append_u32 buffer_size used (of_nat (length text)))
        (\<lambda>u. if text = [] then Inr u else append_bytes buffer_size u text))"

section \<open>The two signed messages\<close>

record auth_transcript =
  tr_protocol_major :: "32 word"
  tr_protocol_minor :: "32 word"
  tr_manager_public_key :: bytes
  tr_client_public_key :: bytes
  tr_client_nonce :: bytes
  tr_manager_nonce :: bytes
  tr_connection_id :: bytes
  tr_capabilities :: "64 word"
  tr_manager_generation :: "64 word"
  tr_peer_uid :: "32 word"
  tr_peer_gid :: "32 word"
  tr_workspace_ref :: bytes

record auth_resume =
  rs_manager_key_id :: bytes
  rs_session_id :: bytes
  rs_client_nonce :: bytes
  rs_server_nonce :: bytes
  rs_connection_id :: bytes
  rs_manager_generation :: "64 word"
  rs_peer_uid :: "32 word"
  rs_peer_gid :: "32 word"

text \<open>\<open>sizeof(domain)\<close> counts the terminating NUL.\<close>

definition auth_domain :: bytes where
  "auth_domain = ''CUBICLE-AUTH-V0'' @ [NUL]"

definition resume_domain :: bytes where
  "resume_domain = ''CUBICLE-RESUME-V0'' @ [NUL]"

definition cubicle_auth_encode_transcript :: "auth_transcript \<Rightarrow> nat \<Rightarrow> bytes result" where
  "cubicle_auth_encode_transcript t n =
     rbind (append_bytes n [] auth_domain) (\<lambda>u.
     rbind (append_u32 n u (tr_protocol_major t)) (\<lambda>u.
     rbind (append_u32 n u (tr_protocol_minor t)) (\<lambda>u.
     rbind (append_bytes n u (tr_manager_public_key t)) (\<lambda>u.
     rbind (append_bytes n u (tr_client_public_key t)) (\<lambda>u.
     rbind (append_bytes n u (tr_client_nonce t)) (\<lambda>u.
     rbind (append_bytes n u (tr_manager_nonce t)) (\<lambda>u.
     rbind (append_bytes n u (tr_connection_id t)) (\<lambda>u.
     rbind (append_u64 n u (tr_capabilities t)) (\<lambda>u.
     rbind (append_u64 n u (tr_manager_generation t)) (\<lambda>u.
     rbind (append_u64 n u (ucast (tr_peer_uid t))) (\<lambda>u.
     rbind (append_u64 n u (ucast (tr_peer_gid t))) (\<lambda>u.
     append_string n u (tr_workspace_ref t)))))))))))))"

definition cubicle_auth_encode_resume :: "auth_resume \<Rightarrow> nat \<Rightarrow> bytes result" where
  "cubicle_auth_encode_resume r n =
     rbind (append_bytes n [] resume_domain) (\<lambda>u.
     rbind (append_string n u (rs_manager_key_id r)) (\<lambda>u.
     rbind (append_string n u (rs_session_id r)) (\<lambda>u.
     rbind (append_bytes n u (rs_client_nonce r)) (\<lambda>u.
     rbind (append_bytes n u (rs_server_nonce r)) (\<lambda>u.
     rbind (append_bytes n u (rs_connection_id r)) (\<lambda>u.
     rbind (append_u64 n u (rs_manager_generation r)) (\<lambda>u.
     rbind (append_u64 n u (ucast (rs_peer_uid r))) (\<lambda>u.
     append_u64 n u (ucast (rs_peer_gid r))))))))))"

text \<open>The sizes of the arrays in the two structures.\<close>

definition transcript_ok :: "auth_transcript \<Rightarrow> bool" where
  "transcript_ok t \<longleftrightarrow>
     length (tr_manager_public_key t) = 32 \<and> length (tr_client_public_key t) = 32
     \<and> length (tr_client_nonce t) = 32 \<and> length (tr_manager_nonce t) = 32
     \<and> length (tr_connection_id t) = 16 \<and> length (tr_workspace_ref t) < 256
     \<and> is_cstr (tr_workspace_ref t)"

definition resume_ok :: "auth_resume \<Rightarrow> bool" where
  "resume_ok r \<longleftrightarrow>
     length (rs_manager_key_id r) < 33 \<and> is_cstr (rs_manager_key_id r)
     \<and> length (rs_session_id r) < 33 \<and> is_cstr (rs_session_id r)
     \<and> length (rs_client_nonce r) = 32 \<and> length (rs_server_nonce r) = 32
     \<and> length (rs_connection_id r) = 16"

section \<open>Hexadecimal texts\<close>

definition cubicle_auth_hex_encode :: "bytes \<Rightarrow> nat \<Rightarrow> bytes result" where
  "cubicle_auth_hex_encode bs hex_size =
     (if hex_size < length bs * 2 + 1 then Inl EINVAL else Inr (concat (map hex2 bs)))"

fun hex_decode_loop :: "bytes \<Rightarrow> bytes result" where
  "hex_decode_loop (h # l # r) =
     (case (hex_value h, hex_value l) of
        (Some high, Some low) \<Rightarrow> rbind (hex_decode_loop r) (\<lambda>bs. Inr (char_of (high * 16 + low) # bs))
      | _ \<Rightarrow> Inl EINVAL)"
| "hex_decode_loop _ = Inr []"

definition cubicle_auth_hex_decode :: "bytes \<Rightarrow> nat \<Rightarrow> bytes result" where
  "cubicle_auth_hex_decode hex bytes_size =
     (if length hex \<noteq> bytes_size * 2 then Inl EINVAL else hex_decode_loop hex)"

text \<open>The key id and the fingerprint of a public key.\<close>

definition cubicle_auth_key_fingerprint :: "(bytes \<Rightarrow> bytes) \<Rightarrow> bytes \<Rightarrow> (bytes \<times> bytes) result" where
  "cubicle_auth_key_fingerprint sha256 public_key =
     (if public_key = [] then Inl EINVAL
      else rbind (cubicle_auth_hex_encode (sha256 public_key) 65)
        (\<lambda>digest_hex. Inr (take 32 digest_hex, take 64 digest_hex)))"

section \<open>Injectivity\<close>

definition u32_bytes :: "32 word \<Rightarrow> bytes" where
  "u32_bytes v = be32 (unat v)"

definition u64_bytes :: "64 word \<Rightarrow> bytes" where
  "u64_bytes v = u32_bytes (ucast (drop_bit 32 v)) @ u32_bytes (ucast v)"

definition string_bytes :: "bytes \<Rightarrow> bytes" where
  "string_bytes s = u32_bytes (of_nat (length s)) @ s"

lemma length_u_bytes [simp]: "length (u32_bytes v) = 4" "length (u64_bytes w) = 8"
  by (simp_all add: u32_bytes_def u64_bytes_def)

lemma length_string_bytes [simp]: "length (string_bytes s) = 4 + length s"
  by (simp add: string_bytes_def)

lemma u32_bytes_inject [simp]: "u32_bytes v = u32_bytes w \<longleftrightarrow> v = w"
proof -
  have "unat (x :: 32 word) < 2 ^ 32" for x
    by (rule order_less_le_trans [OF unsigned_less]) simp
  then show ?thesis by (simp add: u32_bytes_def be32_inject word_eq_iff_unsigned [where ?'a = nat])
qed

lemma u64_split: "v = push_bit 32 (ucast (ucast (drop_bit 32 v) :: 32 word)) OR ucast (ucast v :: 32 word)"
  for v :: "64 word"
  by (rule bit_word_eqI) (auto simp: bit_simps)

lemma u64_bytes_inject [simp]: "u64_bytes v = u64_bytes w \<longleftrightarrow> v = w"
proof
  assume "u64_bytes v = u64_bytes w"
  then have "ucast (drop_bit 32 v) = (ucast (drop_bit 32 w) :: 32 word)" "ucast v = (ucast w :: 32 word)"
    by (simp_all add: u64_bytes_def)
  then show "v = w" using u64_split [of v] u64_split [of w] by simp
qed simp

lemma string_bytes_append_inject:
  assumes "length s < 2 ^ 32" "length t < 2 ^ 32" "string_bytes s @ x = string_bytes t @ y"
  shows "s = t \<and> x = y"
proof -
  have "u32_bytes (of_nat (length s)) = u32_bytes (of_nat (length t))" "s @ x = t @ y"
    using assms(3) by (simp_all add: string_bytes_def)
  then have "unat (of_nat (length s) :: 32 word) = unat (of_nat (length t) :: 32 word)" by simp
  then have "length s = length t"
    using assms(1,2) by (simp add: unsigned_of_nat take_bit_nat_eq_self)
  then show ?thesis using \<open>s @ x = t @ y\<close> by simp
qed

lemma append_bytes_ok:
  "length used + length data \<le> n \<Longrightarrow> append_bytes n used data = Inr (used @ data)"
  by (simp add: append_bytes_def)

lemma append_ok:
  "length used + 4 \<le> n \<Longrightarrow> append_u32 n used v = Inr (used @ u32_bytes v)"
  "length used + 8 \<le> n \<Longrightarrow> append_u64 n used w = Inr (used @ u64_bytes w)"
  "length s < 2 ^ 32 \<Longrightarrow> length used + length s + 4 \<le> n \<Longrightarrow>
     append_string n used s = Inr (used @ string_bytes s)"
  by (simp_all add: append_bytes_ok append_u32_def append_u64_def append_string_def u32_bytes_def
      u64_bytes_def string_bytes_def)

text \<open>The messages as concatenations of their fields.\<close>

definition transcript_bytes :: "auth_transcript \<Rightarrow> bytes" where
  "transcript_bytes t =
     auth_domain @ u32_bytes (tr_protocol_major t) @ u32_bytes (tr_protocol_minor t)
     @ tr_manager_public_key t @ tr_client_public_key t @ tr_client_nonce t @ tr_manager_nonce t
     @ tr_connection_id t @ u64_bytes (tr_capabilities t) @ u64_bytes (tr_manager_generation t)
     @ u64_bytes (ucast (tr_peer_uid t)) @ u64_bytes (ucast (tr_peer_gid t))
     @ string_bytes (tr_workspace_ref t)"

definition resume_bytes :: "auth_resume \<Rightarrow> bytes" where
  "resume_bytes r =
     resume_domain @ string_bytes (rs_manager_key_id r) @ string_bytes (rs_session_id r)
     @ rs_client_nonce r @ rs_server_nonce r @ rs_connection_id r
     @ u64_bytes (rs_manager_generation r) @ u64_bytes (ucast (rs_peer_uid r))
     @ u64_bytes (ucast (rs_peer_gid r))"

lemma length_domains [simp]: "length auth_domain = 16" "length resume_domain = 18"
  by (simp_all add: auth_domain_def resume_domain_def)

lemma encode_transcript:
  assumes "transcript_ok t" "length (transcript_bytes t) \<le> n"
  shows "cubicle_auth_encode_transcript t n = Inr (transcript_bytes t)"
  using assms
  by (simp add: cubicle_auth_encode_transcript_def transcript_bytes_def transcript_ok_def append_ok append_bytes_ok)

lemma encode_resume:
  assumes "resume_ok r" "length (resume_bytes r) \<le> n"
  shows "cubicle_auth_encode_resume r n = Inr (resume_bytes r)"
  using assms
  by (simp add: cubicle_auth_encode_resume_def resume_bytes_def resume_ok_def append_ok append_bytes_ok)

lemma ucast_32_64_inject: "(ucast v :: 64 word) = ucast w \<longleftrightarrow> v = w" for v w :: "32 word"
proof -
  have "ucast (ucast x :: 64 word) = x" for x :: "32 word"
    by (rule bit_word_eqI) (simp add: bit_simps)
  then show ?thesis by metis
qed

lemma transcript_bytes_inject:
  assumes "transcript_ok t" "transcript_ok t'" "transcript_bytes t = transcript_bytes t'"
  shows "t = t'"
proof -
  have "tr_workspace_ref t = tr_workspace_ref t'"
    using assms string_bytes_append_inject [of "tr_workspace_ref t" "tr_workspace_ref t'" "[]" "[]"]
    by (simp add: transcript_bytes_def transcript_ok_def)
  then show ?thesis
    using assms
    by (intro auth_transcript.equality) (simp_all add: transcript_bytes_def transcript_ok_def ucast_32_64_inject)
qed

lemma resume_bytes_inject:
  assumes "resume_ok r" "resume_ok r'" "resume_bytes r = resume_bytes r'"
  shows "r = r'"
proof -
  have l: "length (rs_manager_key_id r) < 2 ^ 32" "length (rs_manager_key_id r') < 2 ^ 32"
    "length (rs_session_id r) < 2 ^ 32" "length (rs_session_id r') < 2 ^ 32"
    using assms(1,2) by (simp_all add: resume_ok_def)
  have "rs_manager_key_id r = rs_manager_key_id r'"
    using assms(3) string_bytes_append_inject [OF l(1,2)] by (auto simp: resume_bytes_def)
  moreover from this have "rs_session_id r = rs_session_id r'"
    using assms(3) string_bytes_append_inject [OF l(3,4)] by (auto simp: resume_bytes_def)
  ultimately show ?thesis
    using assms
    by (intro auth_resume.equality) (simp_all add: resume_bytes_def resume_ok_def ucast_32_64_inject)
qed

lemma domains_differ: "take 9 (transcript_bytes t) \<noteq> take 9 (resume_bytes r)"
  by (simp add: transcript_bytes_def resume_bytes_def auth_domain_def resume_domain_def)

section \<open>Properties\<close>

lemma length_transcript_bytes: "transcript_ok t \<Longrightarrow> length (transcript_bytes t) < 512"
  by (simp add: transcript_bytes_def transcript_ok_def)

lemma length_resume_bytes: "resume_ok r \<Longrightarrow> length (resume_bytes r) < 512"
  by (simp add: resume_bytes_def resume_ok_def)

text \<open>C7. (\<open>cubicle_auth_encode_transcript\<close>, \<open>cubicle_auth_encode_resume\<close>.) In a buffer of 512 bytes
  both messages are always encoded; different transcripts and different resumptions have
  different encodings, and no transcript is encoded as a resumption, so a signature or a
  tag over one says nothing about any other.\<close>

theorem auth_messages_injective:
  assumes "transcript_ok t" "transcript_ok t'" "resume_ok r" "resume_ok r'" "512 \<le> n" "512 \<le> n'"
  shows "\<exists>b c. cubicle_auth_encode_transcript t n = Inr b \<and> cubicle_auth_encode_resume r n = Inr c \<and> b \<noteq> c
    \<and> (cubicle_auth_encode_transcript t' n' = Inr b \<longleftrightarrow> t' = t)
    \<and> (cubicle_auth_encode_resume r' n' = Inr c \<longleftrightarrow> r' = r)"
proof -
  have e: "cubicle_auth_encode_transcript u m = Inr (transcript_bytes u)" if "transcript_ok u" "512 \<le> m" for u m
    using encode_transcript [OF that(1), of m] length_transcript_bytes [OF that(1)] that(2) by simp
  have f: "cubicle_auth_encode_resume u m = Inr (resume_bytes u)" if "resume_ok u" "512 \<le> m" for u m
    using encode_resume [OF that(1), of m] length_resume_bytes [OF that(1)] that(2) by simp
  show ?thesis
    using e f assms transcript_bytes_inject [OF assms(2,1)] resume_bytes_inject [OF assms(4,3)]
      domains_differ [of t r] by auto
qed

definition example_transcript :: auth_transcript where
  "example_transcript = \<lparr>tr_protocol_major = 0, tr_protocol_minor = 1,
     tr_manager_public_key = replicate 32 NUL, tr_client_public_key = replicate 32 (CHR 0x01),
     tr_client_nonce = replicate 32 NUL, tr_manager_nonce = replicate 32 NUL,
     tr_connection_id = replicate 16 NUL, tr_capabilities = 1, tr_manager_generation = 7,
     tr_peer_uid = 1000, tr_peer_gid = 1000, tr_workspace_ref = ''main''\<rparr>"

definition example_resume :: auth_resume where
  "example_resume = \<lparr>rs_manager_key_id = ''k'', rs_session_id = ''s'',
     rs_client_nonce = replicate 32 NUL, rs_server_nonce = replicate 32 NUL,
     rs_connection_id = replicate 16 NUL, rs_manager_generation = 7, rs_peer_uid = 1000,
     rs_peer_gid = 1000\<rparr>"

theorem auth_messages_injective_witness:
  "\<exists>b. cubicle_auth_encode_transcript example_transcript 512 = Inr b
    \<and> cubicle_auth_encode_transcript (example_transcript\<lparr>tr_workspace_ref := ''mai''\<rparr>) 512 \<noteq> Inr b"
proof -
  have "transcript_ok example_transcript" "transcript_ok (example_transcript\<lparr>tr_workspace_ref := ''mai''\<rparr>)"
    "resume_ok example_resume"
    by (simp_all add: transcript_ok_def resume_ok_def example_transcript_def example_resume_def)
  moreover have "example_transcript\<lparr>tr_workspace_ref := ''mai''\<rparr> \<noteq> example_transcript"
    by (simp add: example_transcript_def)
  ultimately show ?thesis
    using auth_messages_injective [of example_transcript "example_transcript\<lparr>tr_workspace_ref := ''mai''\<rparr>"
        example_resume example_resume 512 512] by auto
qed

lemma hex_decode_loop_encode: "hex_decode_loop (concat (map hex2 bs)) = Inr bs"
proof (induction bs)
  case (Cons c bs)
  have "byte c div 16 < 16" "byte c mod 16 < 16" by (simp_all add: less_mult_imp_div_less)
  moreover have "char_of (byte c div 16 * 16 + byte c mod 16) = c"
    by (simp only: div_mult_mod_eq char_of_char)
  ultimately show ?case using Cons by (simp add: hex2_def)
qed simp

lemma length_hex_text: "length (concat (map hex2 bs)) = 2 * length bs"
  by (induction bs) simp_all

text \<open>C26. (\<open>cubicle_auth_hex_encode\<close>, \<open>cubicle_auth_hex_decode\<close>.) Every byte string is decoded from
  its hexadecimal text into an array of its length, and only into such an array.\<close>

theorem hex_round_trip:
  assumes "2 * length bs < n"
  shows "\<exists>t. cubicle_auth_hex_encode bs n = Inr t \<and> cubicle_auth_hex_decode t (length bs) = Inr bs
    \<and> (\<forall>m. m \<noteq> length bs \<longrightarrow> cubicle_auth_hex_decode t m = Inl EINVAL)"
  using assms
  by (simp add: cubicle_auth_hex_encode_def cubicle_auth_hex_decode_def hex_decode_loop_encode length_hex_text)

theorem hex_round_trip_witness:
  "\<exists>t. cubicle_auth_hex_encode [CHR 0xAB, CHR 0x01] 5 = Inr t
    \<and> cubicle_auth_hex_decode t 2 = Inr [CHR 0xAB, CHR 0x01]"
  using hex_round_trip [of "[CHR 0xAB, CHR 0x01]" 5] by (auto simp: numeral_2_eq_2)

end
