(* ===== verification/Manager_Store.thy ===== *)
theory Manager_Store
  imports Registry Io Rpc_Envelope Auth_Protocol
begin

text \<open>
  The manager's state directory (\<open>src/src/manager/main.c\<close>, lines 1128 to 2810): looking
  records up, rewriting the files of records, the capabilities of a connection, and the
  event cursors. A file is the bytes it holds, \<open>None\<close> when it cannot be opened for reading.
  A rewrite builds a temporary file and renames it: with the outcome \<open>Some e\<close> some step failed
  and the old file stays.
\<close>

unbundle bit_operations_syntax

section \<open>Files\<close>

type_synonym state_file = "bytes option"

record manager_files =
  workspaces_tsv :: state_file
  processes_tsv :: state_file
  manager_keys_tsv :: state_file
  workspace_keys_tsv :: state_file
  macros_tsv :: state_file
  cursors_tsv :: state_file

definition records_of :: "(bytes \<Rightarrow> 'r option) \<Rightarrow> nat \<Rightarrow> state_file \<Rightarrow> 'r list" where
  "records_of parse n f = (case f of None \<Rightarrow> [] | Some content \<Rightarrow> file_records parse n content)"

text \<open>The sizes of the line buffers.\<close>

definition workspace_records :: "state_file \<Rightarrow> workspace_record list" where
  "workspace_records = records_of cubicle_parse_workspace_record 512"

definition process_records :: "state_file \<Rightarrow> process_record list" where
  "process_records = records_of cubicle_parse_process_record 21504"

definition key_records :: "state_file \<Rightarrow> key_record list" where
  "key_records = records_of parse_workspace_key_record 1024"

definition macro_records :: "state_file \<Rightarrow> macro_record list" where
  "macro_records = records_of parse_workspace_macro_record 1024"

text \<open>How the calls of \<open>append_line\<close> end. What was written before an error stays in the file.\<close>

record append_io =
  io_open :: "errno option"
  io_writes :: "write_outcome list"
  io_close :: "errno option"

definition append_line :: "append_io \<Rightarrow> state_file \<Rightarrow> bytes \<Rightarrow> unit result \<times> state_file" where
  "append_line io f line =
     (case io_open io of
        Some e \<Rightarrow> (Inl e, f)
      | None \<Rightarrow>
          let (written, r, _) = cubicle_write_all (io_writes io) line;
              old = (case f of None \<Rightarrow> [] | Some c \<Rightarrow> c) in
          (case r of
             Inl e \<Rightarrow> Inl e
           | Inr _ \<Rightarrow> (case io_close io of Some e \<Rightarrow> Inl e | None \<Rightarrow> Inr ()),
           Some (old @ written)))"

text \<open>The callers read \<open>*found\<close> only after a rewrite that succeeded: it is the result.\<close>

definition rewrite_file :: "errno option \<Rightarrow> state_file \<Rightarrow> bytes \<Rightarrow> 'a \<Rightarrow> 'a result \<times> state_file" where
  "rewrite_file io_error f content found =
     (case io_error of Some e \<Rightarrow> (Inl e, f) | None \<Rightarrow> (Inr found, Some content))"

definition validate_field :: "bytes option \<Rightarrow> bool" where
  "validate_field v =
     (case v of None \<Rightarrow> False | Some s \<Rightarrow> s \<noteq> [] \<and> TAB \<notin> set s \<and> NL \<notin> set s)"

section \<open>Workspaces\<close>

definition count_workspaces :: "manager_files \<Rightarrow> nat" where
  "count_workspaces files = length (workspace_records (workspaces_tsv files))"

definition find_workspace :: "manager_files \<Rightarrow> bytes \<Rightarrow> workspace_record option" where
  "find_workspace files name_or_id =
     find (\<lambda>r. ws_id r = name_or_id \<or> ws_name r = name_or_id) (workspace_records (workspaces_tsv files))"

definition workspace_name_exists :: "manager_files \<Rightarrow> bytes \<Rightarrow> bool" where
  "workspace_name_exists files name \<longleftrightarrow> find_workspace files name \<noteq> None"

definition append_workspace_record_with_id ::
    "append_io \<Rightarrow> state_file \<Rightarrow> bytes \<Rightarrow> bytes \<Rightarrow> bytes option \<Rightarrow> unit result \<times> state_file" where
  "append_workspace_record_with_id io f wid name directory =
     (let line = wid @ [TAB] @ name @ [TAB] @ (case directory of None \<Rightarrow> [] | Some d \<Rightarrow> d) @ [NL] in
      if length line \<ge> 4096 + 256 then (Inl ENAMETOOLONG, f) else append_line io f line)"

text \<open>The records after the edit, and whether the identifier was found.\<close>

definition edit_workspaces :: "bytes \<Rightarrow> bytes option \<Rightarrow> bool \<Rightarrow> workspace_record list \<Rightarrow> workspace_record list" where
  "edit_workspaces wid new_name remove rs =
     map (\<lambda>r. if ws_id r = wid then (case new_name of None \<Rightarrow> r | Some n \<Rightarrow> r\<lparr>ws_name := store 128 n\<rparr>) else r)
       (filter (\<lambda>r. \<not> (ws_id r = wid \<and> remove)) rs)"

definition rewrite_workspace_records ::
    "errno option \<Rightarrow> state_file \<Rightarrow> bytes \<Rightarrow> bytes option \<Rightarrow> bool \<Rightarrow> bool result \<times> state_file" where
  "rewrite_workspace_records io_error f wid new_name remove =
     (let rs = workspace_records f in
      rewrite_file io_error f (concat (map workspace_line (edit_workspaces wid new_name remove rs)))
        (\<exists>r \<in> set rs. ws_id r = wid))"

section \<open>Processes\<close>

definition count_processes :: "manager_files \<Rightarrow> nat" where
  "count_processes files = length (process_records (processes_tsv files))"

definition count_processes_for_workspace :: "manager_files \<Rightarrow> bytes \<Rightarrow> nat \<times> nat" where
  "count_processes_for_workspace files wid =
     (let rs = filter (\<lambda>r. pr_workspace_id r = wid) (process_records (processes_tsv files)) in
      (length rs, length (filter (\<lambda>r. pr_state r = ''running'') rs)))"

definition api_process_state_name :: "bytes \<Rightarrow> bytes" where
  "api_process_state_name s =
     (if s = ''running'' then ''running'' else if s = ''completed'' then ''completed''
      else if s = ''failed'' then ''failed'' else ''lost'')"

definition api_stream_file_name :: "bytes \<Rightarrow> bytes option" where
  "api_stream_file_name s =
     (if s = ''stdout'' then Some ''stdout.log'' else if s = ''stderr'' then Some ''stderr.log''
      else if s = ''tty'' then Some ''stdout.log'' else None)"

definition process_is_terminal_state :: "bytes \<Rightarrow> bool" where
  "process_is_terminal_state s \<longleftrightarrow>
     s \<in> {''completed'', ''failed'', ''lost'', ''removed'', ''exited''}"

datatype 'a lookup = Found 'a | Missing | Ambiguous

definition process_matches :: "bytes \<Rightarrow> bytes option \<Rightarrow> process_record \<Rightarrow> bool" where
  "process_matches id_or_name wid r \<longleftrightarrow>
     pr_process_id r = id_or_name \<or>
     (case wid of None \<Rightarrow> False | Some w \<Rightarrow> pr_workspace_id r = w \<and> pr_friendly_name r = id_or_name)"

text \<open>The loop keeps the record found and stops at a second match.\<close>

fun find_process_loop :: "bytes \<Rightarrow> bytes option \<Rightarrow> process_record option \<Rightarrow> process_record list \<Rightarrow> process_record lookup" where
  "find_process_loop id_or_name wid found [] =
     (case found of None \<Rightarrow> Missing | Some r \<Rightarrow> Found r)"
| "find_process_loop id_or_name wid found (r # rs) =
     (if \<not> process_matches id_or_name wid r then find_process_loop id_or_name wid found rs
      else case found of
        Some _ \<Rightarrow> Ambiguous
      | None \<Rightarrow> find_process_loop id_or_name wid (Some r) rs)"

definition find_process_record :: "manager_files \<Rightarrow> bytes \<Rightarrow> bytes option \<Rightarrow> process_record lookup" where
  "find_process_record files id_or_name wid =
     find_process_loop id_or_name wid None (process_records (processes_tsv files))"

definition process_conflict_exists :: "manager_files \<Rightarrow> bytes \<Rightarrow> bytes \<Rightarrow> bytes \<Rightarrow> bool \<times> bool" where
  "process_conflict_exists files wid pid name =
     (let rs = process_records (processes_tsv files) in
      (\<exists>r \<in> set rs. pr_process_id r = pid,
       \<exists>r \<in> set rs. pr_workspace_id r = wid \<and> pr_friendly_name r = name))"

definition process_friendly_name_conflicts :: "manager_files \<Rightarrow> bytes \<Rightarrow> bytes \<Rightarrow> bytes \<Rightarrow> bool" where
  "process_friendly_name_conflicts files wid pid name \<longleftrightarrow>
     (\<exists>r \<in> set (process_records (processes_tsv files)).
        pr_workspace_id r = wid \<and> pr_process_id r \<noteq> pid \<and> pr_friendly_name r = name)"

definition append_process_record ::
    "append_io \<Rightarrow> state_file \<Rightarrow> process_record \<Rightarrow> unit result \<times> state_file" where
  "append_process_record io f r =
     (if length (process_line r) \<ge> 21504 then (Inl ENAMETOOLONG, f)
      else append_line io f (process_line r))"

record process_update =
  pu_state :: "bytes option"
  pu_saved :: "bool option"
  pu_friendly_name :: "bytes option"
  pu_restart :: "bool option"

definition apply_update :: "process_update \<Rightarrow> process_record \<Rightarrow> process_record" where
  "apply_update u r =
     r\<lparr>pr_state := (case pu_state u of None \<Rightarrow> pr_state r | Some s \<Rightarrow> store 32 s),
       pr_saved := (case pu_saved u of None \<Rightarrow> pr_saved r | Some b \<Rightarrow> b),
       pr_friendly_name := (case pu_friendly_name u of None \<Rightarrow> pr_friendly_name r | Some n \<Rightarrow> store 128 n),
       pr_restart := (case pu_restart u of None \<Rightarrow> pr_restart r | Some b \<Rightarrow> b)\<rparr>"

definition edit_processes :: "bytes \<Rightarrow> process_update option \<Rightarrow> bool \<Rightarrow> process_record list \<Rightarrow> process_record list" where
  "edit_processes pid update remove rs =
     map (\<lambda>r. if pr_process_id r = pid then (case update of None \<Rightarrow> r | Some u \<Rightarrow> apply_update u r) else r)
       (filter (\<lambda>r. \<not> (pr_process_id r = pid \<and> remove)) rs)"

definition rewrite_process_records ::
    "errno option \<Rightarrow> state_file \<Rightarrow> bytes \<Rightarrow> process_update option \<Rightarrow> bool \<Rightarrow> bool result \<times> state_file" where
  "rewrite_process_records io_error f pid update remove =
     (let rs = process_records f in
      rewrite_file io_error f (concat (map process_line (edit_processes pid update remove rs)))
        (\<exists>r \<in> set rs. pr_process_id r = pid))"

section \<open>Macros\<close>

text \<open>The ordinal of a macro when the macro at \<open>ord\<close> moves to \<open>target\<close>.\<close>

definition reorder_ordinal :: "64 word \<Rightarrow> 64 word \<Rightarrow> 64 word \<Rightarrow> 64 word" where
  "reorder_ordinal ord target k =
     (if k = ord then target
      else if target < ord \<and> target \<le> k \<and> k < ord then k + 1
      else if target > ord \<and> ord < k \<and> k \<le> target then k - 1
      else k)"

text \<open>One record of the loop: \<open>None\<close> drops it; the flag is \<open>*found\<close>.\<close>

definition edit_macro ::
    "macro_record option \<Rightarrow> bytes \<Rightarrow> 64 word \<Rightarrow> 64 word \<Rightarrow> 64 word \<Rightarrow> macro_record \<Rightarrow> macro_record option \<times> bool" where
  "edit_macro upsert wid del ord target r =
     (if mr_workspace_id r \<noteq> wid then (Some r, False)
      else case upsert of
        Some u \<Rightarrow>
          if mr_ordinal r = mr_ordinal u then (Some u, True)
          else if del > 0 \<and> mr_ordinal r = del then (None, True)
          else if ord > 0 then (Some (r\<lparr>mr_ordinal := reorder_ordinal ord target (mr_ordinal r)\<rparr>), mr_ordinal r = ord)
          else (Some r, False)
      | None \<Rightarrow>
          if del > 0 \<and> mr_ordinal r = del then (None, True)
          else if ord > 0 then (Some (r\<lparr>mr_ordinal := reorder_ordinal ord target (mr_ordinal r)\<rparr>), mr_ordinal r = ord)
          else (Some r, False))"

definition edit_macros ::
    "macro_record option \<Rightarrow> bytes \<Rightarrow> 64 word \<Rightarrow> 64 word \<Rightarrow> 64 word \<Rightarrow> macro_record list \<Rightarrow> macro_record list \<times> bool" where
  "edit_macros upsert wid del ord target rs =
     (let found = (\<exists>r \<in> set rs. snd (edit_macro upsert wid del ord target r));
          kept = List.map_filter (\<lambda>r. fst (edit_macro upsert wid del ord target r)) rs in
      (kept @ (case upsert of None \<Rightarrow> [] | Some u \<Rightarrow> if found then [] else [u]), found))"

definition rewrite_workspace_macro_records ::
    "errno option \<Rightarrow> state_file \<Rightarrow> macro_record option \<Rightarrow> bytes \<Rightarrow> 64 word \<Rightarrow> 64 word \<Rightarrow> 64 word \<Rightarrow> bool result \<times> state_file" where
  "rewrite_workspace_macro_records io_error f upsert wid del ord target =
     (let (rs, found) = edit_macros upsert wid del ord target (macro_records f) in
      rewrite_file io_error f (concat (map macro_line rs)) found)"

section \<open>Cursors\<close>

definition cursor_for_process :: "cursor_record list \<Rightarrow> bytes \<Rightarrow> cursor_record option" where
  "cursor_for_process cs pid = find (\<lambda>c. cr_process_id c = pid) cs"

fun advance_cursor :: "cursor_record list \<Rightarrow> bytes \<Rightarrow> int \<Rightarrow> int \<Rightarrow> cursor_record list option" where
  "advance_cursor [] pid sequence offset = None"
| "advance_cursor (c # cs) pid sequence offset =
     (if cr_process_id c = pid then
        Some (c\<lparr>cr_sequence := (if sequence > cr_sequence c then sequence else cr_sequence c),
                cr_offset := (if offset > cr_offset c then offset else cr_offset c)\<rparr> # cs)
      else map_option ((#) c) (advance_cursor cs pid sequence offset))"

definition update_cursor :: "cursor_record list \<Rightarrow> bytes \<Rightarrow> int \<Rightarrow> int \<Rightarrow> cursor_record list result" where
  "update_cursor cs pid sequence offset =
     (case advance_cursor cs pid sequence offset of
        Some cs' \<Rightarrow> Inr cs'
      | None \<Rightarrow>
          if length cs \<ge> 256 then Inl ENOSPC
          else Inr (cs @ [\<lparr>cr_process_id = store 33 pid, cr_sequence = sequence, cr_offset = offset\<rparr>]))"

definition load_cursors :: "state_file \<Rightarrow> cursor_record list" where
  "load_cursors f = take 256 (records_of cubicle_parse_cursor_record 256 f)"

definition save_cursors :: "errno option \<Rightarrow> state_file \<Rightarrow> cursor_record list \<Rightarrow> unit result \<times> state_file" where
  "save_cursors io_error f cs = rewrite_file io_error f (concat (map cursor_line cs)) ()"

section \<open>Files printed by the manager\<close>

lemmas records_defs = workspace_records_def process_records_def key_records_def macro_records_def records_of_def

lemma printed_records:
  "list_all workspace_ok ws \<Longrightarrow> workspace_records (Some (concat (map workspace_line ws))) = ws"
  "list_all process_ok ps \<Longrightarrow> process_records (Some (concat (map process_line ps))) = ps"
  "list_all key_ok ks \<Longrightarrow> key_records (Some (concat (map key_line ks))) = ks"
  "list_all macro_ok ms \<Longrightarrow> macro_records (Some (concat (map macro_line ms))) = ms"
  by (simp_all add: records_defs workspaces.file_records_lines processes.file_records_lines
      keys.file_records_lines macros.file_records_lines)

lemma no_records [simp]:
  "workspace_records None = []" "process_records None = []" "key_records None = []" "macro_records None = []"
  by (simp_all add: records_defs)

lemma rewrite_file_simps [simp]:
  "rewrite_file None f c b = (Inr b, Some c)" "rewrite_file (Some e) f c b = (Inl e, f)"
  by (simp_all add: rewrite_file_def)

lemma cubicle_write_all_done [simp]: "cubicle_write_all [] buffer = (buffer, Inr (), [])"
  by (cases buffer) simp_all

definition io_done :: append_io where
  "io_done = \<lparr>io_open = None, io_writes = [], io_close = None\<rparr>"

lemma append_line_done [simp]:
  "append_line io_done f line = (Inr (), Some ((case f of None \<Rightarrow> [] | Some c \<Rightarrow> c) @ line))"
  by (simp add: append_line_def io_done_def)

section \<open>The process table\<close>

text \<open>
  What the process file promises: a finite map from identifiers to records. A file is well
  formed when it is the text of records that print and parse, each identifier once.
\<close>

definition process_table :: "state_file \<Rightarrow> bytes \<Rightarrow> process_record option" where
  "process_table f pid = find (\<lambda>r. pr_process_id r = pid) (process_records f)"

definition process_file_ok :: "state_file \<Rightarrow> bool" where
  "process_file_ok f \<longleftrightarrow>
     (let rs = process_records f in
      list_all process_ok rs \<and> distinct (map pr_process_id rs)
      \<and> (f = None \<or> f = Some (concat (map process_line rs))))"

lemma process_file_okE:
  assumes "process_file_ok f"
  obtains rs where "process_records f = rs" "list_all process_ok rs" "distinct (map pr_process_id rs)"
    "(case f of None \<Rightarrow> [] | Some c \<Rightarrow> c) = concat (map process_line rs)"
proof -
  have "(case f of None \<Rightarrow> [] | Some c \<Rightarrow> c) = concat (map process_line (process_records f))"
    using assms by (cases f) (auto simp: process_file_ok_def Let_def)
  then show thesis using assms that by (simp add: process_file_ok_def Let_def)
qed

lemma process_file_okI:
  "list_all process_ok rs \<Longrightarrow> distinct (map pr_process_id rs) \<Longrightarrow> process_file_ok (Some (concat (map process_line rs)))"
  by (simp add: process_file_ok_def printed_records)

lemma find_append: "find P (xs @ ys) = (case find P xs of None \<Rightarrow> find P ys | Some x \<Rightarrow> Some x)"
  by (induction xs) auto

lemma find_filter: "find P (filter Q xs) = find (\<lambda>x. P x \<and> Q x) xs"
  by (induction xs) auto

lemma find_map_same: "(\<And>x. P (g x) = P x) \<Longrightarrow> find P (map g xs) = map_option g (find P xs)"
  by (induction xs) auto

lemma find_None: "find P xs = None \<longleftrightarrow> (\<forall>x \<in> set xs. \<not> P x)"
  by (induction xs) auto

lemma find_Some: "find P xs = Some y \<Longrightarrow> P y \<and> y \<in> set xs"
  by (induction xs) (auto split: if_splits)

definition updated :: "process_update option \<Rightarrow> process_record \<Rightarrow> process_record" where
  "updated update r = (case update of None \<Rightarrow> r | Some u \<Rightarrow> apply_update u r)"

lemma updated_simps [simp]: "updated None = id" "updated (Some u) = apply_update u"
  by (simp_all add: updated_def fun_eq_iff)

lemma pr_process_id_updated [simp]: "pr_process_id (updated update r) = pr_process_id r"
  by (simp add: updated_def apply_update_def split: option.split)

lemma edit_processes_updated:
  "edit_processes pid update remove rs =
     map (\<lambda>r. if pr_process_id r = pid then updated update r else r)
       (filter (\<lambda>r. \<not> (pr_process_id r = pid \<and> remove)) rs)"
  by (simp add: edit_processes_def updated_def)

lemma edit_processes_ids:
  "map pr_process_id (edit_processes pid update remove rs) =
     filter (\<lambda>i. \<not> (i = pid \<and> remove)) (map pr_process_id rs)"
  unfolding edit_processes_updated by (induction rs) auto

lemma edit_processes_ok:
  assumes "list_all process_ok rs" "\<And>r. r \<in> set rs \<Longrightarrow> pr_process_id r = pid \<Longrightarrow> process_ok (updated update r)"
  shows "list_all process_ok (edit_processes pid update remove rs)"
  using assms by (auto simp: edit_processes_updated list_all_iff)

lemma find_edit_processes:
  "find (\<lambda>r. pr_process_id r = q) (edit_processes pid update remove rs) =
     (if q \<noteq> pid then find (\<lambda>r. pr_process_id r = q) rs
      else if remove then None else map_option (updated update) (find (\<lambda>r. pr_process_id r = pid) rs))"
proof (induction rs)
  case (Cons r rs)
  then show ?case by (auto simp: edit_processes_updated)
qed (simp add: edit_processes_updated)

lemma process_table_printed:
  "list_all process_ok rs \<Longrightarrow> process_table (Some (concat (map process_line rs))) = (\<lambda>q. find (\<lambda>r. pr_process_id r = q) rs)"
  by (simp add: fun_eq_iff process_table_def printed_records)

lemma process_table_known:
  "process_table f pid \<noteq> None \<longleftrightarrow> (\<exists>r \<in> set (process_records f). pr_process_id r = pid)"
  using find_None [of "\<lambda>r. pr_process_id r = pid" "process_records f"] by (auto simp: process_table_def)

lemma find_distinct_key:
  "distinct (map k xs) \<Longrightarrow> x \<in> set xs \<Longrightarrow> find (\<lambda>y. k y = k x) xs = Some x"
  by (induction xs) (auto simp: image_iff)

lemma append_process_refines:
  assumes "process_file_ok f" "process_ok r" "process_table f (pr_process_id r) = None"
  shows "\<exists>f'. append_process_record io_done f r = (Inr (), f') \<and> process_file_ok f'
    \<and> process_table f' = (process_table f)(pr_process_id r \<mapsto> r)"
proof -
  obtain rs where rs: "process_records f = rs" "list_all process_ok rs" "distinct (map pr_process_id rs)"
    and content: "(case f of None \<Rightarrow> [] | Some c \<Rightarrow> c) = concat (map process_line rs)"
    using process_file_okE [OF assms(1)] by blast
  have ok: "list_all process_ok (rs @ [r])" "distinct (map pr_process_id (rs @ [r]))"
    using rs assms process_table_known [of f "pr_process_id r"] by auto
  have "length (process_line r) < 21504" using assms(2) by (simp add: process_ok_def)
  then have "append_process_record io_done f r = (Inr (), Some (concat (map process_line (rs @ [r]))))"
    using content by (simp add: append_process_record_def)
  moreover have "(\<lambda>q. find (\<lambda>r. pr_process_id r = q) (rs @ [r])) = (process_table f)(pr_process_id r \<mapsto> r)"
    using assms(3) by (auto simp: fun_eq_iff find_append process_table_def rs(1) split: option.splits)
  ultimately show ?thesis
    using process_file_okI [OF ok] process_table_printed [OF ok(1)] by simp
qed

lemma rewrite_process_refines:
  assumes "process_file_ok f" "\<And>r. process_table f pid = Some r \<Longrightarrow> process_ok (updated update r)"
  shows "\<exists>f'. rewrite_process_records None f pid update remove = (Inr (process_table f pid \<noteq> None), f')
    \<and> process_file_ok f'
    \<and> process_table f' = (process_table f)(pid := if remove then None else map_option (updated update) (process_table f pid))"
proof -
  obtain rs where rs: "process_records f = rs" "list_all process_ok rs" "distinct (map pr_process_id rs)"
    using process_file_okE [OF assms(1)] by blast
  have "process_ok (updated update q)" if "q \<in> set rs" "pr_process_id q = pid" for q
    using assms(2) find_distinct_key [OF rs(3) that(1)] that rs(1) by (simp add: process_table_def)
  then have ok: "list_all process_ok (edit_processes pid update remove rs)"
    by (rule edit_processes_ok [OF rs(2)])
  have "distinct (map pr_process_id (edit_processes pid update remove rs))"
    by (simp only: edit_processes_ids distinct_filter rs(3))
  then show ?thesis
    using process_file_okI [OF ok] process_table_printed [OF ok] process_table_known [of f pid]
    by (auto simp: rewrite_process_records_def rs(1) find_edit_processes fun_eq_iff process_table_def)
qed

text \<open>C6. (\<open>append_process_record\<close>, \<open>rewrite_process_records\<close>.) On a well-formed file the three
  operations are those of a finite map, and the file stays well formed: a new record is
  added under its identifier, an update changes the record of its identifier alone, a
  removal deletes it, the two rewrites report whether the identifier was known, and a
  rewrite that fails leaves the file as it was.\<close>

theorem process_file_refines:
  assumes ok: "process_file_ok f"
    and new: "process_ok r" "process_table f (pr_process_id r) = None"
    and upd: "\<forall>r. process_table f pid = Some r \<longrightarrow> process_ok (apply_update u r)"
  shows "(\<exists>f'. append_process_record io_done f r = (Inr (), f') \<and> process_file_ok f'
        \<and> process_table f' = (process_table f)(pr_process_id r \<mapsto> r))
    \<and> (\<exists>f'. rewrite_process_records None f pid (Some u) False = (Inr (process_table f pid \<noteq> None), f')
        \<and> process_file_ok f'
        \<and> process_table f' = (process_table f)(pid := map_option (apply_update u) (process_table f pid)))
    \<and> (\<exists>f'. rewrite_process_records None f pid None True = (Inr (process_table f pid \<noteq> None), f')
        \<and> process_file_ok f' \<and> process_table f' = (process_table f)(pid := None))
    \<and> rewrite_process_records (Some e) f pid (Some u) False = (Inl e, f)
    \<and> rewrite_process_records (Some e) f pid None True = (Inl e, f)"
proof -
  have "process_ok r'" if "process_table f pid = Some r'" for r'
    using find_Some [of _ "process_records f" r'] process_file_okE [OF ok] that
    by (auto simp: process_table_def list_all_iff)
  then have "\<And>r'. process_table f pid = Some r' \<Longrightarrow> process_ok (updated None r')" by simp
  from rewrite_process_refines [OF ok this, where remove = True]
  have R: "\<exists>f'. rewrite_process_records None f pid None True = (Inr (process_table f pid \<noteq> None), f')
        \<and> process_file_ok f' \<and> process_table f' = (process_table f)(pid := None)"
    by simp
  have "\<And>r'. process_table f pid = Some r' \<Longrightarrow> process_ok (updated (Some u) r')" using upd by simp
  from rewrite_process_refines [OF ok this, where remove = False]
  have U: "\<exists>f'. rewrite_process_records None f pid (Some u) False = (Inr (process_table f pid \<noteq> None), f')
        \<and> process_file_ok f'
        \<and> process_table f' = (process_table f)(pid := map_option (apply_update u) (process_table f pid))"
    by simp
  have "rewrite_process_records (Some e) f pid v b = (Inl e, f)" for v b
    by (simp add: rewrite_process_records_def Let_def)
  with append_process_refines [OF ok new] U R show ?thesis by blast
qed

definition example_process :: process_record where
  "example_process =
     \<lparr>pr_process_id = ''p1'', pr_workspace_id = ''w1'', pr_friendly_name = ''shell'', pr_mode = ''pty'',
      pr_state = ''running'', pr_controller_id = ''c1'', pr_control_socket = ''/run/c1'', pr_cwd = ''/'',
      pr_argv_json = ''[]'', pr_saved = False, pr_restart = True, pr_stdin_policy = ''open'',
      pr_workspace_name = ''main'', pr_workspace_directory = ''/home''\<rparr>"

definition example_update :: process_update where
  "example_update = \<lparr>pu_state = Some ''completed'', pu_saved = None, pu_friendly_name = None, pu_restart = None\<rparr>"

lemma example_process_ok: "process_ok example_process"
  "process_ok (example_process\<lparr>pr_process_id := ''p2''\<rparr>)" "process_ok (apply_update example_update example_process)"
  by (simp_all add: process_ok_def field_ok_def plain_field_def is_sep_def process_line_def flag_text_def
      example_process_def example_update_def apply_update_def store_def)

theorem process_file_refines_witness:
  "\<exists>f'. rewrite_process_records None (Some (process_line example_process)) ''p1'' (Some example_update) False = (Inr True, f')
    \<and> process_table f' ''p1'' = Some (apply_update example_update example_process)"
proof -
  define f where "f = Some (process_line example_process)"
  have f: "process_records f = [example_process]"
    using printed_records(2) [of "[example_process]"] example_process_ok(1) by (simp add: f_def)
  have ok: "process_file_ok f"
    using process_file_okI [of "[example_process]"] example_process_ok(1) by (simp add: f_def)
  have new: "process_table f (pr_process_id (example_process\<lparr>pr_process_id := ''p2''\<rparr>)) = None"
    by (simp add: process_table_def f example_process_def)
  have t: "process_table f ''p1'' = Some example_process"
    by (simp add: process_table_def f example_process_def)
  have upd: "\<forall>r. process_table f ''p1'' = Some r \<longrightarrow> process_ok (apply_update example_update r)"
    using example_process_ok(3) by (simp add: t)
  have "\<exists>f'. rewrite_process_records None f ''p1'' (Some example_update) False = (Inr (process_table f ''p1'' \<noteq> None), f')
        \<and> process_file_ok f'
        \<and> process_table f' = (process_table f)(''p1'' := map_option (apply_update example_update) (process_table f ''p1''))"
    by (rule process_file_refines [OF ok example_process_ok(2) new upd, THEN conjunct2, THEN conjunct1])
  then show ?thesis using t unfolding f_def by auto
qed


section \<open>Workspaces with a long directory\<close>

lemma takeWhile_NL: "NL \<notin> set b \<Longrightarrow> takeWhile (\<lambda>c. c \<noteq> NL) (b @ NL # r) = b"
  by (induction b) auto

lemma split_fields_join:
  "plain_field a \<Longrightarrow> plain_field b \<Longrightarrow> plain_field c \<Longrightarrow> split_fields (a @ TAB # b @ TAB # c) = [a, b, c]"
  by (simp add: split_fields_sep split_fields_plain)

lemma plain_field_take: "plain_field s \<Longrightarrow> plain_field (take n s)"
  unfolding plain_field_def by (meson in_set_takeD)

lemma take_three: "length p \<le> n \<Longrightarrow> take n (p @ d) = p @ take (n - length p) d"
  by simp

text \<open>C28. (\<open>append_workspace_record_with_id\<close>, \<open>find_workspace\<close>.) The manager appends a workspace
  record of up to 4351 bytes but reads the file in pieces of at most 511 bytes: when the
  line is longer, the record found is the one with its directory cut to the first piece.\<close>

theorem workspace_directory_cut:
  assumes "field_ok 33 wid" "wid \<noteq> []" "field_ok 128 name" "name \<noteq> []" "field_ok 4096 directory"
    and "512 < length wid + length name + length directory + 3"
    and "length wid + length name + length directory + 3 < 4352"
  shows "\<exists>content. append_workspace_record_with_id io_done None wid name (Some directory) = (Inr (), Some content)
    \<and> find_workspace (files\<lparr>workspaces_tsv := Some content\<rparr>) wid =
        Some \<lparr>ws_id = wid, ws_name = name, ws_directory = take (509 - length wid - length name) directory\<rparr>
    \<and> length directory > 509 - length wid - length name"
proof -
  define content where "content = wid @ [TAB] @ name @ [TAB] @ directory @ [NL]"
  define d where "d = take (509 - length wid - length name) directory"
  have plain: "plain_field wid" "plain_field name" "plain_field directory"
    and len: "length wid \<le> 32" "length name \<le> 127"
    using assms by (simp_all add: field_ok_def)
  have nl: "NL \<notin> set (wid @ [TAB] @ name @ [TAB] @ directory)"
    using plain by (simp add: plain_field_NL)
  have tw: "takeWhile (\<lambda>c. c \<noteq> NL) content = wid @ [TAB] @ name @ [TAB] @ directory"
    using takeWhile_NL [OF nl, of "[]"] by (simp add: content_def)
  have "fgets 512 content = take 511 content"
    using assms(6) by (simp add: fgets_def tw)
  also have "\<dots> = wid @ TAB # name @ TAB # d"
    using len assms(6) by (simp add: content_def d_def take_Cons')
  finally have first: "fgets 512 content = wid @ TAB # name @ TAB # d" .
  have pd: "plain_field d" "length d < 4096" "d \<noteq> []"
    using plain assms(6) len by (auto simp: d_def plain_field_take)
  have "tokens (wid @ TAB # name @ TAB # d) = [wid, name, d]"
    using split_fields_join [OF plain(1,2) pd(1)] assms(2,4) pd(3) by (simp add: tokens_def)
  then have parse: "cubicle_parse_workspace_record (wid @ TAB # name @ TAB # d) =
      Some \<lparr>ws_id = wid, ws_name = name, ws_directory = d\<rparr>"
    using assms(1,3) pd by (simp add: cubicle_parse_workspace_record_def store_id field_ok_def)
  have "is_cstr (wid @ TAB # name @ TAB # d)"
    using plain pd(1) by (simp add: plain_field_cstr)
  then have "\<exists>rs. workspace_records (Some content) = \<lparr>ws_id = wid, ws_name = name, ws_directory = d\<rparr> # rs"
    using first parse
    by (subst records_defs, simp add: records_of_def file_records_def, subst fgets_lines.simps)
      (simp add: List.map_filter_simps cstr_id content_def)
  then have "find_workspace (files\<lparr>workspaces_tsv := Some content\<rparr>) wid =
        Some \<lparr>ws_id = wid, ws_name = name, ws_directory = d\<rparr>"
    by (auto simp: find_workspace_def)
  moreover have "append_workspace_record_with_id io_done None wid name (Some directory) = (Inr (), Some content)"
    using assms(7) by (simp add: append_workspace_record_with_id_def content_def)
  ultimately show ?thesis
    using assms(6) len by (intro exI [of _ content]) (simp add: d_def)
qed


theorem workspace_directory_cut_witness:
  "\<exists>content. append_workspace_record_with_id io_done None ''w1'' ''main'' (Some (replicate 600 (CHR ''d''))) = (Inr (), Some content)
    \<and> find_workspace \<lparr>workspaces_tsv = Some content, processes_tsv = None, manager_keys_tsv = None,
          workspace_keys_tsv = None, macros_tsv = None, cursors_tsv = None\<rparr> ''w1'' =
        Some \<lparr>ws_id = ''w1'', ws_name = ''main'', ws_directory = replicate 503 (CHR ''d'')\<rparr>"
  using workspace_directory_cut [of "''w1''" "''main''" "replicate 600 (CHR ''d'')"
      "\<lparr>workspaces_tsv = None, processes_tsv = None, manager_keys_tsv = None,
        workspace_keys_tsv = None, macros_tsv = None, cursors_tsv = None\<rparr>"]
  by (simp add: field_ok_def plain_field_def is_sep_def take_replicate)

section \<open>Macros\<close>

lemma reorder_ordinal_nat:
  "unat (reorder_ordinal ord target k) =
     (if k = ord then unat target
      else if target < ord \<and> target \<le> k \<and> k < ord then unat k + 1
      else if target > ord \<and> ord < k \<and> k \<le> target then unat k - 1
      else unat k)"
proof -
  have "unat (k + 1) = unat k + 1" if "k < ord"
    using that unat_size_t [of ord] by (simp add: unat_word_ariths word_less_nat_alt)
  moreover have "unat (k - 1) = unat k - 1" if "ord < k"
    using that unat_sub [of 1 k] by (simp add: word_le_nat_alt word_less_nat_alt)
  ultimately show ?thesis by (auto simp: reorder_ordinal_def)
qed

lemmas ordinal_simps = reorder_ordinal_nat word_less_nat_alt word_le_nat_alt word_eq_iff_unsigned [where ?'a = nat]

lemma reorder_ordinal_mono:
  "j \<noteq> ord \<Longrightarrow> k \<noteq> ord \<Longrightarrow> reorder_ordinal ord target j < reorder_ordinal ord target k \<longleftrightarrow> j < k"
  unfolding ordinal_simps by (auto split: if_splits)

lemma reorder_ordinal_target: "k \<noteq> ord \<Longrightarrow> reorder_ordinal ord target k \<noteq> target"
  unfolding ordinal_simps by (auto split: if_splits)

lemma reorder_ordinal_inj: "reorder_ordinal ord target j = reorder_ordinal ord target k \<longleftrightarrow> j = k"
proof (cases "j = ord \<or> k = ord")
  case True
  then show ?thesis using reorder_ordinal_target [of j] reorder_ordinal_target [of k]
    by (metis reorder_ordinal_def)
next
  case False
  then show ?thesis
    using reorder_ordinal_mono [of j ord k target] reorder_ordinal_mono [of k ord j target]
    by (metis linorder_less_linear order_less_irrefl)
qed

lemma reorder_ordinal_pos: "0 < ord \<Longrightarrow> 0 < target \<Longrightarrow> 0 < k \<Longrightarrow> 0 < reorder_ordinal ord target k"
  unfolding ordinal_simps by (auto split: if_splits)

definition macro_key :: "macro_record \<Rightarrow> bytes \<times> 64 word" where
  "macro_key r = (mr_workspace_id r, mr_ordinal r)"

definition moved :: "bytes \<Rightarrow> 64 word \<Rightarrow> 64 word \<Rightarrow> macro_record \<Rightarrow> macro_record" where
  "moved wid ord target r =
     (if mr_workspace_id r = wid then r\<lparr>mr_ordinal := reorder_ordinal ord target (mr_ordinal r)\<rparr> else r)"

lemma moved_simps [simp]:
  "mr_workspace_id (moved wid ord target r) = mr_workspace_id r" "mr_name (moved wid ord target r) = mr_name r"
  "mr_text (moved wid ord target r) = mr_text r" "mr_target_process_name (moved wid ord target r) = mr_target_process_name r"
  "mr_key_name (moved wid ord target r) = mr_key_name r" "mr_target_pane (moved wid ord target r) = mr_target_pane r"
  "mr_ordinal (moved wid ord target r) =
     (if mr_workspace_id r = wid then reorder_ordinal ord target (mr_ordinal r) else mr_ordinal r)"
  by (simp_all add: moved_def)

lemma macro_ok_moved: "0 < ord \<Longrightarrow> 0 < target \<Longrightarrow> macro_ok r \<Longrightarrow> macro_ok (moved wid ord target r)"
  using length_show_u64 [of "mr_ordinal (moved wid ord target r)"] length_show_u64 [of "mr_target_pane r"]
    reorder_ordinal_pos [of ord target "mr_ordinal r"]
  by (simp add: macro_ok_def macro_line_def field_ok_def split: if_splits)

lemma edit_macros_reorder:
  assumes "0 < ord"
  shows "edit_macros None wid 0 ord target rs =
    (map (moved wid ord target) rs, \<exists>r \<in> set rs. mr_workspace_id r = wid \<and> mr_ordinal r = ord)"
proof -
  have "List.map_filter (\<lambda>r. fst (edit_macro None wid 0 ord target r)) rs = map (moved wid ord target) rs"
    using assms by (induction rs) (auto simp: edit_macro_def moved_def List.map_filter_simps)
  moreover have "snd (edit_macro None wid 0 ord target r) \<longleftrightarrow> mr_workspace_id r = wid \<and> mr_ordinal r = ord" for r
    using assms by (simp add: edit_macro_def)
  ultimately show ?thesis by (simp add: edit_macros_def)
qed

lemma macro_key_moved: "macro_key (moved wid ord target r) = macro_key (moved wid ord target s) \<longleftrightarrow> macro_key r = macro_key s"
  by (auto simp: macro_key_def reorder_ordinal_inj)

lemma distinct_macro_key_moved:
  "distinct (map macro_key (map (moved wid ord target) rs)) = distinct (map macro_key rs)"
  by (induction rs) (auto simp: image_iff macro_key_moved)

text \<open>C9. (\<open>rewrite_workspace_macro_records\<close>.) Moving the macro at one ordinal of a workspace to
  another keeps every record, keeps the ordinals of every workspace distinct, gives the
  moved macro the wanted ordinal, keeps the order of the other macros of the workspace and
  does not touch those of other workspaces.\<close>

theorem macro_reorder_invariant:
  assumes "list_all macro_ok rs" "distinct (map macro_key rs)" "0 < ord" "0 < target"
  shows "\<exists>f' rs'. rewrite_workspace_macro_records None (Some (concat (map macro_line rs))) None wid 0 ord target
      = (Inr (\<exists>r \<in> set rs. macro_key r = (wid, ord)), f')
    \<and> macro_records f' = rs' \<and> distinct (map macro_key rs')
    \<and> map (\<lambda>r. r\<lparr>mr_ordinal := 0\<rparr>) rs' = map (\<lambda>r. r\<lparr>mr_ordinal := 0\<rparr>) rs
    \<and> (\<forall>i < length rs.
        (mr_workspace_id (rs ! i) \<noteq> wid \<longrightarrow> rs' ! i = rs ! i)
        \<and> (macro_key (rs ! i) = (wid, ord) \<longrightarrow> mr_ordinal (rs' ! i) = target)
        \<and> (\<forall>j < length rs. mr_workspace_id (rs ! i) = wid \<longrightarrow> mr_workspace_id (rs ! j) = wid \<longrightarrow>
            mr_ordinal (rs ! i) \<noteq> ord \<longrightarrow> mr_ordinal (rs ! j) \<noteq> ord \<longrightarrow>
            (mr_ordinal (rs' ! i) < mr_ordinal (rs' ! j) \<longleftrightarrow> mr_ordinal (rs ! i) < mr_ordinal (rs ! j))))"
proof -
  let ?m = "moved wid ord target"
  have ok: "list_all macro_ok (map ?m rs)"
    using assms by (auto simp: list_all_iff macro_ok_moved)
  have "rewrite_workspace_macro_records None (Some (concat (map macro_line rs))) None wid 0 ord target
      = (Inr (\<exists>r \<in> set rs. macro_key r = (wid, ord)), Some (concat (map macro_line (map ?m rs))))"
    using assms(1,3) by (simp add: rewrite_workspace_macro_records_def printed_records edit_macros_reorder macro_key_def)
  moreover have "macro_records (Some (concat (map macro_line (map ?m rs)))) = map ?m rs"
    by (rule printed_records(4) [OF ok])
  moreover have "map (\<lambda>r. r\<lparr>mr_ordinal := 0\<rparr>) (map ?m rs) = map (\<lambda>r. r\<lparr>mr_ordinal := 0\<rparr>) rs"
    by (simp add: moved_def)
  moreover have "distinct (map macro_key (map ?m rs))"
    using assms(2) by (simp only: distinct_macro_key_moved)
  moreover have "\<forall>i < length rs.
        (mr_workspace_id (rs ! i) \<noteq> wid \<longrightarrow> map ?m rs ! i = rs ! i)
        \<and> (macro_key (rs ! i) = (wid, ord) \<longrightarrow> mr_ordinal (map ?m rs ! i) = target)
        \<and> (\<forall>j < length rs. mr_workspace_id (rs ! i) = wid \<longrightarrow> mr_workspace_id (rs ! j) = wid \<longrightarrow>
            mr_ordinal (rs ! i) \<noteq> ord \<longrightarrow> mr_ordinal (rs ! j) \<noteq> ord \<longrightarrow>
            (mr_ordinal (map ?m rs ! i) < mr_ordinal (map ?m rs ! j) \<longleftrightarrow> mr_ordinal (rs ! i) < mr_ordinal (rs ! j)))"
    by (simp add: moved_def macro_key_def reorder_ordinal_mono) (simp add: reorder_ordinal_def)
  ultimately show ?thesis by blast
qed

definition example_macro :: "64 word \<Rightarrow> macro_record" where
  "example_macro k = \<lparr>mr_workspace_id = ''w1'', mr_ordinal = k, mr_name = ''build'', mr_text = ''make'',
     mr_target_pane = 0, mr_target_process_name = ''shell'', mr_key_name = ''F5''\<rparr>"

theorem macro_reorder_invariant_witness:
  "\<exists>f' rs'. rewrite_workspace_macro_records None
      (Some (concat (map macro_line [example_macro 1, example_macro 2, example_macro 3]))) None ''w1'' 0 3 1 = (Inr True, f')
    \<and> macro_records f' = rs' \<and> mr_ordinal (rs' ! 2) = 1"
proof -
  have ok: "macro_ok (example_macro k)" if "0 < k" for k
    using that length_show_u64 [of k] length_show_u64 [of 0]
    by (simp add: macro_ok_def field_ok_def plain_field_def is_sep_def macro_line_def example_macro_def)
  have "list_all macro_ok [example_macro 1, example_macro 2, example_macro 3]" by (simp add: ok)
  moreover have "distinct (map macro_key [example_macro 1, example_macro 2, example_macro 3])"
    by (simp add: macro_key_def example_macro_def)
  ultimately obtain f' rs' where m: "rewrite_workspace_macro_records None
      (Some (concat (map macro_line [example_macro 1, example_macro 2, example_macro 3]))) None ''w1'' 0 3 1
      = (Inr (\<exists>r \<in> set [example_macro 1, example_macro 2, example_macro 3]. macro_key r = (''w1'', 3)), f')"
    "macro_records f' = rs'"
    "\<forall>i < length [example_macro 1, example_macro 2, example_macro 3].
        macro_key ([example_macro 1, example_macro 2, example_macro 3] ! i) = (''w1'', 3) \<longrightarrow> mr_ordinal (rs' ! i) = 1"
    using macro_reorder_invariant [of "[example_macro 1, example_macro 2, example_macro 3]" 3 1 "''w1''"] by auto
  have "\<exists>r \<in> set [example_macro 1, example_macro 2, example_macro 3]. macro_key r = (''w1'', 3)"
    by (simp add: macro_key_def example_macro_def)
  moreover have "mr_ordinal (rs' ! 2) = 1"
    using m(3) [rule_format, of 2] by (simp add: macro_key_def example_macro_def)
  ultimately show ?thesis using m(1,2) by auto
qed


section \<open>Cursors\<close>

text \<open>The cursors in memory: at most 256, each process once, each one printable.\<close>

definition cursors_ok :: "cursor_record list \<Rightarrow> bool" where
  "cursors_ok cs \<longleftrightarrow> list_all cursor_ok cs \<and> distinct (map cr_process_id cs) \<and> length cs \<le> 256"

lemma load_save_cursors:
  assumes "cursors_ok cs"
  shows "load_cursors (snd (save_cursors None f cs)) = cs"
proof -
  have "records_of cubicle_parse_cursor_record 256 (Some (concat (map cursor_line cs))) = cs"
    using assms cursors.file_records_lines [of cs] by (simp add: cursors_ok_def records_of_def)
  then show ?thesis using assms by (simp add: load_cursors_def save_cursors_def cursors_ok_def)
qed

lemma advance_cursor_None: "advance_cursor cs pid s d = None \<longleftrightarrow> pid \<notin> cr_process_id ` set cs"
  by (induction cs) auto

lemma advance_cursor_Some:
  assumes "advance_cursor cs pid s d = Some cs'"
  shows "map cr_process_id cs' = map cr_process_id cs
    \<and> (\<exists>c. cursor_for_process cs pid = Some c \<and>
        cursor_for_process cs' pid = Some (c\<lparr>cr_sequence := max (cr_sequence c) s, cr_offset := max (cr_offset c) d\<rparr>))
    \<and> (\<forall>q. q \<noteq> pid \<longrightarrow> cursor_for_process cs' q = cursor_for_process cs q)
    \<and> set cs' \<subseteq> set cs \<union> {c\<lparr>cr_sequence := max (cr_sequence c) s, cr_offset := max (cr_offset c) d\<rparr> |c. c \<in> set cs}"
  using assms
proof (induction cs arbitrary: cs')
  case (Cons c cs)
  show ?case
  proof (cases "cr_process_id c = pid")
    case True
    then have "cs' = c\<lparr>cr_sequence := max (cr_sequence c) s, cr_offset := max (cr_offset c) d\<rparr> # cs"
      using Cons.prems by (auto simp: max_def)
    then show ?thesis using True by (auto simp: cursor_for_process_def)
  next
    case False
    then obtain cs2 where cs2: "advance_cursor cs pid s d = Some cs2" "cs' = c # cs2"
      using Cons.prems by auto
    show ?thesis using Cons.IH [OF cs2(1)] False cs2(2) by (auto simp: cursor_for_process_def)
  qed
qed simp

lemma cursor_ok_max:
  "cursor_ok c \<Longrightarrow> - (2 ^ 63) \<le> s \<Longrightarrow> s < 2 ^ 63 \<Longrightarrow> - (2 ^ 63) \<le> d \<Longrightarrow> d < 2 ^ 63 \<Longrightarrow>
     cursor_ok (c\<lparr>cr_sequence := max (cr_sequence c) s, cr_offset := max (cr_offset c) d\<rparr>)"
  by (auto simp: cursor_ok_def)

text \<open>C12. (\<open>update_cursor\<close>, \<open>save_cursors\<close>, \<open>load_cursors\<close>.) Recording that the events of a process
  up to a sequence number and an offset were seen keeps the cursors well formed, never
  moves the cursor of the process back, leaves the others alone, and survives saving and
  loading. It fails, with \<open>ENOSPC\<close>, exactly for a new process beside 256 others.\<close>

theorem cursor_update_saved:
  assumes "cursors_ok cs" "field_ok 33 pid" "pid \<noteq> []"
    and "- (2 ^ 63) \<le> s" "s < 2 ^ 63" "- (2 ^ 63) \<le> d" "d < 2 ^ 63"
  shows "case update_cursor cs pid s d of
      Inl e \<Rightarrow> e = ENOSPC \<and> length cs = 256 \<and> cursor_for_process cs pid = None
    | Inr cs' \<Rightarrow> cursors_ok cs' \<and> load_cursors (snd (save_cursors None f cs')) = cs'
        \<and> cursor_for_process cs' pid = Some \<lparr>cr_process_id = pid,
            cr_sequence = (case cursor_for_process cs pid of None \<Rightarrow> s | Some c \<Rightarrow> max (cr_sequence c) s),
            cr_offset = (case cursor_for_process cs pid of None \<Rightarrow> d | Some c \<Rightarrow> max (cr_offset c) d)\<rparr>
        \<and> (\<forall>q. q \<noteq> pid \<longrightarrow> cursor_for_process cs' q = cursor_for_process cs q)"
proof (cases "advance_cursor cs pid s d")
  case None
  then have new: "pid \<notin> cr_process_id ` set cs" by (simp add: advance_cursor_None)
  then have find: "cursor_for_process cs pid = None" by (auto simp: cursor_for_process_def find_None)
  show ?thesis
  proof (cases "length cs \<ge> 256")
    case True
    then show ?thesis using None find assms(1) by (simp add: update_cursor_def cursors_ok_def)
  next
    case False
    define c where "c = \<lparr>cr_process_id = pid, cr_sequence = s, cr_offset = d\<rparr>"
    have "cursors_ok (cs @ [c])"
      using assms False new by (auto simp: cursors_ok_def cursor_ok_def c_def)
    moreover have "update_cursor cs pid s d = Inr (cs @ [c])"
      using None False assms(2) by (simp add: update_cursor_def store_id c_def)
    ultimately show ?thesis
      using find load_save_cursors [of "cs @ [c]"]
      by (auto simp: cursor_for_process_def find_append c_def split: option.split)
  qed
next
  case (Some cs')
  from advance_cursor_Some [OF Some] obtain c where ids: "map cr_process_id cs' = map cr_process_id cs"
    and c: "cursor_for_process cs pid = Some c"
      "cursor_for_process cs' pid = Some (c\<lparr>cr_sequence := max (cr_sequence c) s, cr_offset := max (cr_offset c) d\<rparr>)"
    and others: "\<forall>q. q \<noteq> pid \<longrightarrow> cursor_for_process cs' q = cursor_for_process cs q"
    and elems: "set cs' \<subseteq> set cs \<union> {c\<lparr>cr_sequence := max (cr_sequence c) s, cr_offset := max (cr_offset c) d\<rparr> |c. c \<in> set cs}"
    by blast
  have "list_all cursor_ok cs'"
    using elems assms cursor_ok_max [of _ s d] by (fastforce simp: cursors_ok_def list_all_iff)
  moreover have "length cs' = length cs" using ids by (metis length_map)
  ultimately have "cursors_ok cs'" using assms(1) ids by (simp add: cursors_ok_def)
  moreover have "cr_process_id c = pid" using c(1) find_Some by (fastforce simp: cursor_for_process_def)
  moreover have "update_cursor cs pid s d = Inr cs'" by (simp add: update_cursor_def Some)
  ultimately show ?thesis using c others load_save_cursors [of cs'] by simp
qed

theorem cursor_update_saved_witness:
  "\<exists>cs'. update_cursor [\<lparr>cr_process_id = ''p1'', cr_sequence = 7, cr_offset = 20\<rparr>] ''p1'' 9 10 = Inr cs'
    \<and> load_cursors (snd (save_cursors None None cs')) = cs'
    \<and> cursor_for_process cs' ''p1'' = Some \<lparr>cr_process_id = ''p1'', cr_sequence = 9, cr_offset = 20\<rparr>"
  using cursor_update_saved [of "[\<lparr>cr_process_id = ''p1'', cr_sequence = 7, cr_offset = 20\<rparr>]" "''p1''" 9 10 None]
  by (simp add: cursors_ok_def cursor_ok_def field_ok_def plain_field_def is_sep_def update_cursor_def
      cursor_for_process_def)

end
