(* ===== verification/Frames.thy ===== *)
theory Frames
  imports Io Rpc_Envelope
begin

text \<open>
  Messages on a byte stream: the readers and writers of \<open>src/src/manager/main.c\<close> (\<open>read_all_fd\<close>,
  \<open>tls_read_all\<close>, \<open>tls_write_all\<close>, \<open>read_api_frame\<close>, \<open>write_api_frame\<close>), the manager's side of
  the controller protocol (\<open>controller_rpc_read_all_timeout\<close>), and the requests of the client's
  three transports (\<open>src/src/client/transport_unix.c\<close>, \<open>transport_tcp.c\<close>, \<open>transport_tls.c\<close>).
  A message is sent as its length in four bytes, most significant first, and its bytes.
  A stream delivers and accepts bytes in pieces of any size.
\<close>

section \<open>Reading a number of bytes\<close>

text \<open>
  A piece that is longer than what is asked for stays for the next call. Past the end of the
  list nothing arrives and a call blocks: the result is \<open>None\<close>.
\<close>

type_synonym 's reading = "(bytes result \<times> 's) option"

definition after :: "bytes \<Rightarrow> 's reading \<Rightarrow> 's reading" where
  "after d = map_option (\<lambda>(r, s). (case r of Inl e \<Rightarrow> Inl e | Inr d' \<Rightarrow> Inr (d @ d'), s))"

fun read_all_fd :: "read_outcome list \<Rightarrow> nat \<Rightarrow> read_outcome list reading" where
  "read_all_fd rs n =
     (if n = 0 then Some (Inr [], rs)
      else case rs of
        [] \<Rightarrow> None
      | RError e # rs' \<Rightarrow> if e = EINTR then read_all_fd rs' n else Some (Inl e, rs')
      | REof # rs' \<Rightarrow> Some (Inl ECONNRESET, rs')
      | RData d # rs' \<Rightarrow>
          if n < length d then Some (Inr (take n d), RData (drop n d) # rs')
          else after d (read_all_fd rs' (n - length d)))"

declare read_all_fd.simps [simp del]

datatype tls_read = TlsWant | TlsFailed | TlsData bytes

definition INT32_MAX :: nat where "INT32_MAX = 2147483647"

text \<open>\<open>SSL_read\<close> is asked for \<open>INT32_MAX\<close> bytes at most.\<close>

function tls_read_all :: "tls_read list \<Rightarrow> nat \<Rightarrow> tls_read list reading" where
  "tls_read_all rs n =
     (if n = 0 then Some (Inr [], rs)
      else case rs of
        [] \<Rightarrow> None
      | TlsWant # rs' \<Rightarrow> tls_read_all rs' n
      | TlsFailed # rs' \<Rightarrow> Some (Inl ECONNRESET, rs')
      | TlsData d # rs' \<Rightarrow>
          (let chunk = min n INT32_MAX in
           if chunk < length d then after (take chunk d) (tls_read_all (TlsData (drop chunk d) # rs') (n - chunk))
           else after d (tls_read_all rs' (n - length d))))"
  by pat_completeness auto
termination
  by (relation "measures [\<lambda>(rs, n). length rs, \<lambda>(rs, n). n]") (auto simp: INT32_MAX_def)

declare tls_read_all.simps [simp del]

text \<open>
  The manager polls a controller's descriptor for up to two seconds before every read. Past
  the end of the list nothing arrives, and the poll times out.
\<close>

datatype poll_outcome = PollTimeout | PollError errno | PollHangup | PollRead read_outcome

fun controller_rpc_read_all_timeout :: "poll_outcome list \<Rightarrow> nat \<Rightarrow> bytes result \<times> poll_outcome list" where
  "controller_rpc_read_all_timeout ps n =
     (if n = 0 then (Inr [], ps)
      else case ps of
        [] \<Rightarrow> (Inl ETIMEDOUT, [])
      | PollTimeout # ps' \<Rightarrow> (Inl ETIMEDOUT, ps')
      | PollError e # ps' \<Rightarrow> if e = EINTR then controller_rpc_read_all_timeout ps' n else (Inl e, ps')
      | PollHangup # ps' \<Rightarrow> (Inl ECONNRESET, ps')
      | PollRead (RError e) # ps' \<Rightarrow> if e = EINTR then controller_rpc_read_all_timeout ps' n else (Inl e, ps')
      | PollRead REof # ps' \<Rightarrow> (Inl ECONNRESET, ps')
      | PollRead (RData d) # ps' \<Rightarrow>
          if n < length d then (Inr (take n d), PollRead (RData (drop n d)) # ps')
          else (let (r, ps'') = controller_rpc_read_all_timeout ps' (n - length d)
                in (case r of Inl e \<Rightarrow> Inl e | Inr d' \<Rightarrow> Inr (d @ d'), ps'')))"

declare controller_rpc_read_all_timeout.simps [simp del]

section \<open>Writing\<close>

text \<open>
  \<open>write_all\<close> of the client's plain transports fails when \<open>send\<close> accepts nothing. Past the end
  of the list everything is accepted at once, as in \<open>cubicle_write_all\<close>.
\<close>

fun send_all :: "write_outcome list \<Rightarrow> bytes \<Rightarrow> bytes \<times> unit result \<times> write_outcome list" where
  "send_all ws [] = ([], Inr (), ws)"
| "send_all [] buffer = (buffer, Inr (), [])"
| "send_all (WError e # ws) buffer = (if e = EINTR then send_all ws buffer else ([], Inl e, ws))"
| "send_all (WShort n # ws) buffer =
     (if n = 0 then ([], Inl EPIPE, ws)
      else let (written, r, ws') = send_all ws (drop n buffer) in (take n buffer @ written, r, ws'))"

text \<open>\<open>TlsAccept n\<close>: \<open>SSL_write\<close> takes \<open>n + 1\<close> bytes of the chunk, or all of a shorter chunk.\<close>

datatype tls_write = TlsWriteWant | TlsWriteFailed | TlsAccept nat

function tls_write_all :: "tls_write list \<Rightarrow> bytes \<Rightarrow> bytes \<times> unit result \<times> tls_write list" where
  "tls_write_all ws buffer =
     (if buffer = [] then ([], Inr (), ws)
      else case ws of
        [] \<Rightarrow> (buffer, Inr (), [])
      | TlsWriteWant # ws' \<Rightarrow> tls_write_all ws' buffer
      | TlsWriteFailed # ws' \<Rightarrow> ([], Inl EIO, ws')
      | TlsAccept n # ws' \<Rightarrow>
          (let k = min (Suc n) INT32_MAX; (written, r, ws'') = tls_write_all ws' (drop k buffer) in
           (take k buffer @ written, r, ws'')))"
  by pat_completeness auto
termination
  by (relation "measure (\<lambda>(ws, buffer). length ws)") auto

declare tls_write_all.simps [simp del]

section \<open>The manager's frames\<close>

definition CUBICLE_API_MAX_FRAME :: nat where "CUBICLE_API_MAX_FRAME = 65536"

definition CUBICLE_CONTROLLER_PROXY_MAX_FRAME :: nat where "CUBICLE_CONTROLLER_PROXY_MAX_FRAME = 4194304"

text \<open>Reading is \<open>read_all_fd\<close> on a plain connection and \<open>tls_read_all\<close> on a TLS connection.\<close>

definition read_api_frame :: "('s \<Rightarrow> nat \<Rightarrow> 's reading) \<Rightarrow> 's \<Rightarrow> nat \<Rightarrow> 's reading" where
  "read_api_frame read_all s request_size =
     (case read_all s 4 of
        None \<Rightarrow> None
      | Some (Inl e, s') \<Rightarrow> Some (Inl e, s')
      | Some (Inr length_network, s') \<Rightarrow>
          (let length = of_be32 length_network in
           if length = 0 \<or> length \<ge> request_size \<or> length > CUBICLE_API_MAX_FRAME then Some (Inl EMSGSIZE, s')
           else read_all s' length))"

definition write_api_frame_with_limit ::
    "('w \<Rightarrow> bytes \<Rightarrow> bytes \<times> unit result \<times> 'w) \<Rightarrow> 'w \<Rightarrow> bytes \<Rightarrow> nat \<Rightarrow> bytes \<times> unit result \<times> 'w" where
  "write_api_frame_with_limit write_all w response max_frame_size =
     (if length response > max_frame_size then ([], Inl EMSGSIZE, w)
      else case write_all w (be32 (length response)) of
        (written, Inl e, w') \<Rightarrow> (written, Inl e, w')
      | (written, Inr _, w') \<Rightarrow>
          (case write_all w' response of (written', r, w'') \<Rightarrow> (written @ written', r, w'')))"

definition write_api_frame ::
    "('w \<Rightarrow> bytes \<Rightarrow> bytes \<times> unit result \<times> 'w) \<Rightarrow> 'w \<Rightarrow> bytes \<Rightarrow> bytes \<times> unit result \<times> 'w" where
  "write_api_frame write_all w response = write_api_frame_with_limit write_all w response CUBICLE_API_MAX_FRAME"

section \<open>The client's transports\<close>

text \<open>The numbers of Linux.\<close>

fun errno_number :: "errno \<Rightarrow> int" where
  "errno_number EINVAL = 22"
| "errno_number ENOSPC = 28"
| "errno_number EOVERFLOW = 75"
| "errno_number ENOMEM = 12"
| "errno_number E2BIG = 7"
| "errno_number ENOENT = 2"
| "errno_number EPROTO = 71"
| "errno_number EMSGSIZE = 90"
| "errno_number ENOBUFS = 105"
| "errno_number ENAMETOOLONG = 36"
| "errno_number EBADF = 9"
| "errno_number EIO = 5"
| "errno_number EEXIST = 17"
| "errno_number EADDRINUSE = 98"
| "errno_number EINTR = 4"
| "errno_number EAGAIN = 11"
| "errno_number EPIPE = 32"
| "errno_number ENOTDIR = 20"
| "errno_number EACCES = 13"
| "errno_number ETIMEDOUT = 110"
| "errno_number ECHILD = 10"
| "errno_number ECONNRESET = 104"
| "errno_number ESRCH = 3"
| "errno_number (OtherErrno n) = int n"

definition transport_error :: "cubicle_error_code \<Rightarrow> int \<Rightarrow> bytes \<Rightarrow> cubicle_error" where
  "transport_error code system_errno msg =
     \<lparr>err_code = code, err_system_errno = system_errno,
      err_retryable = (code = CUBICLE_ERR_MANAGER_UNAVAILABLE \<or> code = CUBICLE_ERR_IO \<or> code = CUBICLE_ERR_TIMEOUT),
      err_message = take 255 msg\<rparr>"

definition TRANSPORT_MAX_FRAME :: nat where "TRANSPORT_MAX_FRAME = 16 * 1024 * 1024"

text \<open>
  A request of a transport. \<open>name\<close> is the word the messages have for it, \<open>alloc\<close> tells which
  allocations succeed. The result has the bytes written, the response or the error, and the two
  directions of the stream afterwards; \<open>None\<close> for the response when the stream stays silent.
\<close>

type_synonym ('w, 's) exchange = "bytes \<times> (cubicle_error + bytes) option \<times> 'w \<times> 's"

definition transport_response ::
    "bytes \<Rightarrow> ('s \<Rightarrow> nat \<Rightarrow> 's reading) \<Rightarrow> (nat \<Rightarrow> bool) \<Rightarrow> 's \<Rightarrow> (cubicle_error + bytes) option \<times> 's" where
  "transport_response name read_all alloc s =
     (let failed = (\<lambda>e what. Some (Inl (transport_error CUBICLE_ERR_IO (errno_number e)
            (''failed to read '' @ name @ what)))) in
      case read_all s 4 of
        None \<Rightarrow> (None, s)
      | Some (Inl e, s') \<Rightarrow> (failed e '' transport response header'', s')
      | Some (Inr header, s') \<Rightarrow>
          (let response_size = of_be32 header in
           if response_size > TRANSPORT_MAX_FRAME then
             (Some (Inl (transport_error CUBICLE_ERR_PROTOCOL (errno_number EMSGSIZE)
                (name @ '' transport response exceeds frame limit''))), s')
           else if response_size = 0 then (Some (Inr []), s')
           else if \<not> alloc response_size then
             (Some (Inl (transport_error CUBICLE_ERR_INTERNAL (errno_number ENOMEM)
                ''failed to allocate response buffer'')), s')
           else case read_all s' response_size of
             None \<Rightarrow> (None, s')
           | Some (Inl e, s'') \<Rightarrow> (failed e '' transport response'', s'')
           | Some (Inr response, s'') \<Rightarrow> (Some (Inr response), s'')))"

definition transport_request ::
    "bytes \<Rightarrow> ('w \<Rightarrow> bytes \<Rightarrow> bytes \<times> unit result \<times> 'w) \<Rightarrow> ('s \<Rightarrow> nat \<Rightarrow> 's reading) \<Rightarrow> (nat \<Rightarrow> bool)
      \<Rightarrow> bool \<Rightarrow> bytes \<Rightarrow> 'w \<Rightarrow> 's \<Rightarrow> ('w, 's) exchange" where
  "transport_request name write_all read_all alloc connected request w s =
     (if length request > TRANSPORT_MAX_FRAME then
        ([], Some (Inl (transport_error CUBICLE_ERR_INVALID_ARGUMENT 0 (''invalid '' @ name @ '' transport request''))), w, s)
      else if \<not> connected then
        ([], Some (Inl (transport_error CUBICLE_ERR_INVALID_STATE 0 (name @ '' transport is not connected''))), w, s)
      else
        (let failed = (\<lambda>e. Some (Inl (transport_error CUBICLE_ERR_IO (errno_number e)
               (''failed to write '' @ name @ '' transport request'')))) in
         case write_all w (be32 (length request)) of
           (written, Inl e, w') \<Rightarrow> (written, failed e, w', s)
         | (written, Inr _, w') \<Rightarrow>
             (case (if request = [] then ([], Inr (), w') else write_all w' request) of
                (written', Inl e, w'') \<Rightarrow> (written @ written', failed e, w'', s)
              | (written', Inr _, w'') \<Rightarrow>
                  (case transport_response name read_all alloc s of
                     (r, s') \<Rightarrow> (written @ written', r, w'', s')))))"

definition unix_request ::
    "(nat \<Rightarrow> bool) \<Rightarrow> bool \<Rightarrow> bytes \<Rightarrow> write_outcome list \<Rightarrow> read_outcome list
      \<Rightarrow> (write_outcome list, read_outcome list) exchange" where
  "unix_request = transport_request ''Unix'' send_all read_all_fd"

definition tcp_request ::
    "(nat \<Rightarrow> bool) \<Rightarrow> bool \<Rightarrow> bytes \<Rightarrow> write_outcome list \<Rightarrow> read_outcome list
      \<Rightarrow> (write_outcome list, read_outcome list) exchange" where
  "tcp_request = transport_request ''TCP'' send_all read_all_fd"

definition tls_request ::
    "(nat \<Rightarrow> bool) \<Rightarrow> bool \<Rightarrow> bytes \<Rightarrow> tls_write list \<Rightarrow> tls_read list
      \<Rightarrow> (tls_write list, tls_read list) exchange" where
  "tls_request = transport_request ''TLS'' tls_write_all tls_read_all"

section \<open>The contract of a stream\<close>

text \<open>
  \<open>pending\<close> are the bytes that arrive before the stream fails, ends or falls silent. A read takes
  exactly what was asked for off their front, and succeeds when there is enough.
\<close>

locale byte_source =
  fixes read_all :: "'s \<Rightarrow> nat \<Rightarrow> 's reading"
    and pending :: "'s \<Rightarrow> bytes"
  assumes read_some: "read_all s n = Some (Inr d, s') \<Longrightarrow> pending s = d @ pending s' \<and> length d = n"
    and read_enough: "n \<le> length (pending s) \<Longrightarrow> \<exists>d s'. read_all s n = Some (Inr d, s')"
begin

lemma read_prefix:
  assumes "pending s = d @ rest"
  shows "\<exists>s'. read_all s (length d) = Some (Inr d, s') \<and> pending s' = rest"
proof -
  obtain d' s' where r: "read_all s (length d) = Some (Inr d', s')" using read_enough [of "length d" s] assms by auto
  then have "d @ rest = d' @ pending s'" "length d' = length d" using read_some [OF r] assms by simp_all
  then show ?thesis using r by simp
qed

lemma read_frame:
  assumes "pending s = be32 (length msg) @ msg @ rest" "msg \<noteq> []" "length msg < request_size" "length msg \<le> CUBICLE_API_MAX_FRAME"
  shows "\<exists>s'. read_api_frame read_all s request_size = Some (Inr msg, s') \<and> pending s' = rest"
proof -
  obtain s1 where s1: "read_all s 4 = Some (Inr (be32 (length msg)), s1)" "pending s1 = msg @ rest"
    using read_prefix [OF assms(1)] by auto
  obtain s2 where s2: "read_all s1 (length msg) = Some (Inr msg, s2)" "pending s2 = rest" using read_prefix [OF s1(2)] by blast
  have "of_be32 (be32 (length msg)) = length msg"
    using of_be32_be32 [of "length msg" "[]"] assms(4) by (simp add: CUBICLE_API_MAX_FRAME_def)
  then show ?thesis using s1 s2 assms(2-4) by (simp add: read_api_frame_def)
qed

lemma read_response:
  assumes "pending s = be32 (length msg) @ msg @ rest" "length msg \<le> TRANSPORT_MAX_FRAME" "\<forall>n. alloc n"
  shows "\<exists>s'. transport_response name read_all alloc s = (Some (Inr msg), s') \<and> pending s' = rest"
proof -
  obtain s1 where s1: "read_all s 4 = Some (Inr (be32 (length msg)), s1)" "pending s1 = msg @ rest"
    using read_prefix [OF assms(1)] by auto
  obtain s2 where s2: "read_all s1 (length msg) = Some (Inr msg, s2)" "pending s2 = rest" using read_prefix [OF s1(2)] by blast
  have "of_be32 (be32 (length msg)) = length msg"
    using of_be32_be32 [of "length msg" "[]"] assms(2) by (simp add: TRANSPORT_MAX_FRAME_def)
  then show ?thesis using s1 s2 assms(2,3) by (cases "msg = []") (simp_all add: transport_response_def Let_def)
qed

lemma frame_read:
  assumes "read_api_frame read_all s request_size = Some (Inr msg, s')"
  shows "pending s = be32 (length msg) @ msg @ pending s' \<and> msg \<noteq> [] \<and> length msg < request_size \<and> length msg \<le> CUBICLE_API_MAX_FRAME"
proof -
  obtain h s1 where h: "read_all s 4 = Some (Inr h, s1)"
    using assms by (auto simp: read_api_frame_def split: option.splits sum.splits)
  then have r: "read_all s1 (of_be32 h) = Some (Inr msg, s')" "of_be32 h \<noteq> 0" "of_be32 h < request_size" "of_be32 h \<le> CUBICLE_API_MAX_FRAME"
    using assms by (auto simp: read_api_frame_def Let_def split: if_splits)
  have 1: "pending s = h @ pending s1" "length h = 4" using read_some [OF h] by simp_all
  have 2: "pending s1 = msg @ pending s'" "length msg = of_be32 h" using read_some [OF r(1)] by simp_all
  obtain a b c d where "h = [a, b, c, d]" using 1(2) by (auto simp: numeral_eq_Suc length_Suc_conv)
  then have "be32 (length msg) = h" using be32_of_be32 2(2) by simp
  then show ?thesis using 1(1) 2 r(2-4) by auto
qed

end

text \<open>What is written is a prefix of the buffer, all of it exactly when the call succeeds.\<close>

locale byte_sink =
  fixes write_all :: "'w \<Rightarrow> bytes \<Rightarrow> bytes \<times> unit result \<times> 'w"
  assumes write_prefix: "write_all w buffer = (written, r, w') \<Longrightarrow> \<exists>rest. buffer = written @ rest \<and> (r = Inr () \<longleftrightarrow> rest = [])"
begin

lemma write_frame:
  assumes "write_api_frame_with_limit write_all w msg limit = (written, r, w')"
  shows "(\<exists>rest. be32 (length msg) @ msg = written @ rest) \<and> (r = Inr () \<longrightarrow> written = be32 (length msg) @ msg \<and> length msg \<le> limit)"
proof (cases "length msg > limit")
  case True
  then show ?thesis using assms by (auto simp: write_api_frame_with_limit_def)
next
  case False
  obtain a r1 w1 where a: "write_all w (be32 (length msg)) = (a, r1, w1)" by (metis prod_cases3)
  obtain b r2 w2 where b: "write_all w1 msg = (b, r2, w2)" by (metis prod_cases3)
  obtain ra rb where "be32 (length msg) = a @ ra" "r1 = Inr () \<longleftrightarrow> ra = []" "msg = b @ rb" "r2 = Inr () \<longleftrightarrow> rb = []"
    using write_prefix [OF a] write_prefix [OF b] by blast
  moreover have "(written, r, w') = (case r1 of Inl e \<Rightarrow> (a, Inl e, w1) | Inr _ \<Rightarrow> (a @ b, r2, w2))"
    using assms False a b by (cases r1) (auto simp: write_api_frame_with_limit_def)
  ultimately show ?thesis using False by (cases r1; cases r2) force+
qed

end

section \<open>The streams keep the contract\<close>

fun fd_pending :: "read_outcome list \<Rightarrow> bytes" where
  "fd_pending [] = []"
| "fd_pending (RError e # rs) = (if e = EINTR then fd_pending rs else [])"
| "fd_pending (REof # rs) = []"
| "fd_pending (RData d # rs) = d @ fd_pending rs"

fun tls_pending :: "tls_read list \<Rightarrow> bytes" where
  "tls_pending [] = []"
| "tls_pending (TlsWant # rs) = tls_pending rs"
| "tls_pending (TlsFailed # rs) = []"
| "tls_pending (TlsData d # rs) = d @ tls_pending rs"

fun poll_pending :: "poll_outcome list \<Rightarrow> bytes" where
  "poll_pending [] = []"
| "poll_pending (PollTimeout # ps) = []"
| "poll_pending (PollError e # ps) = (if e = EINTR then poll_pending ps else [])"
| "poll_pending (PollHangup # ps) = []"
| "poll_pending (PollRead (RError e) # ps) = (if e = EINTR then poll_pending ps else [])"
| "poll_pending (PollRead REof # ps) = []"
| "poll_pending (PollRead (RData d) # ps) = d @ poll_pending ps"

lemma after_Some_Inr: "after d r = Some (Inr d', s) \<longleftrightarrow> (\<exists>d''. r = Some (Inr d'', s) \<and> d' = d @ d'')"
  by (cases r) (auto simp: after_def split: sum.splits)

lemma read_all_fd_step [simp]:
  "read_all_fd rs 0 = Some (Inr [], rs)"
  "0 < n \<Longrightarrow> read_all_fd [] n = None"
  "0 < n \<Longrightarrow> read_all_fd (RError e # rs) n = (if e = EINTR then read_all_fd rs n else Some (Inl e, rs))"
  "0 < n \<Longrightarrow> read_all_fd (REof # rs) n = Some (Inl ECONNRESET, rs)"
  "0 < n \<Longrightarrow> read_all_fd (RData d # rs) n =
     (if n < length d then Some (Inr (take n d), RData (drop n d) # rs) else after d (read_all_fd rs (n - length d)))"
  by (subst read_all_fd.simps, simp)+

lemma read_all_fd_some:
  "read_all_fd rs n = Some (Inr d, rs') \<Longrightarrow> fd_pending rs = d @ fd_pending rs' \<and> length d = n"
proof (induction rs arbitrary: n d)
  case Nil
  then show ?case by (cases "n = 0") auto
next
  case (Cons r rs)
  then show ?case by (cases r; cases "n = 0") (auto simp: after_Some_Inr split: if_splits)
qed

lemma read_all_fd_enough: "n \<le> length (fd_pending rs) \<Longrightarrow> \<exists>d rs'. read_all_fd rs n = Some (Inr d, rs')"
proof (induction rs arbitrary: n)
  case (Cons r rs)
  show ?case
  proof (cases r)
    case (RData d)
    then have "n - length d \<le> length (fd_pending rs)" using Cons.prems by simp
    then obtain d' rs' where "read_all_fd rs (n - length d) = Some (Inr d', rs')" using Cons.IH by blast
    then show ?thesis using RData by (cases "n = 0") (auto simp: after_Some_Inr)
  qed (use Cons in \<open>cases "n = 0"; auto split: if_splits\<close>)+
qed simp

interpretation fd: byte_source read_all_fd fd_pending
  using read_all_fd_some read_all_fd_enough by unfold_locales auto

lemma tls_read_all_step [simp]:
  "tls_read_all rs 0 = Some (Inr [], rs)"
  "0 < n \<Longrightarrow> tls_read_all [] n = None"
  "0 < n \<Longrightarrow> tls_read_all (TlsWant # rs) n = tls_read_all rs n"
  "0 < n \<Longrightarrow> tls_read_all (TlsFailed # rs) n = Some (Inl ECONNRESET, rs)"
  by (subst tls_read_all.simps, simp)+

text \<open>The limit of a single \<open>SSL_read\<close> does not show: the loop goes on within the same piece.\<close>

lemma tls_read_all_data [simp]:
  "0 < n \<Longrightarrow> tls_read_all (TlsData d # rs) n =
     (if n < length d then Some (Inr (take n d), TlsData (drop n d) # rs) else after d (tls_read_all rs (n - length d)))"
proof (induction n arbitrary: d rule: less_induct)
  case (less n)
  let ?c = "min n INT32_MAX"
  have c: "0 < ?c" using less.prems by (simp add: INT32_MAX_def)
  show ?case
  proof (cases "?c < length d \<and> ?c < n")
    case True
    then have "tls_read_all (TlsData d # rs) n = after (take ?c d) (tls_read_all (TlsData (drop ?c d) # rs) (n - ?c))"
      by (subst tls_read_all.simps) (auto simp: Let_def)
    also have "\<dots> = after (take ?c d) (if n - ?c < length (drop ?c d)
        then Some (Inr (take (n - ?c) (drop ?c d)), TlsData (drop (n - ?c) (drop ?c d)) # rs)
        else after (drop ?c d) (tls_read_all rs (n - ?c - length (drop ?c d))))"
      using less.IH [of "n - ?c" "drop ?c d"] True c by simp
    also have "\<dots> = (if n < length d then Some (Inr (take n d), TlsData (drop n d) # rs) else after d (tls_read_all rs (n - length d)))"
    proof -
      have "take ?c d @ take (n - ?c) (drop ?c d) = take n d" using True by (simp flip: take_add)
      moreover have "after (take ?c d) (after (drop ?c d) r) = after d r" for r :: "tls_read list reading"
        by (cases r) (auto simp: after_def split: sum.splits)
      moreover have "n - ?c < length (drop ?c d) \<longleftrightarrow> n < length d" "drop (n - ?c) (drop ?c d) = drop n d"
        "n - ?c - length (drop ?c d) = n - length d"
        using True by auto
      ultimately show ?thesis by (cases "n < length d") (simp_all add: after_def del: drop_drop)
    qed
    finally show ?thesis .
  next
    case False
    then have "?c < length d \<longleftrightarrow> n < length d" "n < length d \<Longrightarrow> ?c = n" by linarith+
    moreover have "tls_read_all (TlsData d # rs) n =
        (if ?c < length d then after (take ?c d) (tls_read_all (TlsData (drop ?c d) # rs) (n - ?c))
         else after d (tls_read_all rs (n - length d)))"
      using less.prems by (subst tls_read_all.simps) (simp add: Let_def)
    ultimately show ?thesis by (cases "n < length d") (simp_all add: after_def)
  qed
qed

lemma tls_read_all_some:
  "tls_read_all rs n = Some (Inr d, rs') \<Longrightarrow> tls_pending rs = d @ tls_pending rs' \<and> length d = n"
proof (induction rs arbitrary: n d)
  case Nil
  then show ?case by (cases "n = 0") auto
next
  case (Cons r rs)
  then show ?case by (cases r; cases "n = 0") (auto simp: after_Some_Inr split: if_splits)
qed

lemma tls_read_all_enough: "n \<le> length (tls_pending rs) \<Longrightarrow> \<exists>d rs'. tls_read_all rs n = Some (Inr d, rs')"
proof (induction rs arbitrary: n)
  case (Cons r rs)
  show ?case
  proof (cases r)
    case (TlsData d)
    then have "n - length d \<le> length (tls_pending rs)" using Cons.prems by simp
    then obtain d' rs' where "tls_read_all rs (n - length d) = Some (Inr d', rs')" using Cons.IH by blast
    then show ?thesis using TlsData by (cases "n = 0") (auto simp: after_Some_Inr)
  qed (use Cons in \<open>cases "n = 0"; auto\<close>)+
qed simp

interpretation tls: byte_source tls_read_all tls_pending
  using tls_read_all_some tls_read_all_enough by unfold_locales auto

lemma poll_read_step [simp]:
  "controller_rpc_read_all_timeout ps 0 = (Inr [], ps)"
  "0 < n \<Longrightarrow> controller_rpc_read_all_timeout [] n = (Inl ETIMEDOUT, [])"
  "0 < n \<Longrightarrow> controller_rpc_read_all_timeout (PollTimeout # ps) n = (Inl ETIMEDOUT, ps)"
  "0 < n \<Longrightarrow> controller_rpc_read_all_timeout (PollError e # ps) n =
     (if e = EINTR then controller_rpc_read_all_timeout ps n else (Inl e, ps))"
  "0 < n \<Longrightarrow> controller_rpc_read_all_timeout (PollHangup # ps) n = (Inl ECONNRESET, ps)"
  "0 < n \<Longrightarrow> controller_rpc_read_all_timeout (PollRead (RError e) # ps) n =
     (if e = EINTR then controller_rpc_read_all_timeout ps n else (Inl e, ps))"
  "0 < n \<Longrightarrow> controller_rpc_read_all_timeout (PollRead REof # ps) n = (Inl ECONNRESET, ps)"
  "0 < n \<Longrightarrow> controller_rpc_read_all_timeout (PollRead (RData d) # ps) n =
     (if n < length d then (Inr (take n d), PollRead (RData (drop n d)) # ps)
      else (let (r, ps'') = controller_rpc_read_all_timeout ps (n - length d)
            in (case r of Inl e \<Rightarrow> Inl e | Inr d' \<Rightarrow> Inr (d @ d'), ps'')))"
  by (subst controller_rpc_read_all_timeout.simps, simp)+

lemma poll_read_some:
  "controller_rpc_read_all_timeout ps n = (Inr d, ps') \<Longrightarrow> poll_pending ps = d @ poll_pending ps' \<and> length d = n"
proof (induction ps arbitrary: n d)
  case Nil
  then show ?case by (cases "n = 0") auto
next
  case (Cons p ps)
  show ?case
  proof (cases "n = 0")
    case False
    show ?thesis
    proof (cases p)
      case (PollRead r)
      then show ?thesis using Cons False by (cases r) (auto split: if_splits prod.splits sum.splits)
    qed (use Cons False in \<open>auto split: if_splits\<close>)
  qed (use Cons.prems in auto)
qed

lemma poll_read_enough:
  "n \<le> length (poll_pending ps) \<Longrightarrow> \<exists>d ps'. controller_rpc_read_all_timeout ps n = (Inr d, ps')"
proof (induction ps arbitrary: n)
  case (Cons p ps)
  show ?case
  proof (cases "n = 0")
    case False
    show ?thesis
    proof (cases p)
      case (PollRead r)
      show ?thesis
      proof (cases r)
        case (RData d)
        then have "n - length d \<le> length (poll_pending ps)" using Cons.prems PollRead by simp
        then obtain d' ps' where "controller_rpc_read_all_timeout ps (n - length d) = (Inr d', ps')" using Cons.IH by blast
        then show ?thesis using RData PollRead False by auto
      qed (use Cons False PollRead in \<open>auto split: if_splits\<close>)
    qed (use Cons False in \<open>auto split: if_splits\<close>)
  qed simp
qed simp

interpretation poll: byte_source "\<lambda>ps n. Some (controller_rpc_read_all_timeout ps n)" poll_pending
  using poll_read_some poll_read_enough by unfold_locales auto

lemma send_all_prefix:
  "send_all ws buffer = (written, r, ws') \<Longrightarrow> \<exists>rest. buffer = written @ rest \<and> (r = Inr () \<longleftrightarrow> rest = [])"
proof (induction ws buffer arbitrary: written rule: send_all.induct)
  case (4 n ws v va)
  show ?case
  proof (cases "n = 0")
    case False
    then obtain w where w: "send_all ws (drop n (v # va)) = (w, r, ws')" "written = take n (v # va) @ w"
      using "4.prems" by (auto split: prod.splits)
    from "4.IH" [OF False w(1)] obtain rest where "drop n (v # va) = w @ rest" "r = Inr () \<longleftrightarrow> rest = []" by blast
    then show ?thesis
      using w(2) append_take_drop_id [of n "v # va"] by (intro exI [of _ rest]) (auto simp del: append_take_drop_id)
  qed (use "4.prems" in auto)
qed (auto split: if_splits)

interpretation sent: byte_sink send_all
  using send_all_prefix by unfold_locales

lemma tls_write_all_prefix:
  "tls_write_all ws buffer = (written, r, ws') \<Longrightarrow> \<exists>rest. buffer = written @ rest \<and> (r = Inr () \<longleftrightarrow> rest = [])"
proof (induction ws arbitrary: buffer written)
  case (Cons x ws)
  show ?case
  proof (cases "buffer = []")
    case False
    show ?thesis
    proof (cases x)
      case (TlsAccept n)
      let ?k = "min (Suc n) INT32_MAX"
      obtain w where w: "tls_write_all ws (drop ?k buffer) = (w, r, ws')" "written = take ?k buffer @ w"
        using Cons.prems False TlsAccept by (auto simp: tls_write_all.simps [of "_ # _"] Let_def split: prod.splits)
      obtain rest where "drop ?k buffer = w @ rest" "r = Inr () \<longleftrightarrow> rest = []" using Cons.IH [OF w(1)] by blast
      then show ?thesis
        using w(2) append_take_drop_id [of ?k buffer] by (intro exI [of _ rest]) (auto simp del: append_take_drop_id)
    qed (use Cons False in \<open>auto simp: tls_write_all.simps [of "_ # _"]\<close>)
  qed (use Cons.prems in \<open>simp add: tls_write_all.simps\<close>)
qed (auto simp: tls_write_all.simps split: if_splits)

interpretation tls_sent: byte_sink tls_write_all
  using tls_write_all_prefix by unfold_locales

interpretation written: byte_sink cubicle_write_all
  using write_all_cases by unfold_locales blast

section \<open>A request and its response\<close>

text \<open>A stream in both directions, on which writing does not fail.\<close>

locale transport = byte_source read_all pending + byte_sink write_all
  for read_all :: "'s \<Rightarrow> nat \<Rightarrow> 's reading" and pending :: "'s \<Rightarrow> bytes"
    and write_all :: "'w \<Rightarrow> bytes \<Rightarrow> bytes \<times> unit result \<times> 'w" +
  fixes fine :: "'w \<Rightarrow> bool"
  assumes write_fine: "fine w \<Longrightarrow> \<exists>w'. write_all w buffer = (buffer, Inr (), w') \<and> fine w'"
begin

lemma request_response:
  assumes "fine w" "length request \<le> TRANSPORT_MAX_FRAME" "\<forall>n. alloc n"
    and "pending s = be32 (length response) @ response @ later" "length response \<le> TRANSPORT_MAX_FRAME"
  shows "\<exists>w' s'. transport_request name write_all read_all alloc True request w s
      = (be32 (length request) @ request, Some (Inr response), w', s') \<and> pending s' = later"
proof -
  obtain w1 where w1: "write_all w (be32 (length request)) = (be32 (length request), Inr (), w1)" "fine w1"
    using write_fine [OF assms(1)] by blast
  obtain w2 where w2: "write_all w1 request = (request, Inr (), w2)" using write_fine [OF w1(2)] by blast
  obtain s' where s': "transport_response name read_all alloc s = (Some (Inr response), s')" "pending s' = later"
    using read_response [OF assms(4,5,3)] by blast
  show ?thesis using assms(2) w1 w2 s' by (cases "request = []") (simp_all add: transport_request_def)
qed

end

fun write_fine :: "write_outcome \<Rightarrow> bool" where
  "write_fine (WError e) \<longleftrightarrow> e = EINTR"
| "write_fine (WShort n) \<longleftrightarrow> n \<noteq> 0"

lemma send_all_fine: "list_all write_fine ws \<Longrightarrow> \<exists>ws'. send_all ws buffer = (buffer, Inr (), ws') \<and> list_all write_fine ws'"
proof (induction ws buffer rule: send_all.induct)
  case (4 n ws v va)
  then show ?case by (auto split: prod.splits)
qed auto

lemma tls_write_all_fine:
  "list_all (\<lambda>x. x \<noteq> TlsWriteFailed) ws \<Longrightarrow>
    \<exists>ws'. tls_write_all ws buffer = (buffer, Inr (), ws') \<and> list_all (\<lambda>x. x \<noteq> TlsWriteFailed) ws'"
proof (induction ws arbitrary: buffer)
  case (Cons x ws)
  show ?case
  proof (cases x)
    case (TlsAccept n)
    obtain ws' where "tls_write_all ws (drop (min (Suc n) INT32_MAX) buffer) = (drop (min (Suc n) INT32_MAX) buffer, Inr (), ws')"
      "list_all (\<lambda>x. x \<noteq> TlsWriteFailed) ws'"
      using Cons by fastforce
    then show ?thesis using Cons.prems TlsAccept by (cases "buffer = []") (simp_all add: tls_write_all.simps [of "_ # _"])
  qed (use Cons in \<open>cases "buffer = []"; auto simp: tls_write_all.simps [of "_ # _"]\<close>)+
qed (simp add: tls_write_all.simps)

interpretation plain: transport read_all_fd fd_pending send_all "list_all write_fine"
  using send_all_fine by unfold_locales

interpretation secure: transport tls_read_all tls_pending tls_write_all "list_all (\<lambda>x. x \<noteq> TlsWriteFailed)"
  using tls_write_all_fine by unfold_locales

text \<open>C8. (\<open>unix_request\<close>, \<open>tcp_request\<close>, \<open>tls_request\<close>, \<open>read_api_frame\<close>, \<open>write_api_frame\<close>.) However the streams
  between a client and the manager cut the bytes into pieces, and whatever interruptions there
  are, the manager reads the request of the client and nothing else of its stream, and the
  client's call returns the response that the manager wrote and nothing else of its stream.\<close>

theorem transport_roundtrip:
  assumes "list_all write_fine ws" "list_all (\<lambda>x. x \<noteq> TlsWriteFailed) tws" "\<forall>n. alloc n"
    and "request \<noteq> []" "length request < 8192"
    and "write_api_frame cubicle_write_all mws response = (answer, Inr (), mws')" "fd_pending rs = answer @ later"
    and "write_api_frame tls_write_all mtws response = (tls_answer, Inr (), mtws')" "tls_pending trs = tls_answer @ later"
    and "fd_pending ms = fst (unix_request alloc True request ws rs) @ rest"
    and "tls_pending mts = fst (tls_request alloc True request tws trs) @ rest"
  shows "(\<exists>ws' rs'. unix_request alloc True request ws rs = (be32 (length request) @ request, Some (Inr response), ws', rs')
          \<and> fd_pending rs' = later)
    \<and> (\<exists>ws' rs'. tcp_request alloc True request ws rs = (be32 (length request) @ request, Some (Inr response), ws', rs')
          \<and> fd_pending rs' = later)
    \<and> (\<exists>tws' trs'. tls_request alloc True request tws trs = (be32 (length request) @ request, Some (Inr response), tws', trs')
          \<and> tls_pending trs' = later)
    \<and> (\<exists>ms'. read_api_frame read_all_fd ms 8192 = Some (Inr request, ms') \<and> fd_pending ms' = rest)
    \<and> (\<exists>mts'. read_api_frame tls_read_all mts 8192 = Some (Inr request, mts') \<and> tls_pending mts' = rest)"
proof -
  have a: "answer = be32 (length response) @ response" "length response \<le> CUBICLE_API_MAX_FRAME"
    using written.write_frame [OF assms(6) [unfolded write_api_frame_def]] by simp_all
  have t: "tls_answer = be32 (length response) @ response"
    using tls_sent.write_frame [OF assms(8) [unfolded write_api_frame_def]] by simp
  have l: "length request \<le> TRANSPORT_MAX_FRAME" "length response \<le> TRANSPORT_MAX_FRAME" "length request \<le> CUBICLE_API_MAX_FRAME"
    using assms(5) a(2) by (simp_all add: TRANSPORT_MAX_FRAME_def CUBICLE_API_MAX_FRAME_def)
  have "fd_pending rs = be32 (length response) @ response @ later" "tls_pending trs = be32 (length response) @ response @ later"
    using a(1) t assms(7,9) by simp_all
  note plain = plain.request_response [OF assms(1) l(1) assms(3) this(1) l(2)]
    and secure = secure.request_response [OF assms(2) l(1) assms(3) this(2) l(2)]
  have u: "\<exists>ws' rs'. unix_request alloc True request ws rs = (be32 (length request) @ request, Some (Inr response), ws', rs')
    \<and> fd_pending rs' = later"
    using plain [of "''Unix''"] by (simp add: unix_request_def)
  have c: "\<exists>ws' rs'. tcp_request alloc True request ws rs = (be32 (length request) @ request, Some (Inr response), ws', rs')
    \<and> fd_pending rs' = later"
    using plain [of "''TCP''"] by (simp add: tcp_request_def)
  have v: "\<exists>tws' trs'. tls_request alloc True request tws trs = (be32 (length request) @ request, Some (Inr response), tws', trs')
    \<and> tls_pending trs' = later"
    using secure [of "''TLS''"] by (simp add: tls_request_def)
  have "fd_pending ms = be32 (length request) @ request @ rest" "tls_pending mts = be32 (length request) @ request @ rest"
    using assms(10,11) u v by auto
  then show ?thesis
    using u c v fd.read_frame [OF _ assms(4,5) l(3)] tls.read_frame [OF _ assms(4,5) l(3)] by blast
qed

theorem transport_roundtrip_witness:
  "\<exists>ws' rs'. unix_request (\<lambda>_. True) True ''ping'' [WShort 1] [RData (be32 4 @ ''po''), RError EINTR, RData ''ng!'']
     = (be32 4 @ ''ping'', Some (Inr ''pong''), ws', rs') \<and> fd_pending rs' = ''!''"
proof -
  let ?ws = "[WShort 1]" and ?rs = "[RData (be32 4 @ ''po''), RError EINTR, RData ''ng!'']" and ?tws = "[TlsWriteWant, TlsAccept 1]"
    and ?trs = "[TlsData (be32 4), TlsWant, TlsData ''pong!'']"
  let ?ms = "[RData (fst (unix_request (\<lambda>_. True) True ''ping'' ?ws ?rs))]"
    and ?mts = "[TlsData (fst (tls_request (\<lambda>_. True) True ''ping'' ?tws ?trs))]"
  have w: "write_api_frame cubicle_write_all [] ''pong'' = (be32 4 @ ''pong'', Inr (), [])"
    by (simp add: write_api_frame_def write_api_frame_with_limit_def CUBICLE_API_MAX_FRAME_def be32_def)
  have t: "write_api_frame tls_write_all [] ''pong'' = (be32 4 @ ''pong'', Inr (), [])"
    by (simp add: write_api_frame_def write_api_frame_with_limit_def CUBICLE_API_MAX_FRAME_def be32_def tls_write_all.simps)
  show ?thesis
    using transport_roundtrip [of ?ws ?tws "\<lambda>_. True" "''ping''" "[]" "''pong''" "be32 4 @ ''pong''" "[]" ?rs "''!''"
        "[]" "be32 4 @ ''pong''" "[]" ?trs ?ms "[]" ?mts] w t by (simp add: eval_nat_numeral)
qed

end
