(* ===== verification/Controller_Link.thy ===== *)
theory Controller_Link
  imports Frames
begin

text \<open>
  The manager's connections to controllers (\<open>src/src/manager/main.c\<close>): the cache of sixteen open
  descriptors that a client connection keeps (\<open>manager_controller_cache_*\<close>), and a request to
  a controller over one of them (\<open>controller_rpc_call_fd\<close>,
  \<open>manager_connection_controller_rpc_call\<close>).
\<close>

section \<open>The cache\<close>

record cache_entry =
  ce_fd :: "nat option"
  ce_last_used_ms :: "64 word"
  ce_socket_path :: bytes

text \<open>
  The cache, the open descriptors with the sockets they are connected to, and what was written to
  each socket so far.
\<close>

record links =
  lk_cache :: "cache_entry list"
  lk_open :: "(nat \<times> bytes) list"
  lk_written :: "(bytes \<times> bytes) list"

text \<open>
  How the calls of one request end: two readings of the clock, \<open>connect\<close> with the descriptors
  that are open, the writes and the reads.
\<close>

record link_io =
  li_now_ms :: "64 word"
  li_used_ms :: "64 word"
  li_connect :: "nat list \<Rightarrow> nat result"
  li_writes :: "write_outcome list"
  li_polls :: "poll_outcome list"

definition CUBICLE_MANAGER_CONTROLLER_CACHE_SIZE :: nat where "CUBICLE_MANAGER_CONTROLLER_CACHE_SIZE = 16"

definition CUBICLE_MANAGER_CONTROLLER_CACHE_MAX_IDLE_MS :: "64 word" where
  "CUBICLE_MANAGER_CONTROLLER_CACHE_MAX_IDLE_MS = 90000"

definition free_entry :: cache_entry where
  "free_entry = \<lparr>ce_fd = None, ce_last_used_ms = 0, ce_socket_path = []\<rparr>"

definition manager_controller_cache_init :: links where
  "manager_controller_cache_init =
     \<lparr>lk_cache = replicate CUBICLE_MANAGER_CONTROLLER_CACHE_SIZE free_entry, lk_open = [], lk_written = []\<rparr>"

definition close_fd :: "nat option \<Rightarrow> (nat \<times> bytes) list \<Rightarrow> (nat \<times> bytes) list" where
  "close_fd fd fds = filter (\<lambda>(n, _). Some n \<noteq> fd) fds"

definition manager_controller_cache_close :: "links \<Rightarrow> links" where
  "manager_controller_cache_close l =
     l\<lparr>lk_cache := map (\<lambda>_. free_entry) (lk_cache l),
       lk_open := fold close_fd (map ce_fd (lk_cache l)) (lk_open l)\<rparr>"

definition manager_controller_cache_invalidate :: "nat \<Rightarrow> links \<Rightarrow> links" where
  "manager_controller_cache_invalidate i l =
     l\<lparr>lk_cache := (lk_cache l)[i := free_entry], lk_open := close_fd (ce_fd (lk_cache l ! i)) (lk_open l)\<rparr>"

text \<open>\<open>sockaddr_un\<close> holds 107 bytes of a path.\<close>

definition connect_controller_socket :: "link_io \<Rightarrow> bytes \<Rightarrow> links \<Rightarrow> nat result \<times> links" where
  "connect_controller_socket io socket_path l =
     (if length socket_path \<ge> 108 then (Inl EINVAL, l)
      else case li_connect io (map fst (lk_open l)) of
        Inl e \<Rightarrow> (Inl e, l)
      | Inr fd \<Rightarrow> (Inr fd, l\<lparr>lk_open := (fd, socket_path) # lk_open l\<rparr>))"

datatype search_outcome = Hit nat | Stale nat | Miss "nat option"

definition entry_stale :: "64 word \<Rightarrow> cache_entry \<Rightarrow> bool" where
  "entry_stale now_ms e \<longleftrightarrow> now_ms > 0 \<and> ce_last_used_ms e > 0
     \<and> now_ms - ce_last_used_ms e > CUBICLE_MANAGER_CONTROLLER_CACHE_MAX_IDLE_MS"

fun cache_search :: "64 word \<Rightarrow> bytes \<Rightarrow> nat \<Rightarrow> nat option \<Rightarrow> cache_entry list \<Rightarrow> search_outcome" where
  "cache_search now_ms socket_path i empty_slot [] = Miss empty_slot"
| "cache_search now_ms socket_path i empty_slot (e # es) =
     (if ce_fd e \<noteq> None \<and> ce_socket_path e = socket_path then (if entry_stale now_ms e then Stale i else Hit i)
      else cache_search now_ms socket_path (Suc i)
        (if ce_fd e = None \<and> empty_slot = None then Some i else empty_slot) es)"

text \<open>A new connection is put in the slot \<open>i\<close>, which is free.\<close>

definition cache_connect :: "link_io \<Rightarrow> bytes \<Rightarrow> nat \<Rightarrow> links \<Rightarrow> nat result \<times> links" where
  "cache_connect io socket_path i l =
     (case connect_controller_socket io socket_path l of
        (Inl e, l') \<Rightarrow> (Inl e, l'\<lparr>lk_cache := (lk_cache l')[i := (lk_cache l' ! i)\<lparr>ce_fd := None, ce_socket_path := []\<rparr>]\<rparr>)
      | (Inr fd, l') \<Rightarrow>
          (Inr i, l'\<lparr>lk_cache := (lk_cache l')
             [i := \<lparr>ce_fd = Some fd, ce_last_used_ms = li_now_ms io, ce_socket_path = socket_path\<rparr>]\<rparr>))"

definition manager_controller_cache_get :: "link_io \<Rightarrow> bytes \<Rightarrow> links \<Rightarrow> nat result \<times> links" where
  "manager_controller_cache_get io socket_path l =
     (if length socket_path \<ge> 4096 then (Inl EINVAL, l)
      else case cache_search (li_now_ms io) socket_path 0 None (lk_cache l) of
        Hit i \<Rightarrow> (Inr i, l)
      | Stale i \<Rightarrow> cache_connect io socket_path i (manager_controller_cache_invalidate i l)
      | Miss (Some i) \<Rightarrow> cache_connect io socket_path i l
      | Miss None \<Rightarrow> cache_connect io socket_path 0 (manager_controller_cache_invalidate 0 l))"

section \<open>A request to a controller\<close>

definition controller_response :: "(nat \<Rightarrow> bool) \<Rightarrow> poll_outcome list \<Rightarrow> bytes result" where
  "controller_response alloc polls =
     (case controller_rpc_read_all_timeout polls 4 of
        (Inl e, _) \<Rightarrow> Inl e
      | (Inr length_network, polls') \<Rightarrow>
          (let response_length = of_be32 length_network in
           if response_length = 0 \<or> response_length > CUBICLE_CONTROLLER_PROXY_MAX_FRAME then Inl EMSGSIZE
           else if \<not> alloc (response_length + 1) then Inl ENOMEM
           else map_sum id cstr (fst (controller_rpc_read_all_timeout polls' response_length))))"

text \<open>The bytes written and the response. The request is built for the session of the relay.\<close>

definition controller_rpc_call_fd ::
    "(bytes \<Rightarrow> json option) \<Rightarrow> (nat \<Rightarrow> bool) \<Rightarrow> link_io \<Rightarrow> bytes \<Rightarrow> bytes \<Rightarrow> bytes \<times> bytes result" where
  "controller_rpc_call_fd rd alloc io meth params =
     (case cubicle_rpc_request rd CUBICLE_API_MAX_FRAME ''relay-1'' (Some ''manager-relay'') meth params of
        Inl e \<Rightarrow> ([], Inl e)
      | Inr request \<Rightarrow>
          (case cubicle_write_all (li_writes io) (be32 (length request)) of
             (written, Inl e, _) \<Rightarrow> (written, Inl e)
           | (written, Inr _, ws) \<Rightarrow>
               (case cubicle_write_all ws request of
                  (written', Inl e, _) \<Rightarrow> (written @ written', Inl e)
                | (written', Inr _, _) \<Rightarrow> (written @ written', controller_response alloc (li_polls io)))))"

text \<open>What is written to a descriptor reaches the socket it is connected to.\<close>

definition write_to :: "nat option \<Rightarrow> bytes \<Rightarrow> links \<Rightarrow> links" where
  "write_to fd data l =
     (if data = [] then l
      else case find (\<lambda>(n, _). Some n = fd) (lk_open l) of
        None \<Rightarrow> l
      | Some (_, socket_path) \<Rightarrow> l\<lparr>lk_written := lk_written l @ [(socket_path, data)]\<rparr>)"

definition manager_connection_controller_rpc_call ::
    "(bytes \<Rightarrow> json option) \<Rightarrow> (nat \<Rightarrow> bool) \<Rightarrow> link_io \<Rightarrow> bytes \<Rightarrow> bytes \<Rightarrow> bytes \<Rightarrow> links \<Rightarrow> bytes result \<times> links" where
  "manager_connection_controller_rpc_call rd alloc io socket_path meth params l =
     (case manager_controller_cache_get io socket_path l of
        (Inl e, l') \<Rightarrow> (Inl e, l')
      | (Inr i, l') \<Rightarrow>
          (let e = lk_cache l' ! i; (data, r) = controller_rpc_call_fd rd alloc io meth params;
               l'' = write_to (ce_fd e) data l' in
           case r of
             Inr response \<Rightarrow> (Inr response, l''\<lparr>lk_cache := (lk_cache l'')[i := e\<lparr>ce_last_used_ms := li_used_ms io\<rparr>]\<rparr>)
           | Inl e \<Rightarrow> (Inl e, manager_controller_cache_invalidate i l'')))"

section \<open>The cache refers to open descriptors, one for each socket\<close>

definition holds :: "links \<Rightarrow> nat \<Rightarrow> nat \<Rightarrow> bytes \<Rightarrow> bool" where
  "holds l i fd socket_path \<longleftrightarrow> i < CUBICLE_MANAGER_CONTROLLER_CACHE_SIZE
     \<and> ce_fd (lk_cache l ! i) = Some fd \<and> ce_socket_path (lk_cache l ! i) = socket_path"

definition links_ok :: "links \<Rightarrow> bool" where
  "links_ok l \<longleftrightarrow> length (lk_cache l) = CUBICLE_MANAGER_CONTROLLER_CACHE_SIZE
     \<and> distinct (map fst (lk_open l))
     \<and> (\<forall>fd p. (fd, p) \<in> set (lk_open l) \<longleftrightarrow> (\<exists>i. holds l i fd p))
     \<and> (\<forall>i j fd fd' p p'. holds l i fd p \<longrightarrow> holds l j fd' p' \<longrightarrow> fd = fd' \<or> p = p' \<longrightarrow> i = j)
     \<and> (\<forall>i fd p. holds l i fd p \<longrightarrow> length p < 108)"

lemma links_okE:
  assumes "links_ok l"
  shows "length (lk_cache l) = CUBICLE_MANAGER_CONTROLLER_CACHE_SIZE" "distinct (map fst (lk_open l))"
    "(fd, p) \<in> set (lk_open l) \<longleftrightarrow> (\<exists>i. holds l i fd p)"
    "holds l i fd p \<Longrightarrow> holds l j fd' p' \<Longrightarrow> fd = fd' \<or> p = p' \<Longrightarrow> i = j"
    "holds l i fd p \<Longrightarrow> length p < 108"
  using assms unfolding links_ok_def by blast+

lemma links_ok_cong:
  "lk_cache l = lk_cache l' \<Longrightarrow> lk_open l = lk_open l' \<Longrightarrow> links_ok l = links_ok l'"
  by (simp add: links_ok_def holds_def)

lemma init_ok: "links_ok manager_controller_cache_init"
  by (auto simp: links_ok_def holds_def manager_controller_cache_init_def free_entry_def)

lemma holds_update:
  assumes "length (lk_cache l) = CUBICLE_MANAGER_CONTROLLER_CACHE_SIZE" "i < CUBICLE_MANAGER_CONTROLLER_CACHE_SIZE"
    and "lk_cache l' = (lk_cache l)[i := e]"
  shows "holds l' j fd p \<longleftrightarrow> (if j = i then ce_fd e = Some fd \<and> ce_socket_path e = p else holds l j fd p)"
  using assms by (auto simp: holds_def nth_list_update)

lemma invalidate_ok:
  assumes "links_ok l" "i < CUBICLE_MANAGER_CONTROLLER_CACHE_SIZE"
  shows "links_ok (manager_controller_cache_invalidate i l)"
    and "holds (manager_controller_cache_invalidate i l) j fd p \<longleftrightarrow> j \<noteq> i \<and> holds l j fd p"
proof -
  let ?l = "manager_controller_cache_invalidate i l"
  note l = links_okE [OF assms(1)]
  have h: "holds ?l j fd p \<longleftrightarrow> j \<noteq> i \<and> holds l j fd p" for j fd p
    using holds_update [OF l(1) assms(2), of ?l free_entry j fd p] by (simp add: manager_controller_cache_invalidate_def free_entry_def)
  then show "holds ?l j fd p \<longleftrightarrow> j \<noteq> i \<and> holds l j fd p" .
  have "(fd, p) \<in> set (lk_open ?l) \<longleftrightarrow> (\<exists>j. holds ?l j fd p)" for fd p
  proof -
    have "(fd, p) \<in> set (lk_open ?l) \<longleftrightarrow> (\<exists>j. holds l j fd p) \<and> ce_fd (lk_cache l ! i) \<noteq> Some fd"
      using l(3) by (auto simp: manager_controller_cache_invalidate_def close_fd_def)
    also have "\<dots> \<longleftrightarrow> (\<exists>j. j \<noteq> i \<and> holds l j fd p)"
      using l(4) assms(2) by (metis holds_def)
    finally show ?thesis by (simp add: h)
  qed
  moreover have "distinct (map fst (lk_open ?l))"
    using l(2) by (simp add: manager_controller_cache_invalidate_def close_fd_def distinct_map_filter)
  moreover have "length (lk_cache ?l) = CUBICLE_MANAGER_CONTROLLER_CACHE_SIZE"
    using l(1) by (simp add: manager_controller_cache_invalidate_def)
  moreover have "\<forall>i j fd fd' p p'. holds ?l i fd p \<longrightarrow> holds ?l j fd' p' \<longrightarrow> fd = fd' \<or> p = p' \<longrightarrow> i = j"
    using l(4) h by blast
  moreover have "\<forall>i fd p. holds ?l i fd p \<longrightarrow> length p < 108" using l(5) h by blast
  ultimately show "links_ok ?l" by (simp add: links_ok_def)
qed

definition fresh_descriptors :: "link_io \<Rightarrow> bool" where
  "fresh_descriptors io \<longleftrightarrow> (\<forall>fds fd. li_connect io fds = Inr fd \<longrightarrow> fd \<notin> set fds)"

lemma connect_ok:
  assumes ok: "links_ok l" and i: "i < CUBICLE_MANAGER_CONTROLLER_CACHE_SIZE" and new: "\<forall>j fd. \<not> holds l j fd socket_path"
    and free: "ce_fd (lk_cache l ! i) = None" and fresh: "fresh_descriptors io"
    and r: "cache_connect io socket_path i l = (r, l')"
  shows "links_ok l' \<and> lk_written l' = lk_written l \<and> (\<forall>k. r = Inr k \<longrightarrow> (\<exists>fd. holds l' k fd socket_path))
    \<and> (\<forall>e j fd. r = Inl e \<longrightarrow> \<not> holds l' j fd socket_path)"
proof (cases "connect_controller_socket io socket_path l")
  case (Pair c l1)
  note l = links_okE [OF ok]
  show ?thesis
  proof (cases c)
    case (Inl e)
    then have l1: "l1 = l" using Pair by (auto simp: connect_controller_socket_def split: if_splits sum.splits)
    then have l': "l' = l\<lparr>lk_cache := (lk_cache l)[i := (lk_cache l ! i)\<lparr>ce_fd := None, ce_socket_path := []\<rparr>]\<rparr>" "r = Inl e"
      using r Pair Inl by (auto simp: cache_connect_def)
    have h: "holds l' j fd p \<longleftrightarrow> holds l j fd p" for j fd p
      using holds_update [OF l(1) i, of l' _ j fd p] free l' by (auto simp: holds_def)
    then have "links_ok l'" using ok l' l(1) by (simp add: links_ok_def)
    then show ?thesis using l' h new by simp
  next
    case (Inr fd)
    then have fd: "li_connect io (map fst (lk_open l)) = Inr fd" "length socket_path < 108" "l1 = l\<lparr>lk_open := (fd, socket_path) # lk_open l\<rparr>"
      using Pair by (auto simp: connect_controller_socket_def split: if_splits sum.splits)
    then have out: "fd \<notin> fst ` set (lk_open l)" using fresh unfolding fresh_descriptors_def by (metis list.set_map)
    have l': "l' = l1\<lparr>lk_cache := (lk_cache l1)[i := \<lparr>ce_fd = Some fd, ce_last_used_ms = li_now_ms io, ce_socket_path = socket_path\<rparr>]\<rparr>"
      "r = Inr i"
      using r Pair Inr by (auto simp: cache_connect_def)
    have h: "holds l' j n p \<longleftrightarrow> (if j = i then n = fd \<and> p = socket_path else holds l j n p)" for j n p
      using holds_update [OF l(1) i, of l' _ j n p] l' fd(3) by auto
    have no: "\<not> holds l i n p" for n p using free by (simp add: holds_def)
    have "(n, p) \<in> set (lk_open l') \<longleftrightarrow> (\<exists>j. holds l' j n p)" for n p
    proof -
      have "(n, p) \<in> set (lk_open l') \<longleftrightarrow> n = fd \<and> p = socket_path \<or> (\<exists>j. holds l j n p)" using l' fd(3) l(3) by auto
      then show ?thesis using h no by metis
    qed
    moreover have "\<forall>a b n n' p p'. holds l' a n p \<longrightarrow> holds l' b n' p' \<longrightarrow> n = n' \<or> p = p' \<longrightarrow> a = b"
    proof -
      have "\<not> holds l j fd p" for j p using out l(3) [of fd p] by (metis fst_conv image_eqI)
      then show ?thesis using new l(4) unfolding h by (auto split: if_splits)
    qed
    moreover have "distinct (map fst (lk_open l'))" "length (lk_cache l') = CUBICLE_MANAGER_CONTROLLER_CACHE_SIZE"
      using l' fd(3) l(1,2) out by simp_all
    moreover have "\<forall>j n p. holds l' j n p \<longrightarrow> length p < 108" using l(5) fd(2) h by (metis (full_types))
    ultimately have "links_ok l'" by (simp add: links_ok_def)
    then show ?thesis using l' fd(3) h by auto
  qed
qed

lemma cache_search_spec:
  "case cache_search now_ms socket_path i empty_slot es of
     Hit k \<Rightarrow> i \<le> k \<and> k < i + length es \<and> ce_fd (es ! (k - i)) \<noteq> None \<and> ce_socket_path (es ! (k - i)) = socket_path
   | Stale k \<Rightarrow> i \<le> k \<and> k < i + length es \<and> ce_fd (es ! (k - i)) \<noteq> None \<and> ce_socket_path (es ! (k - i)) = socket_path
   | Miss slot \<Rightarrow> (\<forall>e \<in> set es. ce_fd e \<noteq> None \<longrightarrow> ce_socket_path e \<noteq> socket_path)
       \<and> (\<forall>k. slot = Some k \<longrightarrow> empty_slot = Some k \<or> i \<le> k \<and> k < i + length es \<and> ce_fd (es ! (k - i)) = None)"
proof (induction es arbitrary: i empty_slot)
  case (Cons e es)
  show ?case
  proof (cases "ce_fd e \<noteq> None \<and> ce_socket_path e = socket_path")
    case False
    let ?slot = "if ce_fd e = None \<and> empty_slot = None then Some i else empty_slot"
    have "cache_search now_ms socket_path i empty_slot (e # es) = cache_search now_ms socket_path (Suc i) ?slot es"
      using False by auto
    then show ?thesis
      using Cons.IH [of "Suc i" ?slot] False
      by (cases "cache_search now_ms socket_path (Suc i) ?slot es") (auto simp: nth_Cons' split: if_splits)
  qed (auto split: search_outcome.splits)
qed simp

lemma cache_get_ok:
  assumes ok: "links_ok l" and fresh: "fresh_descriptors io" and r: "manager_controller_cache_get io socket_path l = (r, l')"
  shows "links_ok l' \<and> lk_written l' = lk_written l \<and> (\<forall>k. r = Inr k \<longrightarrow> (\<exists>fd. holds l' k fd socket_path))
    \<and> (\<forall>e j fd. r = Inl e \<longrightarrow> \<not> holds l' j fd socket_path)"
proof (cases "length socket_path \<ge> 4096")
  case False
  note l = links_okE [OF ok]
  note spec = cache_search_spec [where now_ms = "li_now_ms io" and socket_path = socket_path and i = 0 and empty_slot = None and es = "lk_cache l"]
  have inv: "lk_written (manager_controller_cache_invalidate i l) = lk_written l"
    "i < CUBICLE_MANAGER_CONTROLLER_CACHE_SIZE \<Longrightarrow> ce_fd (lk_cache (manager_controller_cache_invalidate i l) ! i) = None" for i
    using l(1) by (simp_all add: manager_controller_cache_invalidate_def free_entry_def)
  show ?thesis
  proof (cases "cache_search (li_now_ms io) socket_path 0 None (lk_cache l)")
    case (Hit i)
    then have "r = Inr i" "l' = l" using r False by (simp_all add: manager_controller_cache_get_def)
    moreover have "\<exists>fd. holds l i fd socket_path" using spec Hit l(1) by (auto simp: holds_def)
    ultimately show ?thesis using ok by simp
  next
    case (Stale i)
    let ?l = "manager_controller_cache_invalidate i l"
    have i: "i < CUBICLE_MANAGER_CONTROLLER_CACHE_SIZE" and h: "\<exists>fd. holds l i fd socket_path"
      using spec Stale l(1) by (auto simp: holds_def)
    have "\<forall>j fd. \<not> holds ?l j fd socket_path" using h l(4) invalidate_ok(2) [OF ok i] by blast
    then show ?thesis
      using connect_ok [OF invalidate_ok(1) [OF ok i] i _ inv(2) [OF i] fresh] r False Stale inv(1)
      by (simp add: manager_controller_cache_get_def)
  next
    case (Miss slot)
    have new: "\<forall>j fd. \<not> holds l j fd socket_path" using spec Miss l(1) by (auto simp: holds_def)
    show ?thesis
    proof (cases slot)
      case None
      have i: "0 < CUBICLE_MANAGER_CONTROLLER_CACHE_SIZE" by (simp add: CUBICLE_MANAGER_CONTROLLER_CACHE_SIZE_def)
      have "\<forall>j fd. \<not> holds (manager_controller_cache_invalidate 0 l) j fd socket_path"
        using new invalidate_ok(2) [OF ok i] by blast
      then show ?thesis
        using connect_ok [OF invalidate_ok(1) [OF ok i] i _ inv(2) [OF i] fresh] r False Miss None inv(1)
        by (simp add: manager_controller_cache_get_def)
    next
      case (Some i)
      then have "i < CUBICLE_MANAGER_CONTROLLER_CACHE_SIZE" "ce_fd (lk_cache l ! i) = None" using spec Miss l(1) by auto
      then show ?thesis
        using connect_ok [OF ok _ new _ fresh] r False Miss Some by (simp add: manager_controller_cache_get_def)
    qed
  qed
next
  case True
  then show ?thesis using assms links_okE(5) [OF ok] by (fastforce simp: manager_controller_cache_get_def)
qed

lemma open_bounded: "links_ok l \<Longrightarrow> length (lk_open l) \<le> CUBICLE_MANAGER_CONTROLLER_CACHE_SIZE"
proof -
  assume ok: "links_ok l"
  let ?f = "\<lambda>i. (the (ce_fd (lk_cache l ! i)), ce_socket_path (lk_cache l ! i))"
  have "set (lk_open l) \<subseteq> ?f ` {..<CUBICLE_MANAGER_CONTROLLER_CACHE_SIZE}"
    using links_okE(3) [OF ok] by (force simp: holds_def)
  then have "card (set (lk_open l)) \<le> CUBICLE_MANAGER_CONTROLLER_CACHE_SIZE"
    by (metis card_lessThan finite_lessThan surj_card_le)
  then show ?thesis using links_okE(2) [OF ok] by (simp add: distinct_card distinct_map)
qed

lemma write_to_holder:
  assumes "links_ok l" "holds l i fd socket_path"
  shows "write_to (Some fd) data l = (if data = [] then l else l\<lparr>lk_written := lk_written l @ [(socket_path, data)]\<rparr>)"
proof -
  have m: "(fd, socket_path) \<in> set (lk_open l)" using links_okE(3) [OF assms(1)] assms(2) by blast
  obtain q where q: "find (\<lambda>(n, _). Some n = Some fd) (lk_open l) = Some (fd, q)" "(fd, q) \<in> set (lk_open l)"
  proof (cases "find (\<lambda>(n, _). Some n = Some fd) (lk_open l)")
    case None
    then show ?thesis using m by (force simp: find_None_iff)
  next
    case (Some x)
    then have "fst x = fd" "x \<in> set (lk_open l)" by (auto simp: find_Some_iff in_set_conv_nth)
    then show ?thesis using Some that [of "snd x"] by (cases x) simp
  qed
  then have "q = socket_path" using m links_okE(2) [OF assms(1)] by (metis eq_key_imp_eq_value)
  then show ?thesis using q(1) by (simp add: write_to_def)
qed

lemma controller_call_written:
  assumes "controller_rpc_call_fd rd alloc io meth params = (data, r)"
  shows "(data = [] \<and> (\<forall>x. r \<noteq> Inr x)) \<or> (\<exists>request rest.
    cubicle_rpc_request rd CUBICLE_API_MAX_FRAME ''relay-1'' (Some ''manager-relay'') meth params = Inr request
    \<and> be32 (length request) @ request = data @ rest \<and> (\<forall>x. r = Inr x \<longrightarrow> rest = [] \<and> controller_response alloc (li_polls io) = r))"
proof (cases "cubicle_rpc_request rd CUBICLE_API_MAX_FRAME ''relay-1'' (Some ''manager-relay'') meth params")
  case (Inr request)
  obtain a r1 w1 where a: "cubicle_write_all (li_writes io) (be32 (length request)) = (a, r1, w1)" by (metis prod_cases3)
  obtain b r2 w2 where b: "cubicle_write_all w1 request = (b, r2, w2)" by (metis prod_cases3)
  obtain ra rb where "be32 (length request) = a @ ra" "r1 = Inr () \<longleftrightarrow> ra = []" "request = b @ rb" "r2 = Inr () \<longleftrightarrow> rb = []"
    using write_all_cases [OF a] write_all_cases [OF b] by blast
  moreover have "(data, r) = (case r1 of Inl e \<Rightarrow> (a, Inl e)
      | Inr _ \<Rightarrow> (case r2 of Inl e \<Rightarrow> (a @ b, Inl e) | Inr _ \<Rightarrow> (a @ b, controller_response alloc (li_polls io))))"
    using assms Inr a b by (cases r1; cases r2) (auto simp: controller_rpc_call_fd_def)
  ultimately show ?thesis using Inr by (cases r1; cases r2) force+
qed (use assms in \<open>auto simp: controller_rpc_call_fd_def\<close>)

lemma controller_response_frame:
  assumes "controller_response alloc polls = Inr response"
  shows "\<exists>raw rest. poll_pending polls = be32 (length raw) @ raw @ rest \<and> response = cstr raw
    \<and> raw \<noteq> [] \<and> length raw \<le> CUBICLE_CONTROLLER_PROXY_MAX_FRAME"
proof -
  obtain h ps where h: "controller_rpc_read_all_timeout polls 4 = (Inr h, ps)"
    using assms by (auto simp: controller_response_def split: prod.splits sum.splits)
  then obtain raw ps' where raw: "controller_rpc_read_all_timeout ps (of_be32 h) = (Inr raw, ps')" "response = cstr raw"
    "of_be32 h \<noteq> 0" "of_be32 h \<le> CUBICLE_CONTROLLER_PROXY_MAX_FRAME"
    using assms by (cases "controller_rpc_read_all_timeout ps (of_be32 h)"; cases "fst (controller_rpc_read_all_timeout ps (of_be32 h))")
      (auto simp: controller_response_def Let_def split: if_splits)
  have 1: "poll_pending polls = h @ poll_pending ps" "length h = 4" using poll_read_some [OF h] by simp_all
  have 2: "poll_pending ps = raw @ poll_pending ps'" "length raw = of_be32 h" using poll_read_some [OF raw(1)] by simp_all
  obtain a b c d where "h = [a, b, c, d]" using 1(2) by (auto simp: numeral_eq_Suc length_Suc_conv)
  then have "be32 (length raw) = h" using be32_of_be32 2(2) by simp
  then show ?thesis using 1 2 raw(2-4) by (intro exI [of _ raw] exI [of _ "poll_pending ps'"]) auto
qed

text \<open>C14. (\<open>manager_connection_controller_rpc_call\<close>.) A request goes to the controller it is meant for: in
  every state the cache can be in, whatever descriptors were closed, reused or evicted before,
  what is written reaches the socket of that controller and no other, it is the request or,
  when the call fails, a part of it, and a response is the whole message the controller sent. The
  cache stays consistent: at most sixteen descriptors are open, each is in the cache, and a
  connection on which a call failed is dropped.\<close>

theorem controller_request_safe:
  assumes "links_ok l" "fresh_descriptors io"
    and "manager_connection_controller_rpc_call rd alloc io socket_path meth params l = (r, l')"
  shows "links_ok l' \<and> length (lk_open l') \<le> CUBICLE_MANAGER_CONTROLLER_CACHE_SIZE
    \<and> (lk_written l' = lk_written l \<and> (\<forall>response. r \<noteq> Inr response)
       \<or> (\<exists>data request rest. lk_written l' = lk_written l @ [(socket_path, data)]
          \<and> cubicle_rpc_request rd CUBICLE_API_MAX_FRAME ''relay-1'' (Some ''manager-relay'') meth params = Inr request
          \<and> be32 (length request) @ request = data @ rest \<and> ((\<exists>response. r = Inr response) \<longrightarrow> rest = [])))
    \<and> (\<forall>response. r = Inr response \<longrightarrow> (\<exists>i fd. holds l' i fd socket_path)
          \<and> (\<exists>raw rest. poll_pending (li_polls io) = be32 (length raw) @ raw @ rest \<and> response = cstr raw))
    \<and> (\<forall>e i fd. r = Inl e \<longrightarrow> \<not> holds l' i fd socket_path)"
proof (cases "manager_controller_cache_get io socket_path l")
  case (Pair c l1)
  note get = cache_get_ok [OF assms(1,2) Pair]
  show ?thesis
  proof (cases c)
    case (Inl e)
    then show ?thesis using assms(3) Pair get open_bounded [of l1] by (auto simp: manager_connection_controller_rpc_call_def)
  next
    case (Inr i)
    then obtain fd where fd: "holds l1 i fd socket_path" using get by blast
    obtain data q where q: "controller_rpc_call_fd rd alloc io meth params = (data, q)" by (metis prod.exhaust)
    let ?l = "write_to (Some fd) data l1"
    have l: "links_ok ?l" "lk_written ?l = lk_written l @ (if data = [] then [] else [(socket_path, data)])"
      "holds ?l i fd socket_path"
      using write_to_holder [OF _ fd, of data] get fd by (auto simp: links_ok_def holds_def)
    have i: "i < CUBICLE_MANAGER_CONTROLLER_CACHE_SIZE" "ce_fd (lk_cache l1 ! i) = Some fd" "lk_cache ?l = lk_cache l1"
      using fd write_to_holder [OF _ fd, of data] get by (auto simp: holds_def)
    show ?thesis
    proof (cases q)
      case (Inl e)
      then have r: "r = Inl e" "l' = manager_controller_cache_invalidate i ?l"
        using assms(3) Pair Inr q i by (auto simp: manager_connection_controller_rpc_call_def Let_def)
      have "links_ok l'" using invalidate_ok(1) [OF l(1) i(1)] r(2) by simp
      moreover have "\<not> holds l' j n socket_path" for j n
      proof
        assume "holds l' j n socket_path"
        then have "j \<noteq> i" "holds ?l j n socket_path" unfolding r(2) invalidate_ok(2) [OF l(1) i(1)] by simp_all
        then show False using links_okE(4) [OF l(1) _ l(3)] by blast
      qed
      moreover have "lk_written l' = lk_written ?l" using r(2) by (simp add: manager_controller_cache_invalidate_def)
      moreover have "data = [] \<or> (\<exists>request rest.
          cubicle_rpc_request rd CUBICLE_API_MAX_FRAME ''relay-1'' (Some ''manager-relay'') meth params = Inr request
          \<and> be32 (length request) @ request = data @ rest)"
        using controller_call_written [OF q] by blast
      ultimately show ?thesis using r(1) l(2) open_bounded [of l'] by (cases "data = []") simp_all
    next
      case Q: (Inr response)
      let ?e = "(lk_cache l1 ! i)\<lparr>ce_last_used_ms := li_used_ms io\<rparr>"
      have r: "r = Inr response" "l' = ?l\<lparr>lk_cache := (lk_cache ?l)[i := ?e]\<rparr>"
        using assms(3) Pair Inr q Q i by (auto simp: manager_connection_controller_rpc_call_def Let_def)
      have h: "holds l' j n p \<longleftrightarrow> holds ?l j n p" for j n p
        using holds_update [OF links_okE(1) [OF l(1)] i(1), of l' ?e j n p] r(2) i by (auto simp: holds_def)
      then have "links_ok l'" using l(1) r(2) by (simp add: links_ok_def)
      moreover obtain request where req: "cubicle_rpc_request rd CUBICLE_API_MAX_FRAME ''relay-1'' (Some ''manager-relay'') meth params = Inr request"
        "be32 (length request) @ request = data" "controller_response alloc (li_polls io) = Inr response"
        using controller_call_written [OF q] Q by auto
      moreover have "data \<noteq> []" using req(2) by (auto simp: be32_def)
      moreover have "lk_written l' = lk_written l @ [(socket_path, data)]" "\<exists>i fd. holds l' i fd socket_path"
        using r(2) l(2,3) h \<open>data \<noteq> []\<close> by auto
      moreover have "\<exists>raw rest. poll_pending (li_polls io) = be32 (length raw) @ raw @ rest \<and> response = cstr raw"
        using controller_response_frame [OF req(3)] by blast
      ultimately show ?thesis using r(1) open_bounded [of l'] by simp
    qed
  qed
qed

definition example_link :: link_io where
  "example_link = \<lparr>li_now_ms = 1000, li_used_ms = 1001, li_connect = (\<lambda>fds. if 3 \<in> set fds then Inl EIO else Inr 3),
     li_writes = [WShort 2, WError EINTR], li_polls = [PollRead (RData (be32 2)), PollRead (RData ''{}'')]\<rparr>"

theorem controller_request_safe_witness:
  "\<exists>l'. manager_connection_controller_rpc_call read_json (\<lambda>_. True) example_link ''/run/c1'' ''controller.status'' ''{}''
       manager_controller_cache_init = (Inr ''{}'', l')
     \<and> links_ok l' \<and> fst (hd (lk_written l')) = ''/run/c1'' \<and> (\<exists>i fd. holds l' i fd ''/run/c1'')"
proof -
  let ?rd = read_json
  have fresh: "fresh_descriptors example_link" by (auto simp: fresh_descriptors_def example_link_def split: if_splits)
  have get: "\<exists>l. manager_controller_cache_get example_link ''/run/c1'' manager_controller_cache_init = (Inr 0, l)"
    by (simp add: manager_controller_cache_get_def manager_controller_cache_init_def CUBICLE_MANAGER_CONTROLLER_CACHE_SIZE_def
        free_entry_def numeral_eq_Suc cache_connect_def connect_controller_socket_def example_link_def)
  have req: "\<exists>request. cubicle_rpc_request ?rd CUBICLE_API_MAX_FRAME ''relay-1'' (Some ''manager-relay'') ''controller.status'' ''{}'' = Inr request"
  proof -
    have "read_json ''{}'' = Some (JObj [])" by code_simp
    then have "json_fragment_valid read_json ''{}'' = Inr ()" by (simp add: fragment_valid json_limit_defs)
    then show ?thesis
      using rpc_request_text [of read_json "''{}''" "''relay-1''" "''manager-relay''" "''controller.status''" CUBICLE_API_MAX_FRAME]
      by (simp add: CUBICLE_API_MAX_FRAME_def)
  qed
  have resp: "controller_response (\<lambda>_. True) (li_polls example_link) = Inr ''{}''"
    using of_be32_be32 [of 2 "[]"]
    by (simp add: controller_response_def example_link_def CUBICLE_CONTROLLER_PROXY_MAX_FRAME_def cstr_def)
  have call: "\<exists>data. controller_rpc_call_fd ?rd (\<lambda>_. True) example_link ''controller.status'' ''{}'' = (data, Inr ''{}'')"
  proof -
    have "cubicle_write_all (li_writes example_link) (be32 n) = (be32 n, Inr (), [])" for n
      by (simp add: example_link_def be32_def)
    moreover have "cubicle_write_all [] d = (d, Inr (), [])" for d by (cases d) simp_all
    ultimately show ?thesis using req resp by (auto simp: controller_rpc_call_fd_def)
  qed
  obtain r l' where c: "manager_connection_controller_rpc_call ?rd (\<lambda>_. True) example_link ''/run/c1'' ''controller.status'' ''{}''
       manager_controller_cache_init = (r, l')" by (metis prod.exhaust)
  then have "r = Inr ''{}''" using get call by (auto simp: manager_connection_controller_rpc_call_def Let_def)
  then show ?thesis
    using controller_request_safe [OF init_ok fresh c] c by (auto simp: manager_controller_cache_init_def)
qed

end
