(* ===== verification/Manager_Access.thy ===== *)
theory Manager_Access
  imports Manager_Store Controller_Link
begin

text \<open>
  The manager's requests (\<open>src/src/manager/main.c\<close>): what a request handler reads and changes,
  the replies it sends, and who may do what. The system calls, OpenSSL and the controllers
  are the record \<open>manager_env\<close>: it holds how the calls of one request end. A handler holds
  the state lock while it changes files, so a request is one step on the state.
\<close>

unbundle bit_operations_syntax

section \<open>Sessions, connections and the environment\<close>

record session_info =
  si_session_id :: bytes
  si_manager_id :: bytes
  si_client_key_id :: bytes
  si_protocol_major :: "32 word"
  si_protocol_minor :: "32 word"
  si_negotiated_capabilities :: "64 word"
  si_authenticated_at_ms :: "64 word"
  si_expires_at_ms :: "64 word"

record session_record =
  sr_active :: bool
  sr_session :: session_info
  sr_resume_secret :: bytes
  sr_peer_uid :: "32 word"
  sr_peer_gid :: "32 word"
  sr_manager_generation :: "64 word"
  sr_client_public_key_hex :: bytes

record connection =
  cn_has_peer_credentials :: bool
  cn_is_tls :: bool
  cn_peer_uid :: "32 word"
  cn_peer_gid :: "32 word"
  cn_pending_auth :: "auth_transcript option"
  cn_authenticated :: bool
  cn_session :: session_info
  cn_resume_secret :: bytes
  cn_client_public_key_hex :: bytes
  cn_links :: links

text \<open>
  \<open>mg_sent\<close> lists the socket and the text of every command sent to a controller,
  \<open>mg_removed\<close> the processes whose controller directories were removed, \<open>mg_launched\<close> the
  processes whose controllers were started with their commands, and \<open>mg_killed\<close> the process
  groups that were sent a signal directly.
\<close>

record manager =
  mg_files :: manager_files
  mg_sessions :: "session_record list"
  mg_shutdown :: bool
  mg_sent :: "(bytes \<times> bytes) list"
  mg_removed :: "bytes list"
  mg_launched :: "(bytes \<times> bytes list) list"
  mg_killed :: "(int \<times> nat) list"

text \<open>
  Calls that a request makes more than once are numbered. A controller's answer, and what
  its event log holds, depend on how many commands were sent before. \<open>env_ready\<close> tells
  for a launch and a poll whether the socket exists, the metadata is written and the event
  log has an exit, \<open>env_link\<close> how a request over the cached connections ends, \<open>env_kill\<close> how the
  signals to process groups end.
\<close>

record manager_env =
  env_euid :: "32 word"
  env_now_ms :: "64 word"
  env_started_at_ms :: "64 word"
  env_manager_id :: "bytes result"
  env_identity_key_id :: bytes
  env_identity_public_key :: bytes
  env_identity_public_key_hex :: bytes
  env_lock :: "errno option"
  env_append :: "nat \<Rightarrow> append_io"
  env_rewrite :: "nat \<Rightarrow> errno option"
  env_hex_id :: "nat \<Rightarrow> bytes result"
  env_random :: "nat \<Rightarrow> nat \<Rightarrow> bytes result"
  env_sha256 :: "bytes \<Rightarrow> bytes"
  env_verify :: "bytes \<Rightarrow> bytes \<Rightarrow> bytes \<Rightarrow> bool"
  env_hmac :: "bytes \<Rightarrow> bytes \<Rightarrow> bytes result"
  env_resolve :: "bytes option \<Rightarrow> bytes result"
  env_line :: "nat \<Rightarrow> bytes \<Rightarrow> bytes \<Rightarrow> bytes result"
  env_events_log :: "nat \<Rightarrow> bytes \<Rightarrow> bytes option"
  env_output :: "bytes \<Rightarrow> bytes \<Rightarrow> bytes result"
  env_remove_tree :: "bytes \<Rightarrow> errno option"
  env_dir :: bytes
  env_runtime_dir :: bytes
  env_log_dir :: bytes
  env_mkdir :: "bytes \<Rightarrow> errno option"
  env_launch :: "nat \<Rightarrow> errno option"
  env_ready :: "nat \<Rightarrow> nat \<Rightarrow> bool \<times> bool \<times> bool"
  env_metadata :: "bytes \<Rightarrow> bytes option"
  env_link :: link_io
  env_kill :: "nat \<Rightarrow> errno option"
  env_workspace_events :: "bytes option"
  env_controller_bin :: bytes
  env_controller_debug :: bytes
  env_stat_output :: "errno option"
  env_read_output :: "errno option"
  env_alloc :: "size_t \<Rightarrow> bool"
  env_rd :: "bytes \<Rightarrow> json option"
  env_wr :: "json \<Rightarrow> bytes option"

text \<open>
  A reply: \<open>manager_api_success\<close> or \<open>manager_api_success_large\<close> with a result, \<open>manager_api_error\<close> with
  its arguments or with the error of a controller, or a return of -1 that ends the connection
  without an answer. No error number is 0.
\<close>

datatype reply =
    ApiSuccess bytes
  | ApiSuccessLarge bytes
  | ApiError cubicle_error_code bytes bool "errno option"
  | ApiRelayed cubicle_error
  | ApiClose

text \<open>Early returns: the reply of the first check that fails.\<close>

definition or_reply :: "reply \<Rightarrow> 'e + 'a \<Rightarrow> reply + 'a" where
  "or_reply r m = (case m of Inl _ \<Rightarrow> Inl r | Inr x \<Rightarrow> Inr x)"

definition unless :: "bool \<Rightarrow> reply \<Rightarrow> reply + unit" where
  "unless b r = (if b then Inr () else Inl r)"

definition some_or :: "reply \<Rightarrow> 'a option \<Rightarrow> reply + 'a" where
  "some_or r m = (case m of None \<Rightarrow> Inl r | Some x \<Rightarrow> Inr x)"

definition reply_of :: "reply + reply \<Rightarrow> reply" where
  "reply_of m = (case m of Inl r \<Rightarrow> r | Inr r \<Rightarrow> r)"

text \<open>A handler reads the buffer of a string parameter as a C string.\<close>

definition param_string :: "json \<Rightarrow> bytes \<Rightarrow> nat \<Rightarrow> bytes checked" where
  "param_string params field n =
     rbind (cubicle_json_get_required_string params field n) (\<lambda>s. Inr (cstr s))"

definition param_optional_string :: "json \<Rightarrow> bytes \<Rightarrow> nat \<Rightarrow> bytes option checked" where
  "param_optional_string params field n =
     rbind (cubicle_json_get_optional_string params field n) (\<lambda>s. Inr (map_option cstr s))"

definition invalid :: "bytes \<Rightarrow> reply" where
  "invalid msg = ApiError CUBICLE_ERR_INVALID_ARGUMENT msg False None"

definition denied :: "bytes \<Rightarrow> reply" where
  "denied msg = ApiError CUBICLE_ERR_PERMISSION_DENIED msg False None"

definition not_found :: "bytes \<Rightarrow> reply" where
  "not_found msg = ApiError CUBICLE_ERR_NOT_FOUND msg False None"

definition io_failed :: "bytes \<Rightarrow> errno \<Rightarrow> reply" where
  "io_failed msg e = ApiError CUBICLE_ERR_IO msg True (Some e)"

definition too_large :: "bytes \<Rightarrow> reply" where
  "too_large msg = ApiError CUBICLE_ERR_RESOURCE_LIMIT msg False None"

definition lock_state :: "manager_env \<Rightarrow> reply + unit" where
  "lock_state env =
     (case env_lock env of None \<Rightarrow> Inr () | Some e \<Rightarrow> Inl (io_failed ''failed to lock manager state'' e))"

text \<open>\<open>snprintf\<close> into a buffer, with the check that follows.\<close>

definition fit :: "nat \<Rightarrow> bytes \<Rightarrow> bytes result" where
  "fit n s = (if length s \<ge> n then Inl ENOSPC else Inr s)"

text \<open>
  A list response: items are added, with commas, to a buffer of 21504 bytes; \<open>None\<close> when an
  item does not fit. The number of items is counted.
\<close>

fun append_items :: "bytes \<Rightarrow> nat \<Rightarrow> bytes list \<Rightarrow> (bytes \<times> nat) option" where
  "append_items used count [] = Some (used, count)"
| "append_items used count (item # items) =
     (let text = (if count = 0 then [] else '','') @ item in
      if length text \<ge> 21504 - length used then None
      else append_items (used @ text) (count + 1) items)"

definition list_reply :: "bytes \<Rightarrow> bytes list \<Rightarrow> (nat \<Rightarrow> bytes) \<Rightarrow> bytes \<Rightarrow> reply" where
  "list_reply opening items ending msg =
     (case append_items opening 0 items of
        None \<Rightarrow> too_large msg
      | Some (used, count) \<Rightarrow>
          if length (ending count) \<ge> 21504 - length used then too_large msg
          else ApiSuccess (used @ ending count))"

definition items_of :: "('a \<Rightarrow> bytes result) \<Rightarrow> 'a list \<Rightarrow> bytes list" where
  "items_of f xs = List.map_filter (\<lambda>x. case f x of Inl _ \<Rightarrow> None | Inr s \<Rightarrow> Some s) xs"

section \<open>Capabilities\<close>

definition CUBICLE_CAP_WORKSPACE_READ :: "64 word" where "CUBICLE_CAP_WORKSPACE_READ = 1"
definition CUBICLE_CAP_WORKSPACE_RENAME :: "64 word" where "CUBICLE_CAP_WORKSPACE_RENAME = 2"
definition CUBICLE_CAP_WORKSPACE_STOP :: "64 word" where "CUBICLE_CAP_WORKSPACE_STOP = 4"
definition CUBICLE_CAP_WORKSPACE_DELETE :: "64 word" where "CUBICLE_CAP_WORKSPACE_DELETE = 8"
definition CUBICLE_CAP_WORKSPACE_MANAGE_KEYS :: "64 word" where "CUBICLE_CAP_WORKSPACE_MANAGE_KEYS = 16"
definition CUBICLE_CAP_WORKSPACE_MANAGE_MACROS :: "64 word" where "CUBICLE_CAP_WORKSPACE_MANAGE_MACROS = 32"
definition CUBICLE_CAP_PROCESS_START :: "64 word" where "CUBICLE_CAP_PROCESS_START = 256"
definition CUBICLE_CAP_PROCESS_READ :: "64 word" where "CUBICLE_CAP_PROCESS_READ = 512"
definition CUBICLE_CAP_PROCESS_OBSERVE :: "64 word" where "CUBICLE_CAP_PROCESS_OBSERVE = 1024"
definition CUBICLE_CAP_PROCESS_INPUT :: "64 word" where "CUBICLE_CAP_PROCESS_INPUT = 2048"
definition CUBICLE_CAP_PROCESS_SIGNAL :: "64 word" where "CUBICLE_CAP_PROCESS_SIGNAL = 4096"
definition CUBICLE_CAP_PROCESS_REMOVE :: "64 word" where "CUBICLE_CAP_PROCESS_REMOVE = 8192"
definition CUBICLE_CAP_EVENTS_READ :: "64 word" where "CUBICLE_CAP_EVENTS_READ = 65536"

lemmas capability_defs = CUBICLE_CAP_WORKSPACE_READ_def CUBICLE_CAP_WORKSPACE_RENAME_def
  CUBICLE_CAP_WORKSPACE_STOP_def CUBICLE_CAP_WORKSPACE_DELETE_def CUBICLE_CAP_WORKSPACE_MANAGE_KEYS_def
  CUBICLE_CAP_WORKSPACE_MANAGE_MACROS_def CUBICLE_CAP_PROCESS_START_def CUBICLE_CAP_PROCESS_READ_def
  CUBICLE_CAP_PROCESS_OBSERVE_def CUBICLE_CAP_PROCESS_INPUT_def CUBICLE_CAP_PROCESS_SIGNAL_def
  CUBICLE_CAP_PROCESS_REMOVE_def CUBICLE_CAP_EVENTS_READ_def

definition role_owner_capabilities :: "64 word" where
  "role_owner_capabilities =
     CUBICLE_CAP_WORKSPACE_READ OR CUBICLE_CAP_WORKSPACE_RENAME OR CUBICLE_CAP_WORKSPACE_STOP
     OR CUBICLE_CAP_WORKSPACE_DELETE OR CUBICLE_CAP_WORKSPACE_MANAGE_KEYS
     OR CUBICLE_CAP_WORKSPACE_MANAGE_MACROS OR CUBICLE_CAP_PROCESS_START OR CUBICLE_CAP_PROCESS_READ
     OR CUBICLE_CAP_PROCESS_OBSERVE OR CUBICLE_CAP_PROCESS_INPUT OR CUBICLE_CAP_PROCESS_SIGNAL
     OR CUBICLE_CAP_PROCESS_REMOVE OR CUBICLE_CAP_EVENTS_READ"

definition connection_is_same_uid :: "manager_env \<Rightarrow> connection \<Rightarrow> bool" where
  "connection_is_same_uid env conn \<longleftrightarrow> cn_has_peer_credentials conn \<and> cn_peer_uid conn = env_euid env"

definition connection_is_manager_owner :: "manager_env \<Rightarrow> connection \<Rightarrow> bool" where
  "connection_is_manager_owner env conn = connection_is_same_uid env conn"

definition key_matches :: "bytes option \<Rightarrow> bytes \<Rightarrow> key_record \<Rightarrow> bool" where
  "key_matches wid key_id r \<longleftrightarrow>
     (case wid of None \<Rightarrow> True | Some w \<Rightarrow> kr_workspace_id r = w)
     \<and> kr_key_id r = key_id \<and> kr_revoked_at_ms r = 0"

text \<open>The first record of the key that is not revoked decides.\<close>

definition connection_has_key_capability ::
    "state_file \<Rightarrow> bytes option \<Rightarrow> connection \<Rightarrow> 64 word \<Rightarrow> bool" where
  "connection_has_key_capability f wid conn required =
     (cn_authenticated conn \<and> si_client_key_id (cn_session conn) \<noteq> [] \<and>
      (case find (key_matches wid (si_client_key_id (cn_session conn))) (key_records f) of
         None \<Rightarrow> False
       | Some r \<Rightarrow> kr_capabilities r AND required = required))"

definition connection_has_manager_key_capability ::
    "manager_env \<Rightarrow> manager_files \<Rightarrow> connection \<Rightarrow> 64 word \<Rightarrow> bool" where
  "connection_has_manager_key_capability env files conn required \<longleftrightarrow>
     connection_is_manager_owner env conn
     \<or> connection_has_key_capability (manager_keys_tsv files) None conn required"

definition connection_has_workspace_capability ::
    "manager_env \<Rightarrow> manager_files \<Rightarrow> bytes \<Rightarrow> connection \<Rightarrow> 64 word \<Rightarrow> bool" where
  "connection_has_workspace_capability env files wid conn required \<longleftrightarrow>
     connection_is_manager_owner env conn
     \<or> connection_has_key_capability (manager_keys_tsv files) None conn required
     \<or> connection_has_key_capability (workspace_keys_tsv files) (Some wid) conn required"

section \<open>Key records\<close>

definition append_key_record :: "append_io \<Rightarrow> state_file \<Rightarrow> key_record \<Rightarrow> unit result \<times> state_file" where
  "append_key_record io f r =
     (if length (key_line r) \<ge> 1024 then (Inl ENOSPC, f) else append_line io f (key_line r))"

text \<open>
  \<open>strtoul\<close> in base 16 on a text of two bytes, all of which it has to read: leading space
  and a sign count as read, and a negative number is too large unless it is 0.
\<close>

definition hex_pair :: "char \<Rightarrow> char \<Rightarrow> nat option" where
  "hex_pair a b =
     (case hex_value b of
        None \<Rightarrow> None
      | Some y \<Rightarrow>
          (case hex_value a of
             Some x \<Rightarrow> Some (16 * x + y)
           | None \<Rightarrow>
               if isspace a \<or> a = CHR ''+'' then Some y
               else if a = CHR ''-'' \<and> y = 0 then Some 0 else None))"

fun public_key_bytes :: "bytes \<Rightarrow> bytes option" where
  "public_key_bytes [] = Some []"
| "public_key_bytes [a] = None"
| "public_key_bytes (a # b # r) =
     (case hex_pair a b of
        None \<Rightarrow> None
      | Some v \<Rightarrow> map_option ((#) (char_of v)) (public_key_bytes r))"

definition build_workspace_key_record_from_public_hex ::
    "(bytes \<Rightarrow> bytes) \<Rightarrow> bytes \<Rightarrow> bytes \<Rightarrow> bytes \<Rightarrow> 64 word \<Rightarrow> 64 word \<Rightarrow> key_record result" where
  "build_workspace_key_record_from_public_hex sha256 wid public_key_hex label capabilities created =
     (if public_key_hex = [] \<or> length public_key_hex mod 2 \<noteq> 0 \<or> length public_key_hex \<ge> 512
      then Inl EINVAL
      else case public_key_bytes public_key_hex of
        None \<Rightarrow> Inl EINVAL
      | Some key \<Rightarrow>
          rbind (cubicle_auth_key_fingerprint sha256 key) (\<lambda>(key_id, fingerprint).
            Inr \<lparr>kr_workspace_id = store 33 wid, kr_key_id = store 33 key_id,
                 kr_fingerprint = store 256 fingerprint, kr_label = store 128 label,
                 kr_capabilities = capabilities, kr_created_at_ms = created, kr_revoked_at_ms = 0,
                 kr_public_key_hex = store 512 public_key_hex\<rparr>))"

definition edit_keys :: "bytes \<Rightarrow> bytes \<Rightarrow> (key_record \<Rightarrow> key_record) \<Rightarrow> key_record list \<Rightarrow> key_record list" where
  "edit_keys wid key_id change rs =
     map (\<lambda>r. if kr_workspace_id r = wid \<and> kr_key_id r = key_id then change r else r) rs"

definition update_key_capabilities ::
    "errno option \<Rightarrow> state_file \<Rightarrow> bytes \<Rightarrow> bytes \<Rightarrow> 64 word \<Rightarrow> bool result \<times> state_file" where
  "update_key_capabilities io_error f wid key_id capabilities =
     (let rs = key_records f in
      rewrite_file io_error f
        (concat (map key_line (edit_keys wid key_id (\<lambda>r. r\<lparr>kr_capabilities := capabilities\<rparr>) rs)))
        (\<exists>r \<in> set rs. kr_workspace_id r = wid \<and> kr_key_id r = key_id))"

definition update_key_revocation ::
    "errno option \<Rightarrow> state_file \<Rightarrow> bytes \<Rightarrow> bytes \<Rightarrow> 64 word \<Rightarrow> bool result \<times> state_file" where
  "update_key_revocation io_error f wid key_id revoked_at_ms =
     (let rs = key_records f in
      rewrite_file io_error f
        (concat (map key_line (edit_keys wid key_id (\<lambda>r. r\<lparr>kr_revoked_at_ms := revoked_at_ms\<rparr>) rs)))
        (\<exists>r \<in> set rs. kr_workspace_id r = wid \<and> kr_key_id r = key_id))"

section \<open>Keys as JSON\<close>

definition workspace_key_info_json :: "nat \<Rightarrow> key_record \<Rightarrow> bytes result" where
  "workspace_key_info_json n r =
     rbind (cubicle_json_escape 512 (Some (kr_fingerprint r))) (\<lambda>fingerprint.
     rbind (cubicle_json_escape 256 (Some (kr_label r))) (\<lambda>label.
       fit n
         (''{\"key_id\":\"'' @ kr_key_id r @ ''\",\"fingerprint\":\"'' @ fingerprint @ ''\",\"label\":\"'' @ label
          @ ''\",\"capabilities\":'' @ show_nat (unat (kr_capabilities r))
          @ '',\"created_at_ms\":'' @ show_nat (unat (kr_created_at_ms r))
          @ '',\"revoked_at_ms\":'' @ show_nat (unat (kr_revoked_at_ms r)) @ ''}'')))"

text \<open>\<open>scope\<close> and \<open>level\<close> are never NULL; the workspace is a pair of its id and name.\<close>

definition key_record_info_json ::
    "nat \<Rightarrow> key_record \<Rightarrow> bytes \<Rightarrow> bytes \<Rightarrow> (bytes \<times> bytes) option \<Rightarrow> bytes result" where
  "key_record_info_json n r scope level workspace =
     rbind (workspace_key_info_json 1024 r) (\<lambda>base.
     rbind (cubicle_json_escape 64 (Some scope)) (\<lambda>scope'.
     rbind (cubicle_json_escape 512 (Some level)) (\<lambda>level'.
     rbind (cubicle_json_escape 66 (Some (case workspace of None \<Rightarrow> [] | Some (i, n) \<Rightarrow> i))) (\<lambda>wid.
     rbind (cubicle_json_escape 512 (Some (case workspace of None \<Rightarrow> [] | Some (i, n) \<Rightarrow> n))) (\<lambda>name.
       if base = [] \<or> last base \<noteq> CHR ''}'' then Inl EINVAL
       else fit n
         (butlast base @ '',\"scope\":\"'' @ scope' @ ''\",\"level\":\"'' @ level'
          @ (case workspace of
               None \<Rightarrow> ''\"}''
             | Some _ \<Rightarrow> ''\",\"workspace_id\":\"'' @ wid @ ''\",\"workspace_name\":\"'' @ name @ ''\"}'')))))))"

section \<open>Requests on keys\<close>

text \<open>The updates of the two key files in a manager's state.\<close>

definition with_manager_keys :: "manager \<Rightarrow> state_file \<Rightarrow> manager" where
  "with_manager_keys m f = m\<lparr>mg_files := (mg_files m)\<lparr>manager_keys_tsv := f\<rparr>\<rparr>"

definition with_workspace_keys :: "manager \<Rightarrow> state_file \<Rightarrow> manager" where
  "with_workspace_keys m f = m\<lparr>mg_files := (mg_files m)\<lparr>workspace_keys_tsv := f\<rparr>\<rparr>"

definition label_of :: "bytes option \<Rightarrow> bytes" where
  "label_of l = (case l of None \<Rightarrow> [] | Some s \<Rightarrow> s)"

definition manager_key_add :: "manager_env \<Rightarrow> connection \<Rightarrow> json \<Rightarrow> manager \<Rightarrow> reply \<times> manager" where
  "manager_key_add env conn params m =
     (case
        rbind (or_reply (invalid ''invalid key add request'')
          (rbind (param_string params ''public_key'' 512) (\<lambda>key.
           rbind (param_optional_string params ''label'' 128) (\<lambda>label.
           rbind (cubicle_json_get_required_u64 params ''capabilities'') (\<lambda>capabilities.
             Inr (key, label_of label, capabilities)))))) (\<lambda>(key, label, capabilities).
        rbind (unless (connection_has_manager_key_capability env (mg_files m) conn CUBICLE_CAP_WORKSPACE_MANAGE_KEYS)
          (denied ''manager key management requires owner access'')) (\<lambda>_.
        rbind (lock_state env) (\<lambda>_.
        or_reply (invalid ''invalid public key'')
          (build_workspace_key_record_from_public_hex (env_sha256 env) ''manager'' key label capabilities
             (env_now_ms env)))))
      of
        Inl r \<Rightarrow> (r, m)
      | Inr record \<Rightarrow>
          (case append_key_record (env_append env 0) (manager_keys_tsv (mg_files m)) record of
             (Inl e, f) \<Rightarrow> (io_failed ''failed to persist key'' e, with_manager_keys m f)
           | (Inr _, f) \<Rightarrow>
               (case key_record_info_json 1024 record ''manager'' ''global'' None of
                  Inl e \<Rightarrow> ApiError CUBICLE_ERR_INTERNAL ''failed to encode key'' False (Some e)
                | Inr s \<Rightarrow> ApiSuccess s,
                with_manager_keys m f)))"

definition manager_key_list :: "manager_env \<Rightarrow> connection \<Rightarrow> manager \<Rightarrow> reply" where
  "manager_key_list env conn m =
     (if \<not> connection_has_manager_key_capability env (mg_files m) conn CUBICLE_CAP_WORKSPACE_MANAGE_KEYS
      then denied ''manager key list requires owner access''
      else
        list_reply ''{\"keys\":[''
          (items_of (\<lambda>r. key_record_info_json 1024 r ''manager'' ''global'' None)
             (key_records (manager_keys_tsv (mg_files m)))
           @ items_of (\<lambda>r.
               let name = store 256 (case find_workspace (mg_files m) (kr_workspace_id r) of
                                       Some w \<Rightarrow> ws_name w | None \<Rightarrow> kr_workspace_id r) in
               key_record_info_json 1200 r ''workspace'' name (Some (kr_workspace_id r, name)))
             (key_records (workspace_keys_tsv (mg_files m))))
          (\<lambda>_. '']}'') ''key list response too large'')"

definition manager_key_update :: "manager_env \<Rightarrow> connection \<Rightarrow> json \<Rightarrow> manager \<Rightarrow> reply \<times> manager" where
  "manager_key_update env conn params m =
     (case
        rbind (or_reply (invalid ''invalid key update request'')
          (rbind (param_string params ''key_id'' 128) (\<lambda>key_id.
           rbind (cubicle_json_get_required_u64 params ''capabilities'') (\<lambda>capabilities.
             Inr (key_id, capabilities))))) (\<lambda>(key_id, capabilities).
        rbind (unless (connection_has_manager_key_capability env (mg_files m) conn CUBICLE_CAP_WORKSPACE_MANAGE_KEYS)
          (denied ''manager key update requires owner access'')) (\<lambda>_.
        rbind (lock_state env) (\<lambda>_. Inr (key_id, capabilities))))
      of
        Inl r \<Rightarrow> (r, m)
      | Inr (key_id, capabilities) \<Rightarrow>
          (case update_key_capabilities (env_rewrite env 0) (manager_keys_tsv (mg_files m)) ''manager'' key_id capabilities of
             (Inl e, f) \<Rightarrow> (io_failed ''failed to update key'' e, with_manager_keys m f)
           | (Inr found, f) \<Rightarrow>
               (if found then ApiSuccess ''{}'' else not_found ''key not found'', with_manager_keys m f)))"

definition manager_key_revoke :: "manager_env \<Rightarrow> connection \<Rightarrow> json \<Rightarrow> manager \<Rightarrow> reply \<times> manager" where
  "manager_key_revoke env conn params m =
     (case
        rbind (or_reply (invalid ''invalid key revoke request'')
          (param_string params ''key_id'' 128)) (\<lambda>key_id.
        rbind (unless (connection_has_manager_key_capability env (mg_files m) conn CUBICLE_CAP_WORKSPACE_MANAGE_KEYS)
          (denied ''manager key revoke requires owner access'')) (\<lambda>_.
        rbind (lock_state env) (\<lambda>_. Inr key_id)))
      of
        Inl r \<Rightarrow> (r, m)
      | Inr key_id \<Rightarrow>
          (case update_key_revocation (env_rewrite env 0) (manager_keys_tsv (mg_files m)) ''manager'' key_id (env_now_ms env) of
             (Inl e, f) \<Rightarrow> (io_failed ''failed to revoke key'' e, with_manager_keys m f)
           | (Inr found, f) \<Rightarrow>
               (if found then ApiSuccess ''{}'' else not_found ''key not found'', with_manager_keys m f)))"

text \<open>The checks of \<open>workspace.key.add\<close>, up to the record to be stored.\<close>

definition workspace_key_add_checks ::
    "manager_env \<Rightarrow> connection \<Rightarrow> json \<Rightarrow> manager \<Rightarrow> reply + key_record" where
  "workspace_key_add_checks env conn params m =
     rbind (or_reply (invalid ''invalid key add request'')
       (rbind (param_string params ''workspace_id'' 128) (\<lambda>wref.
        rbind (param_string params ''public_key'' 512) (\<lambda>key.
        rbind (param_optional_string params ''label'' 128) (\<lambda>label.
        rbind (cubicle_json_get_required_u64 params ''capabilities'') (\<lambda>capabilities.
          Inr (wref, key, label_of label, capabilities))))))) (\<lambda>(wref, key, label, capabilities).
     rbind (lock_state env) (\<lambda>_.
     rbind (some_or (not_found ''workspace not found'') (find_workspace (mg_files m) wref)) (\<lambda>workspace.
     rbind (unless (connection_has_workspace_capability env (mg_files m) (ws_id workspace) conn
          CUBICLE_CAP_WORKSPACE_MANAGE_KEYS) (denied ''workspace key management requires owner access'')) (\<lambda>_.
     or_reply (invalid ''invalid public key'')
       (build_workspace_key_record_from_public_hex (env_sha256 env) (ws_id workspace) key label capabilities
          (env_now_ms env))))))"

definition workspace_key_add :: "manager_env \<Rightarrow> connection \<Rightarrow> json \<Rightarrow> manager \<Rightarrow> reply \<times> manager" where
  "workspace_key_add env conn params m =
     (case workspace_key_add_checks env conn params m of
        Inl r \<Rightarrow> (r, m)
      | Inr record \<Rightarrow>
          (case append_key_record (env_append env 0) (workspace_keys_tsv (mg_files m)) record of
             (Inl e, f) \<Rightarrow> (io_failed ''failed to persist key'' e, with_workspace_keys m f)
           | (Inr _, f) \<Rightarrow>
               (case workspace_key_info_json 1024 record of
                  Inl e \<Rightarrow> ApiError CUBICLE_ERR_INTERNAL ''failed to encode key'' False (Some e)
                | Inr s \<Rightarrow> ApiSuccess s,
                with_workspace_keys m f)))"

definition workspace_key_list :: "manager_env \<Rightarrow> connection \<Rightarrow> json \<Rightarrow> manager \<Rightarrow> reply" where
  "workspace_key_list env conn params m =
     reply_of
       (rbind (or_reply (invalid ''missing workspace id'')
          (param_string params ''workspace_id'' 128)) (\<lambda>wref.
        rbind (some_or (not_found ''workspace not found'') (find_workspace (mg_files m) wref)) (\<lambda>workspace.
        rbind (unless (connection_has_workspace_capability env (mg_files m) (ws_id workspace) conn
            CUBICLE_CAP_WORKSPACE_READ) (denied ''workspace key list requires read access'')) (\<lambda>_.
        Inr (list_reply ''{\"keys\":[''
          (items_of (workspace_key_info_json 1024)
             (filter (\<lambda>r. kr_workspace_id r = ws_id workspace) (key_records (workspace_keys_tsv (mg_files m)))))
          (\<lambda>_. '']}'') ''key list response too large'')))))"

definition workspace_key_update :: "manager_env \<Rightarrow> connection \<Rightarrow> json \<Rightarrow> manager \<Rightarrow> reply \<times> manager" where
  "workspace_key_update env conn params m =
     (case
        rbind (or_reply (invalid ''invalid key update request'')
          (rbind (param_string params ''workspace_id'' 128) (\<lambda>wref.
           rbind (param_string params ''key_id'' 128) (\<lambda>key_id.
           rbind (cubicle_json_get_required_u64 params ''capabilities'') (\<lambda>capabilities.
             Inr (wref, key_id, capabilities)))))) (\<lambda>(wref, key_id, capabilities).
        rbind (some_or (not_found ''workspace not found'') (find_workspace (mg_files m) wref)) (\<lambda>workspace.
        rbind (unless (connection_has_workspace_capability env (mg_files m) (ws_id workspace) conn
            CUBICLE_CAP_WORKSPACE_MANAGE_KEYS) (denied ''workspace key update requires owner access'')) (\<lambda>_.
        rbind (lock_state env) (\<lambda>_. Inr (ws_id workspace, key_id, capabilities)))))
      of
        Inl r \<Rightarrow> (r, m)
      | Inr (wid, key_id, capabilities) \<Rightarrow>
          (case update_key_capabilities (env_rewrite env 0) (workspace_keys_tsv (mg_files m)) wid key_id capabilities of
             (Inl e, f) \<Rightarrow> (io_failed ''failed to update key'' e, with_workspace_keys m f)
           | (Inr found, f) \<Rightarrow>
               (if found then ApiSuccess ''{}'' else not_found ''key not found'', with_workspace_keys m f)))"

definition workspace_key_revoke :: "manager_env \<Rightarrow> connection \<Rightarrow> json \<Rightarrow> manager \<Rightarrow> reply \<times> manager" where
  "workspace_key_revoke env conn params m =
     (case
        rbind (or_reply (invalid ''invalid key revoke request'')
          (rbind (param_string params ''workspace_id'' 128) (\<lambda>wref.
           rbind (param_string params ''key_id'' 128) (\<lambda>key_id.
             Inr (wref, key_id))))) (\<lambda>(wref, key_id).
        rbind (some_or (not_found ''workspace not found'') (find_workspace (mg_files m) wref)) (\<lambda>workspace.
        rbind (unless (connection_has_workspace_capability env (mg_files m) (ws_id workspace) conn
            CUBICLE_CAP_WORKSPACE_MANAGE_KEYS) (denied ''workspace key revoke requires owner access'')) (\<lambda>_.
        rbind (lock_state env) (\<lambda>_. Inr (ws_id workspace, key_id)))))
      of
        Inl r \<Rightarrow> (r, m)
      | Inr (wid, key_id) \<Rightarrow>
          (case update_key_revocation (env_rewrite env 0) (workspace_keys_tsv (mg_files m)) wid key_id (env_now_ms env) of
             (Inl e, f) \<Rightarrow> (io_failed ''failed to revoke key'' e, with_workspace_keys m f)
           | (Inr found, f) \<Rightarrow>
               (if found then ApiSuccess ''{}'' else not_found ''key not found'', with_workspace_keys m f)))"

section \<open>Checks\<close>

lemma check_simps [simp]:
  "or_reply r m = Inr x \<longleftrightarrow> m = Inr x"
  "unless b r = Inr u \<longleftrightarrow> b"
  "some_or r o' = Inr y \<longleftrightarrow> o' = Some y"
  "lock_state env = Inr u \<longleftrightarrow> env_lock env = None"
  by (auto simp: or_reply_def unless_def some_or_def lock_state_def split: sum.splits option.splits)

lemma check_eq_Inl:
  "or_reply r x = Inl q \<longleftrightarrow> q = r \<and> (\<exists>e. x = Inl e)"
  "unless b r = Inl q \<longleftrightarrow> q = r \<and> \<not> b"
  "some_or r o' = Inl q \<longleftrightarrow> q = r \<and> o' = None"
  "lock_state env = Inl q \<longleftrightarrow> (\<exists>e. env_lock env = Some e \<and> q = io_failed ''failed to lock manager state'' e)"
  by (auto simp: or_reply_def unless_def some_or_def lock_state_def split: sum.splits option.splits)

lemma check_ok [simp]:
  "or_reply r (Inr x) = Inr x" "unless True r = Inr ()" "some_or r (Some y) = Inr y"
  by (simp_all add: or_reply_def unless_def some_or_def)

lemma check_fail [simp]:
  "or_reply r (Inl e) = Inl r" "unless False r = Inl r" "some_or r None = Inl r"
  by (simp_all add: or_reply_def unless_def some_or_def)

lemma lock_state_simps [simp]:
  "env_lock env = None \<Longrightarrow> lock_state env = Inr ()"
  "env_lock env = Some e \<Longrightarrow> lock_state env = Inl (io_failed ''failed to lock manager state'' e)"
  by (simp_all add: lock_state_def)

lemma error_reply [simp]:
  "invalid msg \<noteq> ApiSuccess s" "denied msg \<noteq> ApiSuccess s" "not_found msg \<noteq> ApiSuccess s"
  "io_failed msg e \<noteq> ApiSuccess s" "too_large msg \<noteq> ApiSuccess s"
  by (simp_all add: invalid_def denied_def not_found_def io_failed_def too_large_def)

declare error_reply [symmetric, simp]

lemma with_keys_simps [simp]:
  "mg_files (with_manager_keys m f) = (mg_files m)\<lparr>manager_keys_tsv := f\<rparr>"
  "mg_files (with_workspace_keys m f) = (mg_files m)\<lparr>workspace_keys_tsv := f\<rparr>"
  "mg_sessions (with_manager_keys m f) = mg_sessions m" "mg_sessions (with_workspace_keys m f) = mg_sessions m"
  "mg_sent (with_manager_keys m f) = mg_sent m" "mg_sent (with_workspace_keys m f) = mg_sent m"
  "mg_removed (with_manager_keys m f) = mg_removed m" "mg_removed (with_workspace_keys m f) = mg_removed m"
  "mg_shutdown (with_manager_keys m f) = mg_shutdown m" "mg_shutdown (with_workspace_keys m f) = mg_shutdown m"
  by (simp_all add: with_manager_keys_def with_workspace_keys_def)

section \<open>Who may change the keys\<close>

lemma manager_keys_guarded:
  "manager_key_add env conn params m = (r, m') \<Longrightarrow>
     m' = m \<or> connection_has_manager_key_capability env (mg_files m) conn CUBICLE_CAP_WORKSPACE_MANAGE_KEYS"
  "manager_key_update env conn params m = (r, m') \<Longrightarrow>
     m' = m \<or> connection_has_manager_key_capability env (mg_files m) conn CUBICLE_CAP_WORKSPACE_MANAGE_KEYS"
  "manager_key_revoke env conn params m = (r, m') \<Longrightarrow>
     m' = m \<or> connection_has_manager_key_capability env (mg_files m) conn CUBICLE_CAP_WORKSPACE_MANAGE_KEYS"
  by (auto simp: manager_key_add_def manager_key_update_def manager_key_revoke_def rbind_eq_Inr
      split: sum.splits prod.splits)

lemma workspace_keys_guarded:
  "workspace_key_add env conn params m = (r, m') \<Longrightarrow>
     m' = m \<or> (\<exists>w. connection_has_workspace_capability env (mg_files m) w conn CUBICLE_CAP_WORKSPACE_MANAGE_KEYS)"
  "workspace_key_update env conn params m = (r, m') \<Longrightarrow>
     m' = m \<or> (\<exists>w. connection_has_workspace_capability env (mg_files m) w conn CUBICLE_CAP_WORKSPACE_MANAGE_KEYS)"
  "workspace_key_revoke env conn params m = (r, m') \<Longrightarrow>
     m' = m \<or> (\<exists>w. connection_has_workspace_capability env (mg_files m) w conn CUBICLE_CAP_WORKSPACE_MANAGE_KEYS)"
  by (auto simp: workspace_key_add_def workspace_key_add_checks_def workspace_key_update_def workspace_key_revoke_def
      rbind_eq_Inr split: sum.splits prod.splits)

section \<open>What a key file grants\<close>

text \<open>The capabilities a file gives to a key in a workspace (in any workspace for \<open>None\<close>).\<close>

definition key_grant :: "state_file \<Rightarrow> bytes option \<Rightarrow> bytes \<Rightarrow> 64 word option" where
  "key_grant f wid key_id = map_option kr_capabilities (find (key_matches wid key_id) (key_records f))"

definition stored_key_ok :: "key_record \<Rightarrow> bool" where
  "stored_key_ok r \<longleftrightarrow> key_ok r \<and> length (kr_fingerprint r) \<le> 64"

definition key_file_ok :: "state_file \<Rightarrow> bool" where
  "key_file_ok f \<longleftrightarrow>
     (let rs = key_records f in
      list_all stored_key_ok rs \<and> (f = None \<or> f = Some (concat (map key_line rs))))"

lemma connection_has_key_capability_grant:
  "connection_has_key_capability f wid conn required \<longleftrightarrow>
     cn_authenticated conn \<and> si_client_key_id (cn_session conn) \<noteq> []
     \<and> (\<exists>granted. key_grant f wid (si_client_key_id (cn_session conn)) = Some granted \<and> granted AND required = required)"
  by (auto simp: connection_has_key_capability_def key_grant_def split: option.splits)

lemma stored_key_ok_keys: "list_all stored_key_ok rs \<Longrightarrow> list_all key_ok rs"
  by (auto simp: list_all_iff stored_key_ok_def)

lemma key_file_okE:
  assumes "key_file_ok f"
  obtains rs where "key_records f = rs" "list_all stored_key_ok rs"
    "(case f of None \<Rightarrow> [] | Some c \<Rightarrow> c) = concat (map key_line rs)"
proof -
  have "(case f of None \<Rightarrow> [] | Some c \<Rightarrow> c) = concat (map key_line (key_records f))"
    using assms by (cases f) (auto simp: key_file_ok_def Let_def)
  then show thesis using assms that by (simp add: key_file_ok_def Let_def)
qed

lemma key_records_printed:
  "list_all stored_key_ok rs \<Longrightarrow> key_records (Some (concat (map key_line rs))) = rs"
  by (rule printed_records(3) [OF stored_key_ok_keys])

lemma key_file_okI: "list_all stored_key_ok rs \<Longrightarrow> key_file_ok (Some (concat (map key_line rs)))"
  by (simp add: key_file_ok_def key_records_printed)

lemma stored_key_ok_edit:
  assumes "stored_key_ok r"
  shows "stored_key_ok (r\<lparr>kr_capabilities := c\<rparr>)" "stored_key_ok (r\<lparr>kr_revoked_at_ms := t\<rparr>)"
  using assms length_show_u64 [of c] length_show_u64 [of t] length_show_u64 [of "kr_capabilities r"]
    length_show_u64 [of "kr_created_at_ms r"] length_show_u64 [of "kr_revoked_at_ms r"]
  by (simp_all add: stored_key_ok_def key_ok_def key_line_def field_ok_def)

lemma edit_keys_ok:
  "list_all stored_key_ok rs \<Longrightarrow> (\<And>r. stored_key_ok r \<Longrightarrow> stored_key_ok (change r)) \<Longrightarrow>
     list_all stored_key_ok (edit_keys wid key_id change rs)"
  by (auto simp: edit_keys_def list_all_iff)

lemma key_matches_edit:
  "key_matches (Some w) k (r\<lparr>kr_capabilities := c\<rparr>) = key_matches (Some w) k r"
  "(kr_workspace_id r, kr_key_id r) \<noteq> (w, k) \<Longrightarrow> \<not> key_matches (Some w) k r"
  by (auto simp: key_matches_def)

lemma find_edit_capabilities:
  "map_option kr_capabilities (find (key_matches (Some w) k) (edit_keys wid kid (\<lambda>r. r\<lparr>kr_capabilities := c\<rparr>) rs)) =
     (if (w, k) = (wid, kid) then map_option (\<lambda>_. c) (find (key_matches (Some w) k) rs)
      else map_option kr_capabilities (find (key_matches (Some w) k) rs))"
proof -
  let ?g = "\<lambda>r. if kr_workspace_id r = wid \<and> kr_key_id r = kid then r\<lparr>kr_capabilities := c\<rparr> else r"
  have "find (key_matches (Some w) k) (map ?g rs) = map_option ?g (find (key_matches (Some w) k) rs)"
    by (rule find_map_same) (simp add: key_matches_edit(1))
  then show ?thesis
    using find_Some [of "key_matches (Some w) k" rs]
    by (cases "find (key_matches (Some w) k) rs") (auto simp: edit_keys_def key_matches_def)
qed

lemma find_edit_revocation:
  assumes "t \<noteq> 0"
  shows "map_option kr_capabilities (find (key_matches (Some w) k) (edit_keys wid kid (\<lambda>r. r\<lparr>kr_revoked_at_ms := t\<rparr>) rs)) =
     (if (w, k) = (wid, kid) then None
      else map_option kr_capabilities (find (key_matches (Some w) k) rs))"
proof (induction rs)
  case (Cons r rs)
  show ?case
  proof (cases "kr_workspace_id r = wid \<and> kr_key_id r = kid")
    case True
    then have "\<not> key_matches (Some w) k (r\<lparr>kr_revoked_at_ms := t\<rparr>)" "(w, k) \<noteq> (wid, kid) \<Longrightarrow> \<not> key_matches (Some w) k r"
      using assms by (auto simp: key_matches_def)
    with True Cons show ?thesis by (simp add: edit_keys_def)
  next
    case False
    then have "(w, k) = (wid, kid) \<Longrightarrow> \<not> key_matches (Some w) k r" by (auto simp: key_matches_def)
    with False Cons show ?thesis by (auto simp: edit_keys_def)
  qed
qed (simp add: edit_keys_def)

lemma key_file_revoke:
  assumes "key_file_ok f" "now \<noteq> 0"
  shows "\<exists>f' found. update_key_revocation None f wid kid now = (Inr found, f') \<and> key_file_ok f'
    \<and> (\<forall>w k. key_grant f' (Some w) k = (if (w, k) = (wid, kid) then None else key_grant f (Some w) k))"
proof -
  obtain rs where rs: "key_records f = rs" "list_all stored_key_ok rs"
    using key_file_okE [OF assms(1)] by blast
  note edited = edit_keys_ok [OF rs(2) stored_key_ok_edit(2), where wid = wid and key_id = kid]
  show ?thesis
    using key_file_okI [OF edited] assms(2)
    by (simp add: update_key_revocation_def rs(1) key_grant_def key_records_printed [OF edited]
        find_edit_revocation)
qed

text \<open>C29. (\<open>append_key_record\<close>, \<open>update_key_capabilities\<close>, \<open>update_key_revocation\<close>.) On a well-formed key
  file, adding a key grants its capabilities unless the key already has some in the
  workspace, which it then keeps; an update replaces the capabilities of an active key;
  a revocation takes them away; no other key and no other workspace is affected, and the
  file stays well formed.\<close>

theorem key_file_refines:
  assumes ok: "key_file_ok f" and new: "stored_key_ok r" "kr_revoked_at_ms r = 0" and "now \<noteq> 0"
  shows "(\<exists>f'. append_key_record io_done f r = (Inr (), f') \<and> key_file_ok f'
        \<and> (\<forall>w k. key_grant f' (Some w) k =
            (if (w, k) = (kr_workspace_id r, kr_key_id r) \<and> key_grant f (Some w) k = None
             then Some (kr_capabilities r) else key_grant f (Some w) k)))
    \<and> (\<exists>f' found. update_key_capabilities None f wid kid c = (Inr found, f') \<and> key_file_ok f'
        \<and> (\<forall>w k. key_grant f' (Some w) k =
            (if (w, k) = (wid, kid) then map_option (\<lambda>_. c) (key_grant f (Some w) k) else key_grant f (Some w) k)))
    \<and> (\<exists>f' found. update_key_revocation None f wid kid now = (Inr found, f') \<and> key_file_ok f'
        \<and> (\<forall>w k. key_grant f' (Some w) k = (if (w, k) = (wid, kid) then None else key_grant f (Some w) k)))"
proof -
  obtain rs where rs: "key_records f = rs" "list_all stored_key_ok rs"
    and content: "(case f of None \<Rightarrow> [] | Some c \<Rightarrow> c) = concat (map key_line rs)"
    using key_file_okE [OF ok] by blast
  have added: "list_all stored_key_ok (rs @ [r])" using rs new by simp
  have "append_key_record io_done f r = (Inr (), Some (concat (map key_line (rs @ [r]))))"
    using content new(1) by (simp add: append_key_record_def stored_key_ok_def key_ok_def)
  moreover have "key_grant (Some (concat (map key_line (rs @ [r])))) (Some w) k =
      (if (w, k) = (kr_workspace_id r, kr_key_id r) \<and> key_grant f (Some w) k = None
       then Some (kr_capabilities r) else key_grant f (Some w) k)" for w k
    using new(2) unfolding key_grant_def key_records_printed [OF added] rs(1)
    by (auto simp: find_append key_matches_def split: option.splits)
  ultimately have A: "\<exists>f'. append_key_record io_done f r = (Inr (), f') \<and> key_file_ok f'
        \<and> (\<forall>w k. key_grant f' (Some w) k =
            (if (w, k) = (kr_workspace_id r, kr_key_id r) \<and> key_grant f (Some w) k = None
             then Some (kr_capabilities r) else key_grant f (Some w) k))"
    using key_file_okI [OF added] by blast
  note edited = edit_keys_ok [OF rs(2) stored_key_ok_edit(1), where wid = wid and key_id = kid]
  have U: "\<exists>f' found. update_key_capabilities None f wid kid c = (Inr found, f') \<and> key_file_ok f'
        \<and> (\<forall>w k. key_grant f' (Some w) k =
            (if (w, k) = (wid, kid) then map_option (\<lambda>_. c) (key_grant f (Some w) k) else key_grant f (Some w) k))"
    using key_file_okI [OF edited]
    by (simp add: update_key_capabilities_def rs(1) key_grant_def key_records_printed [OF edited]
        find_edit_capabilities option.map_comp comp_def)
  from A U key_file_revoke [OF ok assms(4)] show ?thesis by blast
qed

definition example_key :: "bytes \<Rightarrow> bytes \<Rightarrow> 64 word \<Rightarrow> key_record" where
  "example_key wid kid c =
     \<lparr>kr_workspace_id = wid, kr_key_id = kid, kr_fingerprint = ''f0'', kr_label = ''me'', kr_capabilities = c,
      kr_created_at_ms = 1, kr_revoked_at_ms = 0, kr_public_key_hex = ''00''\<rparr>"

lemma example_key_ok:
  "field_ok 33 wid \<Longrightarrow> wid \<noteq> [] \<Longrightarrow> field_ok 33 kid \<Longrightarrow> kid \<noteq> [] \<Longrightarrow> stored_key_ok (example_key wid kid c)"
  using length_show_u64 [of c] length_show_u64 [of 0] length_show_u64 [of 1]
  by (simp add: stored_key_ok_def key_ok_def field_ok_def plain_field_def is_sep_def example_key_def key_line_def)

lemma example_names: "field_ok 33 ''w1''" "field_ok 33 ''w2''" "field_ok 33 ''k1''" "field_ok 33 ''k2''"
  by (simp_all add: field_ok_def plain_field_def is_sep_def)

theorem key_file_refines_witness:
  "\<exists>f' found. update_key_revocation None (Some (key_line (example_key ''w1'' ''k1'' 16))) ''w1'' ''k1'' 5 = (Inr found, f')
    \<and> key_file_ok f' \<and> (\<forall>w k. key_grant f' (Some w) k = (if (w, k) = (''w1'', ''k1'') then None
        else key_grant (Some (key_line (example_key ''w1'' ''k1'' 16))) (Some w) k))"
proof -
  have ok: "key_file_ok (Some (key_line (example_key ''w1'' ''k1'' 16)))"
    using key_file_okI [of "[example_key ''w1'' ''k1'' 16]"] example_key_ok [of "''w1''" "''k1''"] example_names by simp
  have "stored_key_ok (example_key ''w2'' ''k2'' 1)" by (rule example_key_ok) (simp_all add: example_names)
  from key_file_refines [OF ok this, of 5 "''w1''" "''k1''", THEN conjunct2, THEN conjunct2]
  show ?thesis by (simp add: example_key_def)
qed

section \<open>Revocation\<close>


text \<open>A manager whose calls all succeed, with two workspaces and one key, and a connection of that key.\<close>

definition example_env :: manager_env where
  "example_env = \<lparr>env_euid = 1000, env_now_ms = 5, env_started_at_ms = 1, env_manager_id = Inr ''m'',
     env_identity_key_id = ''mk'', env_identity_public_key = replicate 32 (CHR ''K''), env_identity_public_key_hex = ''4b'',
     env_lock = None, env_append = (\<lambda>_. io_done), env_rewrite = (\<lambda>_. None), env_hex_id = (\<lambda>_. Inr ''id''),
     env_random = (\<lambda>_ n. Inr (replicate n (CHR ''R''))), env_sha256 = (\<lambda>_. replicate 32 (CHR ''A'')),
     env_verify = (\<lambda>_ _ _. True), env_hmac = (\<lambda>_ _. Inr (replicate 32 (CHR ''H''))), env_resolve = (\<lambda>_. Inr ''/''),
     env_line = (\<lambda>_ _ _. Inr ''ok''), env_events_log = (\<lambda>_ _. None), env_output = (\<lambda>_ _. Inr []),
     env_remove_tree = (\<lambda>_. None), env_dir = ''/d'', env_runtime_dir = ''/r'', env_log_dir = ''/l'', env_mkdir = (\<lambda>_. None),
     env_launch = (\<lambda>_. None), env_ready = (\<lambda>_ _. (True, True, False)), env_metadata = (\<lambda>_. Some (''controller_id=c'' @ [NL])),
     env_link = example_link, env_kill = (\<lambda>_. None), env_workspace_events = None, env_controller_bin = ''cubicle-controller'',
     env_controller_debug = [], env_stat_output = None, env_read_output = None, env_alloc = (\<lambda>_. True), env_rd = (\<lambda>_. None),
     env_wr = (\<lambda>_. Some ''{}'')\<rparr>"

definition example_workspaces :: "workspace_record list" where
  "example_workspaces =
     [\<lparr>ws_id = ''w1'', ws_name = ''main'', ws_directory = ''/home''\<rparr>,
      \<lparr>ws_id = ''w2'', ws_name = ''other'', ws_directory = ''/srv''\<rparr>]"

definition example_manager :: manager where
  "example_manager = \<lparr>mg_files = \<lparr>workspaces_tsv = Some (concat (map workspace_line example_workspaces)),
       processes_tsv = None, manager_keys_tsv = None,
       workspace_keys_tsv = Some (concat (map key_line [example_key ''w1'' ''k1'' 16])), macros_tsv = None, cursors_tsv = None\<rparr>,
     mg_sessions = [], mg_shutdown = False, mg_sent = [], mg_removed = [], mg_launched = [], mg_killed = []\<rparr>"

definition example_session :: session_info where
  "example_session = \<lparr>si_session_id = ''s'', si_manager_id = ''m'', si_client_key_id = ''k1'', si_protocol_major = 0,
     si_protocol_minor = 1, si_negotiated_capabilities = 0, si_authenticated_at_ms = 2, si_expires_at_ms = 9\<rparr>"

definition example_connection :: connection where
  "example_connection = \<lparr>cn_has_peer_credentials = True, cn_is_tls = False, cn_peer_uid = 1001, cn_peer_gid = 1001,
     cn_pending_auth = None, cn_authenticated = True, cn_session = example_session, cn_resume_secret = [],
     cn_client_public_key_hex = ''00'', cn_links = manager_controller_cache_init\<rparr>"

lemma example_find_workspace:
  "find_workspace (mg_files example_manager) ''w1'' = Some \<lparr>ws_id = ''w1'', ws_name = ''main'', ws_directory = ''/home''\<rparr>"
proof -
  have "list_all workspace_ok example_workspaces"
    by (simp add: example_workspaces_def workspace_ok_def field_ok_def plain_field_def is_sep_def workspace_line_def)
  then have "workspace_records (workspaces_tsv (mg_files example_manager)) = example_workspaces"
    by (simp add: example_manager_def printed_records)
  then show ?thesis by (simp add: find_workspace_def example_workspaces_def)
qed

lemma example_keys_ok: "list_all stored_key_ok [example_key ''w1'' ''k1'' 16]"
  by (simp add: example_key_ok example_names)

lemma example_manages_keys:
  "connection_has_workspace_capability example_env (mg_files example_manager) ''w1'' example_connection
     CUBICLE_CAP_WORKSPACE_MANAGE_KEYS"
  using key_records_printed [OF example_keys_ok]
  by (simp add: connection_has_workspace_capability_def connection_has_key_capability_def example_connection_def
      example_session_def example_manager_def key_matches_def example_key_def capability_defs)


section \<open>A label that is not one field\<close>

text \<open>
  A label that ends the record of the requested workspace and holds a record of another one.
\<close>

definition escalation_label :: "bytes \<Rightarrow> bytes \<Rightarrow> bytes" where
  "escalation_label wid kid =
     [NL] @ wid @ [TAB] @ kid @ [TAB, TAB, TAB] @ ''81727'' @ [TAB] @ ''0'' @ [TAB] @ ''0'' @ [TAB]"

definition escalation_params :: "bytes \<Rightarrow> bytes \<Rightarrow> bytes \<Rightarrow> json" where
  "escalation_params w1 w2 kid =
     JObj [(''workspace_id'', JStr w1), (''public_key'', JStr ''00''), (''label'', JStr (escalation_label w2 kid)),
           (''capabilities'', JUint 0)]"

lemma hex_char_plain: "d < 16 \<Longrightarrow> \<not> is_sep (hex_char d) \<and> hex_char d \<noteq> NUL"
proof -
  assume d: "d < 16"
  then have "byte (hex_char d) = (if d < 10 then 48 + d else 87 + d)" by (simp add: hex_char_def)
  then have "byte (hex_char d) \<ge> 48" by (simp split: if_splits)
  then show ?thesis by (auto simp: is_sep_def)
qed

lemma plain_field_hex: "plain_field (concat (map hex2 s))"
proof -
  have "\<not> is_sep c \<and> c \<noteq> NUL" if "c \<in> set (hex2 x)" for c x
    using that hex_char_plain [of "byte x div 16"] hex_char_plain [of "byte x mod 16"]
    by (auto simp: hex2_def less_mult_imp_div_less)
  then show ?thesis unfolding plain_field_def by (induction s) auto
qed

lemma role_owner_capabilities_value: "role_owner_capabilities = 81727"
  by (simp add: role_owner_capabilities_def capability_defs)

lemma strtoull_literals: "strtoull ''81727'' = 81727" "strtoull ''0'' = 0"
  by (simp_all add: strtoull_def sign_split_def isspace_def is_digit_def dec_value_def digit_value_def)

lemma parse_short_line:
  assumes "plain_field a" "plain_field b" "plain_field c"
  shows "parse_workspace_key_record (a @ TAB # b @ TAB # c @ [TAB, NL]) = None"
  using assms by (simp add: parse_workspace_key_record_def split_fields_sep)

lemma split_owner_fields:
  "split_fields (''81727'' @ TAB # ''0'' @ TAB # ''0'' @ TAB # TAB # t) = [''81727'', ''0'', ''0'', []] @ split_fields t"
  by (simp add: is_sep_def)

lemma parse_escalated_line:
  assumes "field_ok 33 wid" "wid \<noteq> []" "field_ok 33 kid" "kid \<noteq> []"
    and "length (wid @ TAB # kid @ TAB # TAB # TAB # ''81727'' @ TAB # ''0'' @ TAB # ''0'' @ TAB # TAB # t) < 1024"
  shows "\<exists>r. parse_workspace_key_record
      (wid @ TAB # kid @ TAB # TAB # TAB # ''81727'' @ TAB # ''0'' @ TAB # ''0'' @ TAB # TAB # t) = Some r
    \<and> kr_workspace_id r = wid \<and> kr_key_id r = kid \<and> kr_capabilities r = 81727 \<and> kr_revoked_at_ms r = 0"
proof -
  let ?l = "wid @ TAB # kid @ TAB # TAB # TAB # ''81727'' @ TAB # ''0'' @ TAB # ''0'' @ TAB # TAB # t"
  have "split_fields ?l = [wid, kid, [], [], ''81727'', ''0'', ''0'', []] @ split_fields t"
    using assms(1,3) by (simp only: field_ok_def split_fields_sep is_sep_simps split_fields.simps if_True split_owner_fields)
      simp
  moreover have "store 33 wid = wid" "store 33 kid = kid" using assms by (simp_all only: store_id)
  ultimately show ?thesis
    using assms(2,4,5) by (simp add: parse_workspace_key_record_def strtoull_literals)
qed

text \<open>
  The capabilities that a request with the label adds, and where.
\<close>

lemma escalated_records:
  assumes "list_all key_ok rs" "plain_field a" "plain_field b" "plain_field c" "length a + length b + length c < 1000"
    and wk: "field_ok 33 wid" "wid \<noteq> []" "field_ok 33 kid" "kid \<noteq> []"
    and t: "plain_field u" "plain_field v" "plain_field w" "plain_field x"
    and len: "length u + length v + length w + length x < 900"
  shows "\<exists>r. key_records (Some (concat (map key_line rs) @ a @ TAB # b @ TAB # c @ TAB # escalation_label wid kid
      @ TAB # u @ TAB # v @ TAB # w @ TAB # x @ [NL])) = rs @ [r]
    \<and> kr_workspace_id r = wid \<and> kr_key_id r = kid \<and> kr_capabilities r = 81727 \<and> kr_revoked_at_ms r = 0"
proof -
  let ?l1 = "a @ TAB # b @ TAB # c @ [TAB]"
  let ?t = "u @ TAB # v @ TAB # w @ TAB # x"
  let ?l2 = "wid @ TAB # kid @ TAB # TAB # TAB # ''81727'' @ TAB # ''0'' @ TAB # ''0'' @ TAB # TAB # ?t"
  have wk': "plain_field wid" "plain_field kid" "length wid \<le> 32" "length kid \<le> 32"
    using wk by (simp_all add: field_ok_def)
  have line: "a @ TAB # b @ TAB # c @ TAB # escalation_label wid kid @ TAB # u @ TAB # v @ TAB # w @ TAB # x @ [NL]
      = ?l1 @ NL # ?l2 @ NL # []"
    by (simp add: escalation_label_def)
  have l2: "length (?l2 @ [NL]) < 1024" using wk' len by simp
  then obtain r where r: "parse_workspace_key_record (?l2 @ [NL]) = Some r" "kr_workspace_id r = wid" "kr_key_id r = kid"
    "kr_capabilities r = 81727" "kr_revoked_at_ms r = 0"
    using parse_escalated_line [OF wk, of "?t @ [NL]"] by auto
  have "NL \<notin> set ?l1" "is_cstr ?l1" using assms(2-4) by (simp_all add: plain_field_NL plain_field_cstr)
  moreover have "NL \<notin> set ?l2" "is_cstr ?l2" using t wk' by (simp_all add: plain_field_NL plain_field_cstr)
  moreover have "parse_workspace_key_record (?l1 @ [NL]) = None"
    using parse_short_line [OF assms(2-4)] by simp
  moreover have "file_records parse_workspace_key_record 1024 [] = []"
    by (simp add: file_records_def fgets_lines.simps List.map_filter_simps)
  ultimately have "file_records parse_workspace_key_record 1024 (?l1 @ NL # ?l2 @ NL # []) = [r]"
    using file_records_line [of ?l1 1024 parse_workspace_key_record "?l2 @ NL # []"]
      file_records_line [of ?l2 1024 parse_workspace_key_record "[]"] r(1) l2 assms(5) by simp
  then have "key_records (Some (concat (map key_line rs) @ ?l1 @ NL # ?l2 @ NL # [])) = rs @ [r]"
    using keys.file_records_prefix [OF assms(1)] by (simp add: key_records_def records_of_def)
  then show ?thesis using r line by metis
qed

lemma escalation_params_read:
  assumes "is_cstr w1" "length w1 < 128" "field_ok 33 w2" "field_ok 33 kid"
  shows "param_string (escalation_params w1 w2 kid) ''workspace_id'' 128 = Inr w1"
    "param_string (escalation_params w1 w2 kid) ''public_key'' 512 = Inr ''00''"
    "param_optional_string (escalation_params w1 w2 kid) ''label'' 128 = Inr (Some (escalation_label w2 kid))"
    "cubicle_json_get_required_u64 (escalation_params w1 w2 kid) ''capabilities'' = Inr 0"
proof -
  have "is_cstr (escalation_label w2 kid)" "length (escalation_label w2 kid) < 128"
    using assms by (simp_all add: escalation_label_def field_ok_def plain_field_cstr)
  then show "param_optional_string (escalation_params w1 w2 kid) ''label'' 128 = Inr (Some (escalation_label w2 kid))"
    by (simp add: param_optional_string_def cubicle_json_get_optional_string_def optional_field_def
        find_object_member_def checked_string_def escalation_params_def cstr_id)
qed (use assms in \<open>simp_all add: param_string_def cubicle_json_get_required_string_def required_field_def
    find_object_member_def checked_string_def escalation_params_def cstr_id cubicle_json_get_required_u64_def\<close>)

lemma build_example_key:
  assumes "\<forall>s. length (sha256 s) = 32" "field_ok 33 wid"
  shows "\<exists>k fp. plain_field k \<and> length k = 32 \<and> plain_field fp \<and> length fp = 64 \<and>
    build_workspace_key_record_from_public_hex sha256 wid ''00'' label c now =
      Inr \<lparr>kr_workspace_id = wid, kr_key_id = k, kr_fingerprint = fp, kr_label = store 128 label,
           kr_capabilities = c, kr_created_at_ms = now, kr_revoked_at_ms = 0, kr_public_key_hex = ''00''\<rparr>"
proof -
  let ?h = "concat (map hex2 (sha256 [NUL]))"
  have len: "length ?h = 64"
    using assms(1) by (simp add: length_concat comp_def sum_list_triv)
  have key: "public_key_bytes ''00'' = Some [NUL]"
    by (simp add: hex_pair_def hex_value_def char_of_def)
  have h: "cubicle_auth_key_fingerprint sha256 [NUL] = Inr (take 32 ?h, ?h)"
    using len assms(1) by (simp add: cubicle_auth_key_fingerprint_def cubicle_auth_hex_encode_def)
  have "build_workspace_key_record_from_public_hex sha256 wid ''00'' label c now =
      Inr \<lparr>kr_workspace_id = wid, kr_key_id = take 32 ?h, kr_fingerprint = ?h, kr_label = store 128 label,
           kr_capabilities = c, kr_created_at_ms = now, kr_revoked_at_ms = 0, kr_public_key_hex = ''00''\<rparr>"
    using len assms(2) unfolding build_workspace_key_record_from_public_hex_def key
    by (simp add: h store_id) (simp add: store_def)
  moreover have "plain_field ?h" "plain_field (take 32 ?h)" "length (take 32 ?h) = 32"
    using len by (simp_all only: plain_field_hex plain_field_take length_take)
  ultimately show ?thesis using len by (intro exI conjI)
qed

text \<open>C31. (\<open>workspace.key.add\<close>.) The label of a new key is stored without being checked for tabs and
  newlines. So a key that may manage the keys of one workspace can give itself the
  capabilities of an owner of any other workspace, with one request on its own workspace.\<close>

theorem key_label_escalates:
  assumes "cn_authenticated conn" "si_client_key_id (cn_session conn) = kid"
    and kid: "field_ok 33 kid" "kid \<noteq> []" and w2: "field_ok 33 w2" "w2 \<noteq> []"
    and w: "find_workspace (mg_files m) w1 = Some w" "ws_id w = w1" "field_ok 33 w1"
    and manages: "connection_has_workspace_capability env (mg_files m) w1 conn CUBICLE_CAP_WORKSPACE_MANAGE_KEYS"
    and content: "workspace_keys_tsv (mg_files m) = Some (concat (map key_line rs))" "list_all key_ok rs"
    and fresh: "\<forall>r \<in> set rs. (kr_workspace_id r, kr_key_id r) \<noteq> (w2, kid)"
    and env: "env_lock env = None" "env_append env 0 = io_done" "\<forall>s. length (env_sha256 env s) = 32"
  shows "connection_has_workspace_capability env
    (mg_files (snd (workspace_key_add env conn (escalation_params w1 w2 kid) m))) w2 conn role_owner_capabilities"
proof -
  obtain k fp where k: "plain_field k" "length k = 32" "plain_field fp" "length fp = 64"
    and built: "build_workspace_key_record_from_public_hex (env_sha256 env) w1 ''00'' (escalation_label w2 kid) 0 (env_now_ms env) =
      Inr \<lparr>kr_workspace_id = w1, kr_key_id = k, kr_fingerprint = fp, kr_label = store 128 (escalation_label w2 kid),
           kr_capabilities = 0, kr_created_at_ms = env_now_ms env, kr_revoked_at_ms = 0, kr_public_key_hex = ''00''\<rparr>"
    (is "_ = Inr ?r") using build_example_key [OF env(3) w(3)] by blast
  have w1: "plain_field w1" "length w1 \<le> 32" using w(3) by (simp_all add: field_ok_def)
  have "length (escalation_label w2 kid) \<le> 90"
    using w2 kid by (simp add: escalation_label_def field_ok_def)
  then have label: "store 128 (escalation_label w2 kid) = escalation_label w2 kid" "length (escalation_label w2 kid) \<le> 90"
    by (simp_all add: store_def)
  have read: "workspace_key_add_checks env conn (escalation_params w1 w2 kid) m = Inr ?r"
    using escalation_params_read [of w1 w2 kid] w1 w2(1) kid(1) w manages env built
    by (simp add: workspace_key_add_checks_def label_of_def plain_field_cstr)
  have line: "key_line ?r = w1 @ TAB # k @ TAB # fp @ TAB # escalation_label w2 kid
      @ TAB # show_nat 0 @ TAB # show_nat (unat (env_now_ms env)) @ TAB # show_nat 0 @ TAB # ''00'' @ [NL]"
    by (simp add: key_line_def label(1))
  have short: "length (show_nat 0) = 1" "length (show_nat (unat (env_now_ms env))) \<le> 20"
    by (simp add: show_nat.simps, rule length_show_u64)
  then have "length (key_line ?r) < 1024" using w1(2) k label(2) unfolding line by simp
  then have m': "workspace_keys_tsv (mg_files (snd (workspace_key_add env conn (escalation_params w1 w2 kid) m)))
      = Some (concat (map key_line rs) @ key_line ?r)"
    by (simp add: workspace_key_add_def read append_key_record_def content(1) env(2))
  obtain r where r: "key_records (Some (concat (map key_line rs) @ key_line ?r)) = rs @ [r]"
    "kr_workspace_id r = w2" "kr_key_id r = kid" "kr_capabilities r = 81727" "kr_revoked_at_ms r = 0"
    using escalated_records [OF content(2) w1(1) k(1,3) _ w2 kid plain_field_show_nat plain_field_show_nat plain_field_show_nat, of "''00''" 0
        "unat (env_now_ms env)" 0] w1(2) k short unfolding line by (auto simp: plain_field_def is_sep_def)
  have "find (key_matches (Some w2) kid) rs = None"
    using fresh by (auto simp: find_None key_matches_def)
  then show ?thesis
    using r assms(1,2) kid(2)
    by (simp add: connection_has_workspace_capability_def connection_has_key_capability_def m' find_append key_matches_def
        role_owner_capabilities_value)
qed

theorem key_label_escalates_witness:
  "\<not> connection_has_workspace_capability example_env (mg_files example_manager) ''w2'' example_connection 1
   \<and> connection_has_workspace_capability example_env
      (mg_files (snd (workspace_key_add example_env example_connection (escalation_params ''w1'' ''w2'' ''k1'') example_manager)))
      ''w2'' example_connection role_owner_capabilities"
proof (rule conjI)
  have keys: "key_records (Some (key_line (example_key ''w1'' ''k1'' 16))) = [example_key ''w1'' ''k1'' 16]"
    using key_records_printed [OF example_keys_ok] by simp
  have "\<not> key_matches (Some ''w2'') k (example_key ''w1'' ''k1'' 16)" for k
    by (simp add: key_matches_def example_key_def)
  then show "\<not> connection_has_workspace_capability example_env (mg_files example_manager) ''w2'' example_connection 1"
    by (simp add: connection_has_workspace_capability_def connection_is_manager_owner_def connection_is_same_uid_def
        connection_has_key_capability_def example_connection_def example_env_def example_manager_def keys)
  show "connection_has_workspace_capability example_env
      (mg_files (snd (workspace_key_add example_env example_connection (escalation_params ''w1'' ''w2'' ''k1'') example_manager)))
      ''w2'' example_connection role_owner_capabilities"
  proof (rule key_label_escalates)
    show "list_all key_ok [example_key ''w1'' ''k1'' 16]" by (rule stored_key_ok_keys [OF example_keys_ok])
    show "find_workspace (mg_files example_manager) ''w1'' = Some \<lparr>ws_id = ''w1'', ws_name = ''main'', ws_directory = ''/home''\<rparr>"
      by (rule example_find_workspace)
    show "connection_has_workspace_capability example_env (mg_files example_manager) ''w1'' example_connection
        CUBICLE_CAP_WORKSPACE_MANAGE_KEYS" by (rule example_manages_keys)
  qed (simp_all add: example_names example_connection_def example_session_def example_manager_def example_env_def example_key_def)
qed

end
