(* ===== verification/Manager_Control.thy ===== *)
theory Manager_Control
  imports Manager_Access
begin

text \<open>
  The manager's view of its controllers (\<open>src/src/manager/main.c\<close>, lines 2180 to 3094): the
  text commands it sends to their sockets, the state it observes of a process, and the
  reconciliation of the process file with what it observes.
\<close>

section \<open>Text search\<close>

text \<open>\<open>strstr\<close>: the rest of the text from the first occurrence.\<close>

fun strstr :: "bytes \<Rightarrow> bytes \<Rightarrow> bytes option" where
  "strstr needle [] = (if needle = [] then Some [] else None)"
| "strstr needle (c # cs) =
     (if take (length needle) (c # cs) = needle then Some (c # cs) else strstr needle cs)"

section \<open>Commands\<close>

text \<open>A response of a controller, read into a buffer of \<open>n\<close> bytes.\<close>

definition controller_line_request ::
    "manager_env \<Rightarrow> manager \<Rightarrow> bytes \<Rightarrow> bytes \<Rightarrow> nat \<Rightarrow> bytes result \<times> manager" where
  "controller_line_request env m socket_path command n =
     (if length socket_path \<ge> 108 then (Inl EINVAL, m)
      else
        (case env_line env (length (mg_sent m)) socket_path command of
           Inl e \<Rightarrow> Inl e
         | Inr response \<Rightarrow>
             let r = cstr (take (n - 1) response) in if take 2 r = ''ok'' then Inr r else Inl errno_unset,
         m\<lparr>mg_sent := mg_sent m @ [(socket_path, command)]\<rparr>))"

definition signal_controller :: "manager_env \<Rightarrow> manager \<Rightarrow> process_record \<Rightarrow> nat \<Rightarrow> bytes result \<times> manager" where
  "signal_controller env m p signal_number =
     controller_line_request env m (pr_control_socket p) (''signal '' @ show_nat signal_number) 256"

definition terminate_controller :: "manager_env \<Rightarrow> manager \<Rightarrow> process_record \<Rightarrow> bytes result \<times> manager" where
  "terminate_controller env m p = controller_line_request env m (pr_control_socket p) ''terminate'' 256"

definition status_word :: "bytes \<Rightarrow> bytes result" where
  "status_word response =
     (case strstr ''state='' response of
        None \<Rightarrow> Inl EPROTO
      | Some s \<Rightarrow>
          let w = takeWhile (\<lambda>c. c \<noteq> CHR '' '' \<and> c \<noteq> NL) (drop 6 s) in
          if w = [] \<or> length w \<ge> 32 then Inl EPROTO
          else Inr (if w = ''exited'' then ''completed'' else w))"

definition controller_status_state :: "manager_env \<Rightarrow> manager \<Rightarrow> process_record \<Rightarrow> bytes result \<times> manager" where
  "controller_status_state env m p =
     (case controller_line_request env m (pr_control_socket p) ''status'' 512 of
        (Inl e, m') \<Rightarrow> (Inl e, m')
      | (Inr response, m') \<Rightarrow> (status_word response, m'))"

section \<open>The state of a process\<close>

definition process_event_log_has_exit :: "manager_env \<Rightarrow> manager \<Rightarrow> bytes \<Rightarrow> bool" where
  "process_event_log_has_exit env m pid =
     (case env_events_log env (length (mg_sent m)) pid of
        None \<Rightarrow> False
      | Some content \<Rightarrow> list_ex (\<lambda>l. strstr ''type=process_exited'' (cstr l) \<noteq> None) (fgets_lines 1024 content))"

definition process_observed_state :: "manager_env \<Rightarrow> manager \<Rightarrow> process_record \<Rightarrow> bytes \<times> manager" where
  "process_observed_state env m p =
     (if process_is_terminal_state (pr_state p) then (pr_state p, m)
      else case controller_status_state env m p of
        (Inr s, m') \<Rightarrow> (s, m')
      | (Inl _, m') \<Rightarrow>
          (if process_event_log_has_exit env m' (pr_process_id p) then ''completed'' else ''lost'', m'))"

definition refresh_observed_process_state :: "manager_env \<Rightarrow> manager \<Rightarrow> process_record \<Rightarrow> process_record \<times> manager" where
  "refresh_observed_process_state env m p =
     (case process_observed_state env m p of (s, m') \<Rightarrow> (p\<lparr>pr_state := store 32 s\<rparr>, m'))"

definition state_update :: "bytes \<Rightarrow> process_update" where
  "state_update s = \<lparr>pu_state = Some s, pu_saved = None, pu_friendly_name = None, pu_restart = None\<rparr>"

definition with_processes :: "manager \<Rightarrow> state_file \<Rightarrow> manager" where
  "with_processes m f = m\<lparr>mg_files := (mg_files m)\<lparr>processes_tsv := f\<rparr>\<rparr>"

text \<open>The processes that ended since they were recorded, with their new states.\<close>

fun collect_updates :: "manager_env \<Rightarrow> manager \<Rightarrow> process_record list \<Rightarrow> (bytes \<times> bytes) list \<times> manager" where
  "collect_updates env m [] = ([], m)"
| "collect_updates env m (p # ps) =
     (if process_is_terminal_state (pr_state p) then collect_updates env m ps
      else
        (let (s, m1) = process_observed_state env m p; (us, m2) = collect_updates env m1 ps in
         (if s = pr_state p \<or> \<not> process_is_terminal_state s then us else (pr_process_id p, store 32 s) # us, m2)))"

fun apply_updates :: "manager_env \<Rightarrow> nat \<Rightarrow> (bytes \<times> bytes) list \<Rightarrow> manager \<Rightarrow> unit result \<times> manager" where
  "apply_updates env i [] m = (Inr (), m)"
| "apply_updates env i ((pid, s) # us) m =
     (case rewrite_process_records (env_rewrite env i) (processes_tsv (mg_files m)) pid (Some (state_update s)) False of
        (Inl e, f) \<Rightarrow> (Inl e, with_processes m f)
      | (Inr _, f) \<Rightarrow> apply_updates env (Suc i) us (with_processes m f))"

definition reconcile_process_records :: "manager_env \<Rightarrow> manager \<Rightarrow> unit result \<times> manager" where
  "reconcile_process_records env m =
     (case env_lock env of
        Some e \<Rightarrow> (Inl e, m)
      | None \<Rightarrow>
          (let (us, m') = collect_updates env m (process_records (processes_tsv (mg_files m))) in
           apply_updates env 0 us m'))"

section \<open>Removing processes\<close>

text \<open>
  The records are removed one by one, each with the directories of its controller; the
  result counts the records found, and an error names the step that failed.
\<close>

datatype removal_error = RecordNotRemoved errno | StateNotRemoved errno

fun remove_processes ::
    "manager_env \<Rightarrow> nat \<Rightarrow> bytes list \<Rightarrow> manager \<Rightarrow> (removal_error + nat) \<times> manager" where
  "remove_processes env i [] m = (Inr 0, m)"
| "remove_processes env i (pid # pids) m =
     (case rewrite_process_records (env_rewrite env i) (processes_tsv (mg_files m)) pid None True of
        (Inl e, f) \<Rightarrow> (Inl (RecordNotRemoved e), with_processes m f)
      | (Inr found, f) \<Rightarrow>
          (case env_remove_tree env pid of
             Some e \<Rightarrow> (Inl (StateNotRemoved e), with_processes m f)
           | None \<Rightarrow>
               (let m1 = with_processes m f in
                case remove_processes env (Suc i) pids (m1\<lparr>mg_removed := mg_removed m1 @ [pid]\<rparr>) of
                  (Inl e, m2) \<Rightarrow> (Inl e, m2)
                | (Inr n, m2) \<Rightarrow> (Inr (if found then Suc n else n), m2))))"

section \<open>What talking to controllers changes\<close>

text \<open>Commands to controllers change nothing but the list of the commands sent.\<close>

definition sends :: "manager \<Rightarrow> manager \<Rightarrow> bool" where
  "sends m m' \<longleftrightarrow> (\<exists>cs. m' = m\<lparr>mg_sent := mg_sent m @ cs\<rparr>)"

lemma sends_refl [simp, intro]: "sends m m"
  unfolding sends_def by (rule exI [of _ "[]"]) simp

lemma sends_trans [trans]: "sends a b \<Longrightarrow> sends b c \<Longrightarrow> sends a c"
  unfolding sends_def by fastforce

lemma sends_files: "sends m m' \<Longrightarrow> mg_files m' = mg_files m"
  by (auto simp: sends_def)

lemma line_request_sends: "controller_line_request env m s c n = (r, m') \<Longrightarrow> sends m m'"
  by (auto simp: controller_line_request_def sends_def split: if_splits intro: exI [of _ "[]"])

lemma terminate_sends: "terminate_controller env m p = (r, m') \<Longrightarrow> sends m m'"
  unfolding terminate_controller_def by (rule line_request_sends)

lemma signal_sends: "signal_controller env m p k = (r, m') \<Longrightarrow> sends m m'"
  unfolding signal_controller_def by (rule line_request_sends)

lemma status_sends: "controller_status_state env m p = (r, m') \<Longrightarrow> sends m m'"
  unfolding controller_status_state_def by (auto dest: line_request_sends split: prod.splits sum.splits)

lemma observed_sends: "process_observed_state env m p = (s, m') \<Longrightarrow> sends m m'"
  unfolding process_observed_state_def by (auto dest: status_sends split: prod.splits sum.splits if_splits)

lemma refresh_sends: "refresh_observed_process_state env m p = (q, m') \<Longrightarrow> sends m m'"
  unfolding refresh_observed_process_state_def by (auto dest: observed_sends split: prod.splits)

lemma collect_sends: "collect_updates env m ps = (us, m') \<Longrightarrow> sends m m'"
proof (induction ps arbitrary: m us)
  case (Cons p ps)
  then show ?case
    by (auto simp: Let_def split: if_splits prod.splits dest: observed_sends intro: sends_trans)
qed auto

lemma remove_processes_files:
  "remove_processes env i pids m = (r, m') \<Longrightarrow>
     \<exists>f ids. m' = m\<lparr>mg_files := (mg_files m)\<lparr>processes_tsv := f\<rparr>, mg_removed := mg_removed m @ ids\<rparr>"
proof (induction pids arbitrary: i m r)
  case Nil
  then show ?case by (auto intro!: exI [of _ "processes_tsv (mg_files m)"] exI [of _ "[]"])
next
  case (Cons p pids)
  obtain res f where rw: "rewrite_process_records (env_rewrite env i) (processes_tsv (mg_files m)) p None True = (res, f)"
    by (rule prod.exhaust)
  consider "m' = with_processes m f"
    | r' where "remove_processes env (Suc i) pids ((with_processes m f)\<lparr>mg_removed := mg_removed m @ [p]\<rparr>) = (r', m')"
    using Cons.prems rw
    by (auto simp: Let_def with_processes_def split: sum.splits option.splits prod.splits)
  then show ?case
  proof cases
    case 1
    then show ?thesis by (auto simp: with_processes_def intro!: exI [of _ f] exI [of _ "[]"])
  next
    case 2
    from Cons.IH [OF this] show ?thesis by (auto simp: with_processes_def)
  qed
qed

end
