(* ===== verification/Manager_Workspaces.thy ===== *)
theory Manager_Workspaces
  imports Manager_Control "HOL-Library.Multiset"
begin

text \<open>
  Requests on workspaces and macros (\<open>src/src/manager/main.c\<close>, lines 5344 to 5994). Each handler
  is one definition; its checks come in the order of the source, and the first that fails
  is the reply. The names of workspaces stay unique: that is the invariant at the end.
\<close>

unbundle bit_operations_syntax

section \<open>Workspaces as JSON\<close>

definition workspace_info_json :: "manager_files \<Rightarrow> bytes \<Rightarrow> workspace_record \<Rightarrow> nat \<Rightarrow> bytes result" where
  "workspace_info_json files manager_id w n =
     (case count_processes_for_workspace files (ws_id w) of
        (process_count, running_count) \<Rightarrow>
          rbind (cubicle_json_escape 256 (Some (ws_name w))) (\<lambda>name.
          rbind (cubicle_json_escape 8192 (Some (ws_directory w))) (\<lambda>directory.
            fit n
              (''{\"manager_id\":\"'' @ manager_id @ ''\",\"id\":\"'' @ ws_id w @ ''\",\"name\":\"'' @ name
               @ ''\",\"directory\":\"'' @ directory
               @ ''\",\"created_at_ms\":0,\"updated_at_ms\":0,\"process_count\":'' @ show_nat process_count
               @ '',\"running_process_count\":'' @ show_nat running_count @ ''}''))))"

definition encoded_workspace :: "manager_files \<Rightarrow> bytes \<Rightarrow> workspace_record \<Rightarrow> reply" where
  "encoded_workspace files manager_id w =
     (case workspace_info_json files manager_id w 1024 of
        Inl e \<Rightarrow> ApiError CUBICLE_ERR_INTERNAL ''failed to encode workspace'' False (Some e)
      | Inr s \<Rightarrow> ApiSuccess s)"

definition workspace_macro_info_json :: "nat \<Rightarrow> macro_record \<Rightarrow> bytes result" where
  "workspace_macro_info_json n r =
     rbind (cubicle_json_escape 128 (Some (mr_name r))) (\<lambda>name.
     rbind (cubicle_json_escape 1024 (Some (mr_text r))) (\<lambda>body.
     rbind (cubicle_json_escape 512 (Some (mr_target_process_name r))) (\<lambda>target.
     rbind (cubicle_json_escape 128 (Some (mr_key_name r))) (\<lambda>key.
       fit n
         (''{\"workspace_id\":\"'' @ mr_workspace_id r @ ''\",\"ordinal\":'' @ show_nat (unat (mr_ordinal r))
          @ '',\"name\":\"'' @ name @ ''\",\"text\":\"'' @ body
          @ ''\",\"target_pane\":'' @ show_nat (unat (mr_target_pane r))
          @ '',\"target_process_name\":\"'' @ target @ ''\",\"key_name\":\"'' @ key @ ''\"}'')))))"

section \<open>Creating and naming workspaces\<close>

definition with_workspaces :: "manager \<Rightarrow> state_file \<Rightarrow> manager" where
  "with_workspaces m f = m\<lparr>mg_files := (mg_files m)\<lparr>workspaces_tsv := f\<rparr>\<rparr>"

definition workspace_create_checks ::
    "manager_env \<Rightarrow> connection \<Rightarrow> json \<Rightarrow> manager \<Rightarrow> reply + workspace_record \<times> bytes" where
  "workspace_create_checks env conn params m =
     rbind (or_reply (invalid ''invalid workspace name'')
       (rbind (param_string params ''name'' 128) (\<lambda>name.
        rbind (param_optional_string params ''directory'' 4096) (\<lambda>directory.
        rbind (param_optional_string params ''initial_owner_label'' 128) (\<lambda>label.
          Inr (name, directory, label)))))) (\<lambda>(name, directory, label).
     rbind (unless (validate_field (Some name)) (invalid ''invalid workspace name'')) (\<lambda>_.
     rbind (or_reply (invalid ''invalid workspace directory'') (env_resolve env directory)) (\<lambda>resolved.
     rbind (unless (validate_field (Some resolved)) (invalid ''invalid workspace directory'')) (\<lambda>_.
     rbind (unless (connection_is_manager_owner env conn)
       (denied ''workspace creation requires local owner access'')) (\<lambda>_.
     rbind (lock_state env) (\<lambda>_.
     rbind (unless (\<not> workspace_name_exists (mg_files m) name)
       (ApiError CUBICLE_ERR_ALREADY_EXISTS ''workspace already exists'' False None)) (\<lambda>_.
     case env_hex_id env 0 of
       Inl e \<Rightarrow> Inl (ApiError CUBICLE_ERR_INTERNAL ''failed to allocate workspace id'' False (Some e))
     | Inr wid \<Rightarrow>
         Inr (\<lparr>ws_id = wid, ws_name = store 128 name, ws_directory = store 4096 resolved\<rparr>,
              case label of None \<Rightarrow> ''owner'' | Some l \<Rightarrow> l))))))))"

text \<open>The key of the client becomes the key of the owner.\<close>

definition add_owner_key ::
    "manager_env \<Rightarrow> connection \<Rightarrow> workspace_record \<Rightarrow> bytes \<Rightarrow> manager \<Rightarrow> unit result \<times> manager" where
  "add_owner_key env conn w label m =
     (if cn_authenticated conn \<and> cn_client_public_key_hex conn \<noteq> [] then
        (case build_workspace_key_record_from_public_hex (env_sha256 env) (ws_id w) (cn_client_public_key_hex conn)
            label role_owner_capabilities (env_now_ms env) of
           Inl e \<Rightarrow> (Inl e, m)
         | Inr r \<Rightarrow>
             (case append_key_record (env_append env 1) (workspace_keys_tsv (mg_files m)) r of
                (res, f) \<Rightarrow> (res, with_workspace_keys m f)))
      else (Inr (), m))"

definition workspace_create ::
    "manager_env \<Rightarrow> bytes \<Rightarrow> connection \<Rightarrow> json \<Rightarrow> manager \<Rightarrow> reply \<times> manager" where
  "workspace_create env manager_id conn params m =
     (case workspace_create_checks env conn params m of
        Inl r \<Rightarrow> (r, m)
      | Inr (w, label) \<Rightarrow>
          if length (workspace_line w) \<ge> 4096 + 256
          then (io_failed ''failed to persist workspace'' errno_unset, m)
          else
            (case append_line (env_append env 0) (workspaces_tsv (mg_files m)) (workspace_line w) of
               (Inl e, f) \<Rightarrow> (io_failed ''failed to persist workspace'' e, with_workspaces m f)
             | (Inr _, f) \<Rightarrow>
                 (case add_owner_key env conn w label (with_workspaces m f) of
                    (Inl e, m') \<Rightarrow> (io_failed ''failed to persist workspace owner key'' e, m')
                  | (Inr _, m') \<Rightarrow> (encoded_workspace (mg_files m') manager_id w, m'))))"

definition workspace_get :: "manager_env \<Rightarrow> bytes \<Rightarrow> connection \<Rightarrow> json \<Rightarrow> manager \<Rightarrow> reply" where
  "workspace_get env manager_id conn params m =
     reply_of
       (rbind (or_reply (invalid ''missing workspace reference'') (param_string params ''workspace'' 128)) (\<lambda>wref.
        rbind (some_or (not_found ''workspace not found'') (find_workspace (mg_files m) wref)) (\<lambda>w.
        rbind (unless (connection_has_workspace_capability env (mg_files m) (ws_id w) conn CUBICLE_CAP_WORKSPACE_READ)
          (denied ''workspace read access is required'')) (\<lambda>_.
        Inr (encoded_workspace (mg_files m) manager_id w)))))"

text \<open>The end of the two list responses that count their items.\<close>

definition counted_end :: "nat \<Rightarrow> bytes" where
  "counted_end k = ''],\"count\":'' @ show_nat k @ '',\"has_more\":false}''"

definition workspace_list :: "manager_env \<Rightarrow> bytes \<Rightarrow> connection \<Rightarrow> manager \<Rightarrow> reply" where
  "workspace_list env manager_id conn m =
     list_reply ''{\"workspaces\":[''
       (items_of (\<lambda>w. workspace_info_json (mg_files m) manager_id w 1024)
          (filter (\<lambda>w. connection_has_workspace_capability env (mg_files m) (ws_id w) conn CUBICLE_CAP_WORKSPACE_READ)
             (workspace_records (workspaces_tsv (mg_files m)))))
       counted_end ''workspace list response too large''"

definition workspace_rename_checks ::
    "manager_env \<Rightarrow> connection \<Rightarrow> json \<Rightarrow> manager \<Rightarrow> reply + bytes \<times> bytes" where
  "workspace_rename_checks env conn params m =
     rbind (or_reply (invalid ''invalid workspace rename request'')
       (rbind (param_string params ''workspace_id'' 128) (\<lambda>wref.
        rbind (param_string params ''new_name'' 128) (\<lambda>new_name. Inr (wref, new_name))))) (\<lambda>(wref, new_name).
     rbind (unless (validate_field (Some new_name)) (invalid ''invalid workspace rename request'')) (\<lambda>_.
     rbind (lock_state env) (\<lambda>_.
     rbind (some_or (not_found ''workspace not found'') (find_workspace (mg_files m) wref)) (\<lambda>w.
     rbind (unless (connection_has_workspace_capability env (mg_files m) (ws_id w) conn CUBICLE_CAP_WORKSPACE_RENAME)
       (denied ''workspace rename access is required'')) (\<lambda>_.
     rbind (unless (case find_workspace (mg_files m) new_name of
                      None \<Rightarrow> True | Some existing \<Rightarrow> ws_id existing = ws_id w)
       (ApiError CUBICLE_ERR_ALREADY_EXISTS ''workspace name already exists'' False None)) (\<lambda>_.
     Inr (ws_id w, new_name)))))))"

definition workspace_rename :: "manager_env \<Rightarrow> connection \<Rightarrow> json \<Rightarrow> manager \<Rightarrow> reply \<times> manager" where
  "workspace_rename env conn params m =
     (case workspace_rename_checks env conn params m of
        Inl r \<Rightarrow> (r, m)
      | Inr (wid, new_name) \<Rightarrow>
          (case rewrite_workspace_records (env_rewrite env 0) (workspaces_tsv (mg_files m)) wid (Some new_name) False of
             (Inl e, f) \<Rightarrow> (io_failed ''failed to rename workspace'' e, with_workspaces m f)
           | (Inr found, f) \<Rightarrow>
               (if found then ApiSuccess ''{}'' else io_failed ''failed to rename workspace'' errno_unset,
                with_workspaces m f)))"

section \<open>Macros\<close>

text \<open>
  The two loops of the sort in \<open>workspace.macro.list\<close>: the record at one position is exchanged
  with every later record that has a smaller ordinal.
\<close>

fun exchange_pass :: "macro_record \<Rightarrow> macro_record list \<Rightarrow> macro_record \<times> macro_record list" where
  "exchange_pass x [] = (x, [])"
| "exchange_pass x (y # ys) =
     (if mr_ordinal y < mr_ordinal x
      then (case exchange_pass y ys of (z, zs) \<Rightarrow> (z, x # zs))
      else (case exchange_pass x ys of (z, zs) \<Rightarrow> (z, y # zs)))"

lemma length_exchange_pass [simp]: "length (snd (exchange_pass x ys)) = length ys"
  by (induction x ys rule: exchange_pass.induct) (auto split: prod.splits)

function exchange_sort :: "macro_record list \<Rightarrow> macro_record list" where
  "exchange_sort [] = []"
| "exchange_sort (x # xs) = fst (exchange_pass x xs) # exchange_sort (snd (exchange_pass x xs))"
  by pat_completeness auto
termination by (relation "measure length") simp_all

definition workspace_macro_list :: "manager_env \<Rightarrow> connection \<Rightarrow> json \<Rightarrow> manager \<Rightarrow> reply" where
  "workspace_macro_list env conn params m =
     reply_of
       (rbind (or_reply (invalid ''missing workspace id'') (param_string params ''workspace_id'' 128)) (\<lambda>wref.
        rbind (some_or (not_found ''workspace not found'') (find_workspace (mg_files m) wref)) (\<lambda>w.
        rbind (unless (connection_has_workspace_capability env (mg_files m) (ws_id w) conn CUBICLE_CAP_WORKSPACE_READ)
          (denied ''workspace read access is required'')) (\<lambda>_.
        Inr (list_reply ''{\"macros\":[''
          (items_of (workspace_macro_info_json 1400)
             (exchange_sort (take 128
               (filter (\<lambda>r. mr_workspace_id r = ws_id w) (macro_records (macros_tsv (mg_files m)))))))
          (\<lambda>_. '']}'') ''macro list response too large'')))))"

definition with_macros :: "manager \<Rightarrow> state_file \<Rightarrow> manager" where
  "with_macros m f = m\<lparr>mg_files := (mg_files m)\<lparr>macros_tsv := f\<rparr>\<rparr>"

definition optional_text :: "bytes option \<Rightarrow> bytes" where
  "optional_text t = (case t of None \<Rightarrow> [] | Some s \<Rightarrow> s)"

definition macro_valid :: "macro_record \<Rightarrow> bool" where
  "macro_valid r \<longleftrightarrow>
     mr_ordinal r \<noteq> 0 \<and> validate_field (Some (mr_name r)) \<and> validate_field (Some (mr_text r))
     \<and> (mr_target_process_name r = [] \<or> validate_field (Some (mr_target_process_name r)))
     \<and> (mr_key_name r = [] \<or> validate_field (Some (mr_key_name r)))"

definition workspace_macro_save_checks ::
    "manager_env \<Rightarrow> connection \<Rightarrow> json \<Rightarrow> manager \<Rightarrow> reply + macro_record" where
  "workspace_macro_save_checks env conn params m =
     rbind (or_reply (invalid ''invalid macro save request'')
       (rbind (param_string params ''workspace_id'' 128) (\<lambda>wref.
        rbind (cubicle_json_get_required_u64 params ''ordinal'') (\<lambda>ordinal.
        rbind (param_string params ''name'' 64) (\<lambda>name.
        rbind (param_string params ''text'' 512) (\<lambda>body.
        rbind (cubicle_json_get_optional_u64 params ''target_pane'') (\<lambda>pane.
        rbind (param_optional_string params ''target_process_name'' 256) (\<lambda>target.
        rbind (param_optional_string params ''key_name'' 64) (\<lambda>key.
          Inr (wref, \<lparr>mr_workspace_id = [], mr_ordinal = ordinal, mr_name = name, mr_text = body,
            mr_target_pane = (case pane of None \<Rightarrow> 0 | Some p \<Rightarrow> p),
            mr_target_process_name = optional_text target, mr_key_name = optional_text key\<rparr>)))))))))) (\<lambda>(wref, macro).
     rbind (unless (macro_valid macro) (invalid ''invalid macro save request'')) (\<lambda>_.
     rbind (some_or (not_found ''workspace not found'') (find_workspace (mg_files m) wref)) (\<lambda>w.
     rbind (unless (connection_has_workspace_capability env (mg_files m) (ws_id w) conn
         CUBICLE_CAP_WORKSPACE_MANAGE_MACROS) (denied ''workspace macro management requires owner access'')) (\<lambda>_.
     rbind (lock_state env) (\<lambda>_. Inr (macro\<lparr>mr_workspace_id := store 33 (ws_id w)\<rparr>))))))"

definition workspace_macro_save :: "manager_env \<Rightarrow> connection \<Rightarrow> json \<Rightarrow> manager \<Rightarrow> reply \<times> manager" where
  "workspace_macro_save env conn params m =
     (case workspace_macro_save_checks env conn params m of
        Inl r \<Rightarrow> (r, m)
      | Inr macro \<Rightarrow>
          (case rewrite_workspace_macro_records (env_rewrite env 0) (macros_tsv (mg_files m)) (Some macro)
              (mr_workspace_id macro) 0 0 0 of
             (Inl e, f) \<Rightarrow> (io_failed ''failed to persist macro'' e, with_macros m f)
           | (Inr _, f) \<Rightarrow>
               (case workspace_macro_info_json 1400 macro of
                  Inl e \<Rightarrow> ApiError CUBICLE_ERR_INTERNAL ''failed to encode macro'' False (Some e)
                | Inr s \<Rightarrow> ApiSuccess s,
                with_macros m f)))"

text \<open>\<open>workspace.macro.delete\<close> (no new ordinal) and \<open>workspace.macro.reorder\<close>.\<close>

definition workspace_macro_update_checks ::
    "bool \<Rightarrow> manager_env \<Rightarrow> connection \<Rightarrow> json \<Rightarrow> manager \<Rightarrow> reply + bytes \<times> 64 word \<times> 64 word" where
  "workspace_macro_update_checks reorder env conn params m =
     rbind (or_reply (invalid ''invalid macro update request'')
       (rbind (param_string params ''workspace_id'' 128) (\<lambda>wref.
        rbind (cubicle_json_get_required_u64 params ''ordinal'') (\<lambda>ordinal.
        rbind (if reorder then cubicle_json_get_required_u64 params ''new_ordinal'' else Inr 0) (\<lambda>new_ordinal.
          Inr (wref, ordinal, new_ordinal)))))) (\<lambda>(wref, ordinal, new_ordinal).
     rbind (unless (ordinal \<noteq> 0 \<and> (reorder \<longrightarrow> new_ordinal \<noteq> 0)) (invalid ''invalid macro update request'')) (\<lambda>_.
     rbind (some_or (not_found ''workspace not found'') (find_workspace (mg_files m) wref)) (\<lambda>w.
     rbind (unless (connection_has_workspace_capability env (mg_files m) (ws_id w) conn
         CUBICLE_CAP_WORKSPACE_MANAGE_MACROS) (denied ''workspace macro management requires owner access'')) (\<lambda>_.
     rbind (lock_state env) (\<lambda>_. Inr (ws_id w, ordinal, new_ordinal))))))"

definition workspace_macro_update :: "bool \<Rightarrow> manager_env \<Rightarrow> connection \<Rightarrow> json \<Rightarrow> manager \<Rightarrow> reply \<times> manager" where
  "workspace_macro_update reorder env conn params m =
     (case workspace_macro_update_checks reorder env conn params m of
        Inl r \<Rightarrow> (r, m)
      | Inr (wid, ordinal, new_ordinal) \<Rightarrow>
          (case (if reorder
                 then rewrite_workspace_macro_records (env_rewrite env 0) (macros_tsv (mg_files m)) None wid 0 ordinal new_ordinal
                 else rewrite_workspace_macro_records (env_rewrite env 0) (macros_tsv (mg_files m)) None wid ordinal 0 0) of
             (Inl e, f) \<Rightarrow> (io_failed ''failed to update macro'' e, with_macros m f)
           | (Inr found, f) \<Rightarrow>
               (if found then ApiSuccess ''{}'' else not_found ''macro not found'', with_macros m f)))"

section \<open>Stopping and deleting workspaces\<close>

text \<open>One process of the workspace: whether it is live, and whether stopping it failed.\<close>

definition stop_process ::
    "manager_env \<Rightarrow> bool \<Rightarrow> process_record \<Rightarrow> manager \<Rightarrow> bool \<times> bool \<times> manager" where
  "stop_process env stop p m =
     (let (latest, m1) =
            (if process_is_terminal_state (pr_state p) then (pr_state p, m)
             else case controller_status_state env m p of
               (Inr s, m') \<Rightarrow> (s, m')
             | (Inl _, m') \<Rightarrow>
                 (if process_event_log_has_exit env m' (pr_process_id p) then ''completed'' else pr_state p, m')) in
      if process_is_terminal_state latest then (False, False, m1)
      else if stop then
        (case terminate_controller env m1 p of (res, m2) \<Rightarrow> (True, (case res of Inl _ \<Rightarrow> True | Inr _ \<Rightarrow> False), m2))
      else (True, False, m1))"

fun stop_processes ::
    "manager_env \<Rightarrow> bool \<Rightarrow> process_record list \<Rightarrow> manager \<Rightarrow> nat \<times> bool \<times> manager" where
  "stop_processes env stop [] m = (0, False, m)"
| "stop_processes env stop (p # ps) m =
     (let (live, failed, m1) = stop_process env stop p m; (n, failed', m2) = stop_processes env stop ps m1 in
      (if live then Suc n else n, failed \<or> failed', m2))"

definition lifecycle_checks ::
    "bool \<Rightarrow> manager_env \<Rightarrow> connection \<Rightarrow> json \<Rightarrow> manager \<Rightarrow> reply + bytes \<times> bool \<times> bool" where
  "lifecycle_checks delete env conn params m =
     rbind (or_reply (invalid ''invalid workspace lifecycle request'')
       (rbind (param_string params ''workspace_id'' 128) (\<lambda>wref.
        rbind (cubicle_json_get_optional_bool params ''stop_running_processes'') (\<lambda>stop.
        rbind (cubicle_json_get_optional_bool params ''remove_retained_processes'') (\<lambda>rm.
          Inr (wref, stop = Some True, rm = Some True)))))) (\<lambda>(wref, stop, rm).
     rbind (lock_state env) (\<lambda>_.
     rbind (some_or (not_found ''workspace not found'') (find_workspace (mg_files m) wref)) (\<lambda>w.
     rbind (unless (connection_has_workspace_capability env (mg_files m) (ws_id w) conn
         (if delete then CUBICLE_CAP_WORKSPACE_DELETE else CUBICLE_CAP_WORKSPACE_STOP))
       (denied ''workspace lifecycle access is required'')) (\<lambda>_.
     Inr (ws_id w, stop, rm)))))"

definition workspace_lifecycle :: "bool \<Rightarrow> manager_env \<Rightarrow> connection \<Rightarrow> json \<Rightarrow> manager \<Rightarrow> reply \<times> manager" where
  "workspace_lifecycle delete env conn params m =
     (case lifecycle_checks delete env conn params m of
        Inl r \<Rightarrow> (r, m)
      | Inr (wid, stop, rm) \<Rightarrow>
          (let ps = filter (\<lambda>p. pr_workspace_id p = wid) (process_records (processes_tsv (mg_files m)));
               (live, failed, m1) = stop_processes env (\<not> delete \<or> stop) ps m;
               to_remove = (if rm then take 256 (map pr_process_id ps) else []) in
           if failed then
             (ApiError CUBICLE_ERR_CONTROLLER_UNAVAILABLE ''failed to stop workspace process'' True (Some errno_unset), m1)
           else if delete \<and> live > 0 \<and> \<not> stop then
             (ApiError CUBICLE_ERR_INVALID_STATE ''workspace has live processes'' False None, m1)
           else if \<not> delete then (ApiSuccess ''{}'', m1)
           else
             (case rewrite_workspace_records (env_rewrite env 0) (workspaces_tsv (mg_files m1)) wid None True of
                (Inl e, f) \<Rightarrow> (io_failed ''failed to delete workspace'' e, with_workspaces m1 f)
              | (Inr found, f) \<Rightarrow>
                  if \<not> found then (io_failed ''failed to delete workspace'' errno_unset, with_workspaces m1 f)
                  else
                    (case remove_processes env 1 to_remove (with_workspaces m1 f) of
                       (Inl (RecordNotRemoved e), m2) \<Rightarrow> (io_failed ''failed to delete workspace processes'' e, m2)
                     | (Inl (StateNotRemoved e), m2) \<Rightarrow> (io_failed ''failed to delete controller state'' e, m2)
                     | (Inr _, m2) \<Rightarrow> (ApiSuccess ''{}'', m2)))))"

section \<open>What stopping processes changes\<close>

lemma stop_process_sends: "stop_process env stop p m = (live, failed, m') \<Longrightarrow> sends m m'"
proof -
  assume a: "stop_process env stop p m = (live, failed, m')"
  obtain s m1 where s: "(if process_is_terminal_state (pr_state p) then (pr_state p, m)
             else case controller_status_state env m p of
               (Inr s, m') \<Rightarrow> (s, m')
             | (Inl _, m') \<Rightarrow>
                 (if process_event_log_has_exit env m' (pr_process_id p) then ''completed'' else pr_state p, m')) = (s, m1)"
    by (rule prod.exhaust)
  then have "sends m m1" by (auto dest: status_sends split: if_splits prod.splits sum.splits)
  moreover have "sends m1 m'"
    using a s by (auto simp: stop_process_def Let_def dest: terminate_sends split: if_splits prod.splits)
  ultimately show ?thesis by (rule sends_trans)
qed

lemma stop_processes_sends: "stop_processes env stop ps m = (n, failed, m') \<Longrightarrow> sends m m'"
proof (induction ps arbitrary: m n failed)
  case (Cons p ps)
  then show ?case by (auto simp: Let_def split: prod.splits dest: stop_process_sends intro: sends_trans)
qed auto

section \<open>References to workspaces\<close>

lemma checked_string_length: "checked_string field n v = Inr t \<Longrightarrow> length t < n"
  by (cases v) (auto simp: checked_string_def split: if_splits)

lemma param_string_facts:
  assumes "param_string params field n = Inr s"
  shows "length s < n" "is_cstr s"
proof -
  obtain t v where "checked_string field n v = Inr t" "s = cstr t"
    using assms by (auto simp: param_string_def rbind_eq_Inr cubicle_json_get_required_string_def)
  then show "length s < n" "is_cstr s" using checked_string_length length_cstr_le [of t] by fastforce+
qed

text \<open>Two workspaces are apart when no reference names both.\<close>

definition workspaces_apart :: "workspace_record \<Rightarrow> workspace_record \<Rightarrow> bool" where
  "workspaces_apart a b \<longleftrightarrow> {ws_id a, ws_name a} \<inter> {ws_id b, ws_name b} = {}"

text \<open>Room for the longest name is left in the line.\<close>

definition stored_workspace_ok :: "workspace_record \<Rightarrow> bool" where
  "stored_workspace_ok w \<longleftrightarrow> workspace_ok w \<and> length (ws_directory w) < 350"

definition workspace_file_ok :: "state_file \<Rightarrow> bool" where
  "workspace_file_ok f \<longleftrightarrow>
     (let rs = workspace_records f in
      list_all stored_workspace_ok rs \<and> sorted_wrt workspaces_apart rs
      \<and> (f = None \<or> f = Some (concat (map workspace_line rs))))"

lemma apart_sym: "workspaces_apart a b \<Longrightarrow> workspaces_apart b a"
  by (auto simp: workspaces_apart_def)

lemma stored_workspaces_ok: "list_all stored_workspace_ok rs \<Longrightarrow> list_all workspace_ok rs"
  by (auto simp: list_all_iff stored_workspace_ok_def)

lemma workspace_file_okE:
  assumes "workspace_file_ok f"
  obtains rs where "workspace_records f = rs" "list_all stored_workspace_ok rs" "sorted_wrt workspaces_apart rs"
    "(case f of None \<Rightarrow> [] | Some c \<Rightarrow> c) = concat (map workspace_line rs)"
proof -
  have "(case f of None \<Rightarrow> [] | Some c \<Rightarrow> c) = concat (map workspace_line (workspace_records f))"
    using assms by (cases f) (auto simp: workspace_file_ok_def Let_def)
  then show thesis using assms that by (simp add: workspace_file_ok_def Let_def)
qed

lemma workspace_file_okI:
  "list_all stored_workspace_ok rs \<Longrightarrow> sorted_wrt workspaces_apart rs \<Longrightarrow>
     workspace_file_ok (Some (concat (map workspace_line rs)))"
  by (simp add: workspace_file_ok_def printed_records(1) [OF stored_workspaces_ok])

lemma find_apart:
  "sorted_wrt workspaces_apart rs \<Longrightarrow> r \<in> set rs \<Longrightarrow> x \<in> {ws_id r, ws_name r} \<Longrightarrow>
     find (\<lambda>r. ws_id r = x \<or> ws_name r = x) rs = Some r"
proof (induction rs)
  case (Cons s rs)
  show ?case
  proof (cases "s = r")
    case False
    then have "workspaces_apart s r" "r \<in> set rs" using Cons.prems by auto
    then have "\<not> (ws_id s = x \<or> ws_name s = x)" using Cons.prems(3) by (auto simp: workspaces_apart_def)
    then show ?thesis using Cons \<open>r \<in> set rs\<close> by simp
  qed (use Cons.prems(3) in auto)
qed simp

lemma stored_workspaceI:
  assumes "field_ok 33 (ws_id w)" "ws_id w \<noteq> []" "field_ok 128 (ws_name w)" "ws_name w \<noteq> []"
    "plain_field (ws_directory w)" "length (ws_directory w) < 350"
  shows "stored_workspace_ok w"
  using assms by (auto simp: stored_workspace_ok_def workspace_ok_def field_ok_def workspace_line_def)

lemma valid_field_plain: "validate_field (Some s) \<Longrightarrow> is_cstr s \<Longrightarrow> plain_field s \<and> s \<noteq> []"
  by (auto simp: validate_field_def plain_field_def is_cstr_def is_sep_def)

lemma sorted_wrt_map_filter:
  "sorted_wrt P xs \<Longrightarrow> (\<And>x y. x \<in> set xs \<Longrightarrow> y \<in> set xs \<Longrightarrow> P x y \<Longrightarrow> P (g x) (g y)) \<Longrightarrow>
     sorted_wrt P (map g (filter Q xs))"
  by (induction xs) auto

text \<open>A rewrite that removes, or that gives a name which denotes no other workspace.\<close>

lemma edit_workspaces_ok:
  assumes ok: "list_all stored_workspace_ok rs" "sorted_wrt workspaces_apart rs"
    and new: "new_name = None \<or> (\<exists>n. new_name = Some n \<and> field_ok 128 n \<and> n \<noteq> []
      \<and> (\<forall>r \<in> set rs. ws_id r \<noteq> wid \<longrightarrow> ws_id r \<noteq> n \<and> ws_name r \<noteq> n))"
  shows "list_all stored_workspace_ok (edit_workspaces wid new_name remove rs)
    \<and> sorted_wrt workspaces_apart (edit_workspaces wid new_name remove rs)"
proof -
  let ?g = "\<lambda>r. if ws_id r = wid then (case new_name of None \<Rightarrow> r | Some n \<Rightarrow> r\<lparr>ws_name := store 128 n\<rparr>) else r"
  have rename: "stored_workspace_ok (r\<lparr>ws_name := store 128 n\<rparr>)"
    if "stored_workspace_ok r" "field_ok 128 n" "n \<noteq> []" for r n
    using that by (intro stored_workspaceI)
      (auto simp: stored_workspace_ok_def workspace_ok_def store_id field_ok_def)
  have "\<forall>r \<in> set rs. stored_workspace_ok (?g r)"
    using ok(1) new rename by (auto simp: list_all_iff split: option.split)
  then have "list_all stored_workspace_ok (edit_workspaces wid new_name remove rs)"
    by (auto simp: edit_workspaces_def list_all_iff)
  moreover have "workspaces_apart (?g x) (?g y)" if "x \<in> set rs" "y \<in> set rs" "workspaces_apart x y" for x y
    using that new by (auto simp: workspaces_apart_def store_id split: option.split)
  then have "sorted_wrt workspaces_apart (edit_workspaces wid new_name remove rs)"
    unfolding edit_workspaces_def by (rule sorted_wrt_map_filter [OF ok(2)])
  ultimately show ?thesis by blast
qed

lemma rewrite_workspaces_ok:
  assumes "workspace_file_ok f" "rewrite_workspace_records io f wid new_name remove = (res, f')"
    and new: "new_name = None \<or> (\<exists>n. new_name = Some n \<and> field_ok 128 n \<and> n \<noteq> []
      \<and> (\<forall>r \<in> set (workspace_records f). ws_id r \<noteq> wid \<longrightarrow> ws_id r \<noteq> n \<and> ws_name r \<noteq> n))"
  shows "workspace_file_ok f'"
proof (cases io)
  case None
  obtain rs where rs: "workspace_records f = rs" "list_all stored_workspace_ok rs" "sorted_wrt workspaces_apart rs"
    using workspace_file_okE [OF assms(1)] by blast
  have "f' = Some (concat (map workspace_line (edit_workspaces wid new_name remove rs)))"
    using assms(2) None rs(1) by (auto simp: rewrite_workspace_records_def Let_def)
  then show ?thesis
    using edit_workspaces_ok [OF rs(2,3), of new_name wid remove] new rs(1) workspace_file_okI by metis
qed (use assms in \<open>simp add: rewrite_workspace_records_def Let_def\<close>)

section \<open>Every request keeps references unambiguous\<close>

lemma find_workspace_fresh:
  "find_workspace files x = None \<Longrightarrow> r \<in> set (workspace_records (workspaces_tsv files)) \<Longrightarrow> ws_id r \<noteq> x \<and> ws_name r \<noteq> x"
  unfolding find_workspace_def find_None by auto

text \<open>
  What a request to create a workspace needs of its environment: identifiers are fresh words,
  directories are C strings of fewer than 350 bytes, and an append writes all or nothing.
\<close>

definition append_whole :: "append_io \<Rightarrow> bool" where
  "append_whole io \<longleftrightarrow> io = io_done \<or> io_open io \<noteq> None"

definition creates_well :: "manager_env \<Rightarrow> manager \<Rightarrow> bool" where
  "creates_well env m \<longleftrightarrow>
     (case env_hex_id env 0 of Inl _ \<Rightarrow> True
      | Inr i \<Rightarrow> field_ok 33 i \<and> i \<noteq> [] \<and> find_workspace (mg_files m) i = None)
     \<and> (\<forall>d. case env_resolve env d of Inl _ \<Rightarrow> True | Inr p \<Rightarrow> is_cstr p \<and> length p < 350)
     \<and> append_whole (env_append env 0)"

lemma append_workspace_ok:
  assumes "workspace_file_ok f" "append_whole io" "stored_workspace_ok w"
    "\<forall>r \<in> set (workspace_records f). workspaces_apart r w" "append_line io f (workspace_line w) = (res, f')"
  shows "workspace_file_ok f'"
proof (cases "io = io_done")
  case True
  obtain rs where rs: "workspace_records f = rs" "list_all stored_workspace_ok rs" "sorted_wrt workspaces_apart rs"
    "(case f of None \<Rightarrow> [] | Some c \<Rightarrow> c) = concat (map workspace_line rs)"
    using workspace_file_okE [OF assms(1)] by blast
  then have "f' = Some (concat (map workspace_line (rs @ [w])))" using assms(5) True by simp
  then show ?thesis using rs assms(3,4) by (simp only:) (rule workspace_file_okI; simp add: sorted_wrt_append)
qed (use assms in \<open>auto simp: append_whole_def append_line_def\<close>)

lemma add_owner_key_workspaces:
  "add_owner_key env conn w label m = (r, m') \<Longrightarrow> workspaces_tsv (mg_files m') = workspaces_tsv (mg_files m)"
  by (auto simp: add_owner_key_def split: if_splits sum.splits prod.splits)

lemma workspace_create_ok:
  assumes "workspace_file_ok (workspaces_tsv (mg_files m))" "creates_well env m"
    "workspace_create env mid conn params m = (r, m')"
  shows "workspace_file_ok (workspaces_tsv (mg_files m'))"
proof (cases "workspace_create_checks env conn params m")
  case (Inr wl)
  obtain w label where wl: "wl = (w, label)" by (rule prod.exhaust)
  obtain name i p where name: "param_string params ''name'' 128 = Inr name" "validate_field (Some name)"
      "find_workspace (mg_files m) name = None"
    and i: "env_hex_id env 0 = Inr i" and p: "\<exists>d. env_resolve env d = Inr p" "validate_field (Some p)"
    and w: "w = \<lparr>ws_id = i, ws_name = store 128 name, ws_directory = store 4096 p\<rparr>"
    using Inr wl
    by (cases "env_hex_id env 0") (auto simp: workspace_create_checks_def rbind_eq_Inr workspace_name_exists_def)
  have p': "is_cstr p" "length p < 350" using p(1) assms(2) by (fastforce simp: creates_well_def split: sum.splits)+
  have i': "field_ok 33 i" "i \<noteq> []" "find_workspace (mg_files m) i = None"
    using i assms(2) by (simp_all add: creates_well_def)
  have name': "field_ok 128 name" "name \<noteq> []"
    using valid_field_plain [OF name(2)] param_string_facts [OF name(1)] by (simp_all add: field_ok_def)
  have "field_ok 4096 p" using valid_field_plain [OF p(2) p'(1)] p'(2) by (simp add: field_ok_def)
  then have w': "w = \<lparr>ws_id = i, ws_name = name, ws_directory = p\<rparr>" using w name'(1) by (simp add: store_id)
  have ok: "stored_workspace_ok w"
    unfolding w' using i' name' p' valid_field_plain [OF p(2) p'(1)] by (intro stored_workspaceI) simp_all
  have apart: "\<forall>r \<in> set (workspace_records (workspaces_tsv (mg_files m))). workspaces_apart r w"
    using find_workspace_fresh [OF name(3)] find_workspace_fresh [OF i'(3)] by (auto simp: w' workspaces_apart_def)
  have io: "append_whole (env_append env 0)" using assms(2) by (simp add: creates_well_def)
  obtain res f where a: "append_line (env_append env 0) (workspaces_tsv (mg_files m)) (workspace_line w) = (res, f)"
    by (rule prod.exhaust)
  have "workspaces_tsv (mg_files m') \<in> {workspaces_tsv (mg_files m), f}"
    using assms(3) Inr a by (auto simp: workspace_create_def wl with_workspaces_def dest!: add_owner_key_workspaces
        split: sum.splits if_splits prod.splits)
  then show ?thesis using assms(1) append_workspace_ok [OF assms(1) io ok apart a] by auto
qed (use assms in \<open>simp add: workspace_create_def\<close>)

lemma workspace_rename_ok:
  assumes "workspace_file_ok (workspaces_tsv (mg_files m))" "workspace_rename env conn params m = (r, m')"
  shows "workspace_file_ok (workspaces_tsv (mg_files m'))"
proof (cases "workspace_rename_checks env conn params m")
  case (Inr wn)
  obtain wid new_name where wn: "wn = (wid, new_name)" by (rule prod.exhaust)
  have new: "param_string params ''new_name'' 128 = Inr new_name" "validate_field (Some new_name)"
    "case find_workspace (mg_files m) new_name of None \<Rightarrow> True | Some e \<Rightarrow> ws_id e = wid"
    using Inr wn by (auto simp: workspace_rename_checks_def rbind_eq_Inr)
  have plain: "field_ok 128 new_name" "new_name \<noteq> []"
    using valid_field_plain [OF new(2)] param_string_facts [OF new(1)] by (simp_all add: field_ok_def)
  obtain rs where rs: "workspace_records (workspaces_tsv (mg_files m)) = rs" "sorted_wrt workspaces_apart rs"
    using workspace_file_okE [OF assms(1)] by blast
  have "ws_id r \<noteq> new_name \<and> ws_name r \<noteq> new_name" if "r \<in> set rs" "ws_id r \<noteq> wid" for r
    using find_apart [OF rs(2) that(1), of new_name] new(3) that(2) by (auto simp: find_workspace_def rs(1))
  then have "\<exists>n. Some new_name = Some n \<and> field_ok 128 n \<and> n \<noteq> []
    \<and> (\<forall>r \<in> set (workspace_records (workspaces_tsv (mg_files m))). ws_id r \<noteq> wid \<longrightarrow> ws_id r \<noteq> n \<and> ws_name r \<noteq> n)"
    using plain rs(1) by auto
  note renamed = rewrite_workspaces_ok [OF assms(1) _ disjI2, OF _ this]
  show ?thesis using assms(2) Inr
    by (auto simp: workspace_rename_def wn with_workspaces_def dest: renamed split: sum.splits prod.splits)
qed (use assms in \<open>simp add: workspace_rename_def\<close>)

lemma workspace_lifecycle_ok:
  assumes "workspace_file_ok (workspaces_tsv (mg_files m))" "workspace_lifecycle delete env conn params m = (r, m')"
  shows "workspace_file_ok (workspaces_tsv (mg_files m'))"
proof (cases "lifecycle_checks delete env conn params m")
  case (Inr c)
  obtain wid stop rm where c: "c = (wid, stop, rm)" by (metis prod.exhaust)
  let ?ps = "filter (\<lambda>p. pr_workspace_id p = wid) (process_records (processes_tsv (mg_files m)))"
  obtain n failed m1 where st: "stop_processes env (\<not> delete \<or> stop) ?ps m = (n, failed, m1)" by (metis prod.exhaust)
  have m1: "mg_files m1 = mg_files m" using sends_files [OF stop_processes_sends [OF st]] .
  obtain res f where rw: "rewrite_workspace_records (env_rewrite env 0) (workspaces_tsv (mg_files m)) wid None True = (res, f)"
    by (rule prod.exhaust)
  have f: "workspace_file_ok f" by (rule rewrite_workspaces_ok [OF assms(1) rw]) simp
  have "workspaces_tsv (mg_files m') \<in> {workspaces_tsv (mg_files m), f}"
    using assms(2) Inr st rw m1
    by (auto simp: workspace_lifecycle_def c Let_def with_workspaces_def dest!: remove_processes_files
        split: sum.splits prod.splits if_splits removal_error.splits)
  then show ?thesis using assms(1) f by auto
qed (use assms in \<open>simp add: workspace_lifecycle_def\<close>)

text \<open>A request on workspaces, or any other one, which leaves the file of workspaces alone.\<close>

inductive workspace_step :: "manager \<Rightarrow> manager \<Rightarrow> bool" where
  create: "workspace_create env mid conn params m = (r, m') \<Longrightarrow> creates_well env m \<Longrightarrow> workspace_step m m'"
| rename: "workspace_rename env conn params m = (r, m') \<Longrightarrow> workspace_step m m'"
| stop_or_delete: "workspace_lifecycle delete env conn params m = (r, m') \<Longrightarrow> workspace_step m m'"
| other: "workspaces_tsv (mg_files m') = workspaces_tsv (mg_files m) \<Longrightarrow> workspace_step m m'"

lemma workspace_step_ok:
  "workspace_step m m' \<Longrightarrow> workspace_file_ok (workspaces_tsv (mg_files m)) \<Longrightarrow> workspace_file_ok (workspaces_tsv (mg_files m'))"
proof (induction rule: workspace_step.induct)
  case (create env mid conn params m r m')
  then show ?case using workspace_create_ok by blast
next
  case (rename env conn params m r m')
  then show ?case using workspace_rename_ok by blast
next
  case (stop_or_delete delete env conn params m r m')
  then show ?case using workspace_lifecycle_ok by blast
qed simp

text \<open>C34. (\<open>workspace.create\<close>, \<open>workspace.rename\<close>, \<open>workspace.stop\<close>, \<open>workspace.delete\<close>.) Whatever requests
  the manager serves, as long as new identifiers are fresh, directories are shorter than
  350 bytes and appends are not cut, the file of workspaces stays well formed and every
  workspace in it is the one that both its identifier and its name refer to.\<close>

theorem workspaces_unambiguous:
  assumes "workspace_step\<^sup>*\<^sup>* m m'" "workspace_file_ok (workspaces_tsv (mg_files m))"
    and "r \<in> set (workspace_records (workspaces_tsv (mg_files m')))"
  shows "workspace_file_ok (workspaces_tsv (mg_files m'))
    \<and> find_workspace (mg_files m') (ws_id r) = Some r \<and> find_workspace (mg_files m') (ws_name r) = Some r"
proof -
  have ok: "workspace_file_ok (workspaces_tsv (mg_files m'))"
    using assms(1,2) by (induction rule: rtranclp_induct) (blast intro: workspace_step_ok)+
  then obtain rs where "workspace_records (workspaces_tsv (mg_files m')) = rs" "sorted_wrt workspaces_apart rs"
    using workspace_file_okE by blast
  with ok assms(3) show ?thesis by (simp add: find_workspace_def find_apart)
qed

definition owner_connection :: connection where
  "owner_connection = example_connection\<lparr>cn_peer_uid := 1000, cn_authenticated := False\<rparr>"

lemma example_workspaces_ok: "workspace_file_ok (workspaces_tsv (mg_files example_manager))"
proof -
  have "list_all stored_workspace_ok example_workspaces" "sorted_wrt workspaces_apart example_workspaces"
    by (simp_all add: example_workspaces_def stored_workspace_ok_def workspace_ok_def field_ok_def plain_field_def
        is_sep_def workspace_line_def workspaces_apart_def)
  from workspace_file_okI [OF this] show ?thesis by (simp add: example_manager_def)
qed

lemma example_workspace_records: "workspace_records (workspaces_tsv (mg_files example_manager)) = example_workspaces"
proof -
  have "list_all workspace_ok example_workspaces"
    by (simp add: example_workspaces_def workspace_ok_def field_ok_def plain_field_def is_sep_def workspace_line_def)
  then show ?thesis by (simp add: example_manager_def printed_records)
qed

lemma example_rename:
  "\<exists>m'. workspace_rename example_env owner_connection (JObj [(''workspace_id'', JStr ''w1''), (''new_name'', JStr ''new'')])
     example_manager = (ApiSuccess ''{}'', m')
   \<and> workspace_records (workspaces_tsv (mg_files m')) =
       [\<lparr>ws_id = ''w1'', ws_name = ''new'', ws_directory = ''/home''\<rparr>, \<lparr>ws_id = ''w2'', ws_name = ''other'', ws_directory = ''/srv''\<rparr>]"
proof -
  let ?p = "JObj [(''workspace_id'', JStr ''w1''), (''new_name'', JStr ''new'')]"
  let ?rs = "[\<lparr>ws_id = ''w1'', ws_name = ''new'', ws_directory = ''/home''\<rparr>, \<lparr>ws_id = ''w2'', ws_name = ''other'', ws_directory = ''/srv''\<rparr>]"
  have p: "param_string ?p ''workspace_id'' 128 = Inr ''w1''" "param_string ?p ''new_name'' 128 = Inr ''new''"
    by (simp_all add: param_string_def cubicle_json_get_required_string_def required_field_def find_object_member_def
        checked_string_def cstr_def)
  have owner: "connection_has_workspace_capability example_env files w owner_connection c" for files w c
    by (simp add: connection_has_workspace_capability_def connection_is_manager_owner_def connection_is_same_uid_def
        owner_connection_def example_connection_def example_env_def)
  have free: "find_workspace (mg_files example_manager) ''new'' = None"
    by (simp add: find_workspace_def example_workspace_records) (simp add: example_workspaces_def)
  have env: "env_lock example_env = None" "env_rewrite example_env 0 = None" by (simp_all add: example_env_def)
  have edited: "edit_workspaces ''w1'' (Some ''new'') False example_workspaces = ?rs"
    by (simp add: edit_workspaces_def example_workspaces_def store_def)
  have ok: "list_all workspace_ok ?rs"
    by (simp add: workspace_ok_def field_ok_def plain_field_def is_sep_def workspace_line_def)
  have checks: "workspace_rename_checks example_env owner_connection ?p example_manager = Inr (''w1'', ''new'')"
    by (simp add: workspace_rename_checks_def p validate_field_def env owner free example_find_workspace)
  have "workspace_rename example_env owner_connection ?p example_manager =
    (ApiSuccess ''{}'', with_workspaces example_manager (Some (concat (map workspace_line ?rs))))"
    unfolding workspace_rename_def checks
    by (simp only: sum.case prod.case rewrite_workspace_records_def example_workspace_records Let_def env rewrite_file_simps edited)
      (simp add: example_workspaces_def)
  then show ?thesis using printed_records(1) [OF ok] by (simp add: with_workspaces_def)
qed

theorem workspaces_unambiguous_witness:
  "\<exists>m'. workspace_step\<^sup>*\<^sup>* example_manager m'
     \<and> find_workspace (mg_files m') ''w1'' = find_workspace (mg_files m') ''new'' \<and> find_workspace (mg_files m') ''new'' \<noteq> None"
proof -
  obtain m' where m': "workspace_rename example_env owner_connection
      (JObj [(''workspace_id'', JStr ''w1''), (''new_name'', JStr ''new'')]) example_manager = (ApiSuccess ''{}'', m')"
    "\<lparr>ws_id = ''w1'', ws_name = ''new'', ws_directory = ''/home''\<rparr> \<in> set (workspace_records (workspaces_tsv (mg_files m')))"
    using example_rename by auto
  have step: "workspace_step\<^sup>*\<^sup>* example_manager m'" using workspace_step.rename [OF m'(1)] by (rule r_into_rtranclp)
  from workspaces_unambiguous [OF step example_workspaces_ok m'(2)] step show ?thesis by auto
qed

section \<open>List responses\<close>

definition joined :: "bytes list \<Rightarrow> bytes" where
  "joined items = (case items of [] \<Rightarrow> [] | i # is \<Rightarrow> i @ concat (map (\<lambda>j. '','' @ j) is))"

lemma append_items_eq:
  "length used < 21504 \<Longrightarrow>
   append_items used k items =
     (let more_text = (if k = 0 then joined items else concat (map (\<lambda>j. '','' @ j) items)) in
      if length (used @ more_text) < 21504 then Some (used @ more_text, k + length items) else None)"
proof (induction items arbitrary: used k)
  case (Cons item items)
  let ?t = "(if k = 0 then [] else '','') @ item"
  show ?case
  proof (cases "length ?t \<ge> 21504 - length used")
    case False
    then have "length (used @ ?t) < 21504" by simp
    from Cons.IH [OF this, of "k + 1"] show ?thesis using False by (simp add: Let_def joined_def)
  qed (auto simp: Let_def joined_def)
qed (simp add: Let_def joined_def)

lemma list_reply_eq:
  assumes "length opening < 21504"
  shows "list_reply opening items ending msg =
    (if length (opening @ joined items @ ending (length items)) < 21504
     then ApiSuccess (opening @ joined items @ ending (length items)) else too_large msg)"
  using append_items_eq [OF assms, of 0 items] by (auto simp: list_reply_def Let_def)

section \<open>The order of macros\<close>

lemma exchange_pass_least:
  "exchange_pass x ys = (z, zs) \<Longrightarrow>
     mset (z # zs) = mset (x # ys) \<and> (\<forall>y \<in> set (x # ys). mr_ordinal z \<le> mr_ordinal y)"
proof (induction x ys arbitrary: z zs rule: exchange_pass.induct)
  case (2 x y ys)
  show ?case
  proof (cases "mr_ordinal y < mr_ordinal x")
    case True
    then obtain zs' where zs: "exchange_pass y ys = (z, zs')" "zs = x # zs'"
      using "2.prems" by (auto split: prod.splits)
    from "2.IH"(1) [OF True zs(1)] show ?thesis using True zs(2) by (auto simp: add_mset_commute)
  next
    case False
    then obtain zs' where zs: "exchange_pass x ys = (z, zs')" "zs = y # zs'"
      using "2.prems" by (auto split: prod.splits)
    from "2.IH"(2) [OF False zs(1)] show ?thesis using False zs(2) by (auto simp: add_mset_commute)
  qed
qed simp

lemma exchange_sort_sorted:
  "mset (exchange_sort rs) = mset rs \<and> sorted (map mr_ordinal (exchange_sort rs))"
proof (induction rs rule: exchange_sort.induct)
  case (2 x xs)
  obtain z zs where z: "exchange_pass x xs = (z, zs)" by (rule prod.exhaust)
  note least = exchange_pass_least [OF z]
  have IH: "mset (exchange_sort zs) = mset zs" "sorted (map mr_ordinal (exchange_sort zs))" using "2.IH" z by simp_all
  then have "set (exchange_sort zs) = set zs" by (metis set_mset_mset)
  moreover have "set zs \<subseteq> set (x # xs)" using least by (metis set_mset_mset set_subset_Cons)
  ultimately show ?case using IH z least by auto
qed simp

lemma exchange_sort_eq: "distinct (map mr_ordinal rs) \<Longrightarrow> exchange_sort rs = sort_key mr_ordinal rs"
proof -
  assume d: "distinct (map mr_ordinal rs)"
  have "mset (exchange_sort rs) = mset rs" "sorted (map mr_ordinal (exchange_sort rs))"
    using exchange_sort_sorted by blast+
  moreover have "inj_on mr_ordinal (set rs)" using d by (simp add: distinct_map)
  moreover then have "inj_on mr_ordinal (set (exchange_sort rs))"
    using exchange_sort_sorted [of rs] by (metis mset_eq_setD)
  ultimately show ?thesis by (metis sort_key_inj_key_eq)
qed


definition listed_macro :: "64 word \<Rightarrow> bytes \<Rightarrow> macro_record" where
  "listed_macro k name = \<lparr>mr_workspace_id = ''w1'', mr_ordinal = k, mr_name = name, mr_text = ''ls'', mr_target_pane = 0,
     mr_target_process_name = [], mr_key_name = ''F1''\<rparr>"

lemma listed_macro_ok: "k \<noteq> 0 \<Longrightarrow> field_ok 64 name \<Longrightarrow> name \<noteq> [] \<Longrightarrow> macro_ok (listed_macro k name)"
  using length_show_u64 [of k] length_show_u64 [of 0]
  by (simp add: macro_ok_def listed_macro_def field_ok_def plain_field_def is_sep_def macro_line_def word_gt_0)


section \<open>Deleting a workspace\<close>

text \<open>
  A process has ended: its record says so, its controller says so, or its controller does not
  answer and its event log has the exit.
\<close>

definition process_ended :: "manager_env \<Rightarrow> manager \<Rightarrow> process_record \<Rightarrow> bool" where
  "process_ended env m p \<longleftrightarrow>
     process_is_terminal_state (pr_state p)
     \<or> (case controller_status_state env m p of
          (Inr s, _) \<Rightarrow> process_is_terminal_state s
        | (Inl _, m') \<Rightarrow> process_event_log_has_exit env m' (pr_process_id p))"

lemma completed_terminal [simp]: "process_is_terminal_state ''completed''"
  by (simp add: process_is_terminal_state_def)

lemma line_request_sent:
  assumes "controller_line_request env m s c n = (Inr x, m')"
  shows "(s, c) \<in> set (mg_sent m')"
  using assms by (auto simp: controller_line_request_def split: if_splits)

lemma sends_sent: "sends m m' \<Longrightarrow> x \<in> set (mg_sent m) \<Longrightarrow> x \<in> set (mg_sent m')"
  by (auto simp: sends_def)

lemma stop_process_live:
  assumes "stop_process env stop p m = (live, failed, m')"
  shows "\<not> live \<Longrightarrow> process_ended env m p"
    and "live \<Longrightarrow> stop \<Longrightarrow> \<not> failed \<Longrightarrow> (pr_control_socket p, ''terminate'') \<in> set (mg_sent m')"
proof -
  obtain res m1 where st: "controller_status_state env m p = (res, m1)" by (rule prod.exhaust)
  show "process_ended env m p" if "\<not> live"
    using assms that st
    by (cases res) (auto simp: stop_process_def process_ended_def Let_def split: if_splits prod.splits)
  show "(pr_control_socket p, ''terminate'') \<in> set (mg_sent m')" if "live" "stop" "\<not> failed"
    using assms that st
    by (cases res) (auto simp: stop_process_def Let_def terminate_controller_def
        dest: line_request_sent split: if_splits prod.splits sum.splits)
qed

lemma stop_processes_each:
  "stop_processes env stop ps m = (n, False, m') \<Longrightarrow> p \<in> set ps \<Longrightarrow>
     (\<exists>m1. sends m m1 \<and> process_ended env m1 p)
     \<or> n > 0 \<and> (stop \<longrightarrow> (pr_control_socket p, ''terminate'') \<in> set (mg_sent m'))"
proof (induction ps arbitrary: m n)
  case (Cons q ps)
  obtain live failed m1 where q: "stop_process env stop q m = (live, failed, m1)" by (metis prod.exhaust)
  obtain k failed' m2 where r: "stop_processes env stop ps m1 = (k, failed', m2)" by (metis prod.exhaust)
  have n: "n = (if live then Suc k else k)" "\<not> failed" "failed' = False" "m2 = m'"
    using Cons.prems(1) q r by (auto simp: Let_def split: if_splits)
  have m1: "sends m m1" using stop_process_sends [OF q] .
  show ?case
  proof (cases "p \<in> set ps")
    case True
    from Cons.IH [OF r [unfolded n(3,4)] this] n(1) m1 show ?thesis by (auto intro: sends_trans)
  next
    case False
    then have "p = q" using Cons.prems(2) by simp
    then show ?thesis
      using stop_process_live [OF q] n sends_sent [OF stop_processes_sends [OF r]] by (cases live) auto
  qed
qed simp

lemma deleted_workspace:
  assumes "workspace_file_ok f" "rewrite_workspace_records io f (ws_id w) None True = (Inr found, f')"
    and "w \<in> set (workspace_records f)" "r \<in> set (workspace_records f')"
  shows "ws_id r \<noteq> ws_id w \<and> ws_name r \<noteq> ws_id w"
proof -
  obtain rs where rs: "workspace_records f = rs" "list_all stored_workspace_ok rs" "sorted_wrt workspaces_apart rs"
    using workspace_file_okE [OF assms(1)] by blast
  have f': "f' = Some (concat (map workspace_line (edit_workspaces (ws_id w) None True rs)))"
    using assms(2) rs(1) by (cases io) (auto simp: rewrite_workspace_records_def Let_def)
  have "list_all stored_workspace_ok (edit_workspaces (ws_id w) None True rs)"
    using edit_workspaces_ok [OF rs(2,3)] by blast
  then have "workspace_records f' = edit_workspaces (ws_id w) None True rs"
    unfolding f' by (rule printed_records(1) [OF stored_workspaces_ok])
  then have r: "r \<in> set rs" "ws_id r \<noteq> ws_id w" using assms(4) by (auto simp: edit_workspaces_def split: if_splits)
  have "w \<in> set rs" using assms(3) rs(1) by simp
  then show ?thesis
    using find_apart [OF rs(3) r(1), of "ws_id w"] find_apart [OF rs(3), of w "ws_id w"] r(2) by auto
qed

lemma lifecycle_checks_ok:
  assumes "lifecycle_checks delete env conn params m = Inr (wid, stop, rm)" "param_string params ''workspace_id'' 128 = Inr wref"
  obtains w where "find_workspace (mg_files m) wref = Some w" "ws_id w = wid"
    "connection_has_workspace_capability env (mg_files m) wid conn
      (if delete then CUBICLE_CAP_WORKSPACE_DELETE else CUBICLE_CAP_WORKSPACE_STOP)"
    "stop \<longleftrightarrow> cubicle_json_get_optional_bool params ''stop_running_processes'' = Inr (Some True)"
  using assms by (auto simp: lifecycle_checks_def rbind_eq_Inr)

text \<open>C36. (\<open>workspace.delete\<close>.) A workspace is deleted only for a client that may delete it. Each of its
  processes has then ended, or the client asked for running processes to be stopped and the
  controller of the process was sent the command to terminate. In a well-formed file
  the workspace is gone afterwards.\<close>

theorem workspace_delete_safe:
  assumes "workspace_lifecycle True env conn params m = (ApiSuccess s, m')"
    and "param_string params ''workspace_id'' 128 = Inr wref"
    and "workspace_file_ok (workspaces_tsv (mg_files m))"
  shows "\<exists>w. find_workspace (mg_files m) wref = Some w
    \<and> connection_has_workspace_capability env (mg_files m) (ws_id w) conn CUBICLE_CAP_WORKSPACE_DELETE
    \<and> (\<forall>p \<in> set (process_records (processes_tsv (mg_files m))). pr_workspace_id p = ws_id w \<longrightarrow>
        (\<exists>m1. sends m m1 \<and> process_ended env m1 p)
        \<or> cubicle_json_get_optional_bool params ''stop_running_processes'' = Inr (Some True)
          \<and> (pr_control_socket p, ''terminate'') \<in> set (mg_sent m'))
    \<and> find_workspace (mg_files m') (ws_id w) = None"
proof -
  obtain wid stop rm where c: "lifecycle_checks True env conn params m = Inr (wid, stop, rm)"
    using assms(1) by (cases "lifecycle_checks True env conn params m")
      (auto simp: workspace_lifecycle_def lifecycle_checks_def rbind_eq_Inl check_eq_Inl split: prod.splits)
  let ?ps = "filter (\<lambda>p. pr_workspace_id p = wid) (process_records (processes_tsv (mg_files m)))"
  obtain n failed m1 where st: "stop_processes env stop ?ps m = (n, failed, m1)" by (metis prod.exhaust)
  have m1: "mg_files m1 = mg_files m" using sends_files [OF stop_processes_sends [OF st]] .
  obtain res f where rw: "rewrite_workspace_records (env_rewrite env 0) (workspaces_tsv (mg_files m)) wid None True = (res, f)"
    by (rule prod.exhaust)
  have fin: "\<not> failed" "n > 0 \<longrightarrow> stop" "\<exists>found. res = Inr found"
      "\<exists>r. remove_processes env 1 (if rm then take 256 (map pr_process_id ?ps) else []) (with_workspaces m1 f) = (r, m')"
    using assms(1) st rw m1
    by (auto simp: workspace_lifecycle_def c Let_def split: if_splits sum.splits prod.splits removal_error.splits)
  have m': "workspaces_tsv (mg_files m') = f" "mg_sent m' = mg_sent m1"
    using fin(4) by (auto dest!: remove_processes_files simp: with_workspaces_def)
  obtain w where w: "find_workspace (mg_files m) wref = Some w" "ws_id w = wid"
    "connection_has_workspace_capability env (mg_files m) wid conn CUBICLE_CAP_WORKSPACE_DELETE"
    "stop \<longleftrightarrow> cubicle_json_get_optional_bool params ''stop_running_processes'' = Inr (Some True)"
    using lifecycle_checks_ok [OF c assms(2)] by auto
  have "\<forall>p \<in> set ?ps. (\<exists>m1. sends m m1 \<and> process_ended env m1 p)
      \<or> stop \<and> (pr_control_socket p, ''terminate'') \<in> set (mg_sent m')"
    using stop_processes_each [OF st [unfolded Eq_FalseI [OF fin(1)]]] fin(2) m'(2) by auto
  moreover have "find_workspace (mg_files m') wid = None"
    using deleted_workspace [OF assms(3), of _ w] fin(3) rw w(1,2) m'(1)
    by (fastforce simp: find_workspace_def find_None dest: find_Some)
  ultimately show ?thesis using w by auto
qed

definition ended_process :: process_record where
  "ended_process = \<lparr>pr_process_id = ''p1'', pr_workspace_id = ''w1'', pr_friendly_name = ''sh'', pr_mode = ''pty'', pr_state = ''completed'',
     pr_controller_id = ''c1'', pr_control_socket = ''/s'', pr_cwd = ''/'', pr_argv_json = ''[]'', pr_saved = False, pr_restart = False,
     pr_stdin_policy = ''open'', pr_workspace_name = ''main'', pr_workspace_directory = ''/home''\<rparr>"

lemma ended_process_ok: "process_ok ended_process"
  by (simp add: process_ok_def ended_process_def field_ok_def plain_field_def is_sep_def process_line_def flag_text_def)

definition populated_manager :: manager where
  "populated_manager = with_processes example_manager (Some (concat (map process_line [ended_process])))"

lemma populated_manager_files:
  "process_records (processes_tsv (mg_files populated_manager)) = [ended_process]"
  "workspaces_tsv (mg_files populated_manager) = workspaces_tsv (mg_files example_manager)"
  "find_workspace (mg_files populated_manager) x = find_workspace (mg_files example_manager) x"
  using printed_records(2) [of "[ended_process]"] ended_process_ok
  by (simp_all add: populated_manager_def with_processes_def find_workspace_def)

lemma owner_capable: "connection_has_workspace_capability example_env files w owner_connection c"
  by (simp add: connection_has_workspace_capability_def connection_is_manager_owner_def connection_is_same_uid_def
      owner_connection_def example_connection_def example_env_def)

lemma single_param: "n > length s \<Longrightarrow> is_cstr s \<Longrightarrow> param_string (JObj [(field, JStr s)]) field n = Inr s"
  by (simp add: param_string_def cubicle_json_get_required_string_def required_field_def find_object_member_def
      checked_string_def cstr_id)

theorem workspace_delete_safe_witness:
  "\<exists>s m'. workspace_lifecycle True example_env owner_connection (JObj [(''workspace_id'', JStr ''w1'')]) populated_manager = (ApiSuccess s, m')
     \<and> find_workspace (mg_files m') ''w1'' = None"
proof -
  let ?p = "JObj [(''workspace_id'', JStr ''w1'')]"
  have p: "param_string ?p ''workspace_id'' 128 = Inr ''w1''" by (rule single_param) simp_all
  have b: "cubicle_json_get_optional_bool ?p ''stop_running_processes'' = Inr None"
    "cubicle_json_get_optional_bool ?p ''remove_retained_processes'' = Inr None"
    by (simp_all add: cubicle_json_get_optional_bool_def optional_field_def find_object_member_def)
  have env: "env_lock example_env = None" "env_rewrite example_env 0 = None" by (simp_all add: example_env_def)
  have c: "lifecycle_checks True example_env owner_connection ?p populated_manager = Inr (''w1'', False, False)"
    by (simp add: lifecycle_checks_def p b env owner_capable populated_manager_files example_find_workspace)
  have st: "stop_process example_env False ended_process m = (False, False, m)" for m
    by (simp add: stop_process_def ended_process_def)
  obtain f where f: "rewrite_workspace_records (env_rewrite example_env 0) (workspaces_tsv (mg_files populated_manager)) ''w1'' None True
      = (Inr True, f)"
    by (simp add: rewrite_workspace_records_def env populated_manager_files example_workspace_records)
      (simp add: example_workspaces_def)
  have "pr_workspace_id ended_process = ''w1''" by (simp add: ended_process_def)
  then have "workspace_lifecycle True example_env owner_connection ?p populated_manager = (ApiSuccess ''{}'', with_workspaces populated_manager f)"
    by (simp add: workspace_lifecycle_def c populated_manager_files(1) st f)
  moreover have "workspace_file_ok (workspaces_tsv (mg_files populated_manager))"
    using example_workspaces_ok by (simp add: populated_manager_files)
  note workspace_delete_safe [OF calculation p this]
  moreover have "find_workspace (mg_files populated_manager) ''w1'' = Some \<lparr>ws_id = ''w1'', ws_name = ''main'', ws_directory = ''/home''\<rparr>"
    by (simp add: populated_manager_files example_find_workspace)
  ultimately show ?thesis by auto
qed

end
