(* ===== verification/Manager_Processes.thy ===== *)
theory Manager_Processes
  imports Manager_Workspaces
begin

text \<open>
  Requests on processes (\<open>src/src/manager/main.c\<close>, lines 5997 to 7026 and 8036 to 8171): looking
  them up, starting, signalling, waiting for, updating and removing them, and reading what
  they printed. Starting a controller is the parameter \<open>env_launch\<close>; the command line it gets
  and the paths it uses are modelled. A file that is read does not change during a request,
  apart from the event log and the answers of a controller.
\<close>

unbundle bit_operations_syntax

section \<open>Processes as JSON\<close>

definition process_output_range :: "manager_env \<Rightarrow> bytes \<Rightarrow> bytes \<Rightarrow> (nat \<times> nat) result" where
  "process_output_range env pid file_name =
     (case env_output env pid file_name of
        Inl e \<Rightarrow> if e = ENOENT then Inr (0, 0) else Inl e
      | Inr content \<Rightarrow> Inr (0, length content))"

definition bool_text :: "bool \<Rightarrow> bytes" where
  "bool_text b = (if b then ''true'' else ''false'')"

definition process_info_json :: "manager_env \<Rightarrow> bytes \<Rightarrow> process_record \<Rightarrow> nat \<Rightarrow> bytes result" where
  "process_info_json env manager_id p n =
     rbind (cubicle_json_escape 256 (Some (pr_friendly_name p))) (\<lambda>name.
     rbind (cubicle_json_escape 8192 (Some (pr_cwd p))) (\<lambda>cwd.
     rbind (process_output_range env (pr_process_id p) ''stdout.log'') (\<lambda>(out_start, out_end).
     rbind (process_output_range env (pr_process_id p) ''stderr.log'') (\<lambda>(err_start, err_end).
       fit n
         (''{\"manager_id\":\"'' @ manager_id @ ''\",\"workspace_id\":\"'' @ pr_workspace_id p
          @ ''\",\"id\":\"'' @ pr_process_id p @ ''\",\"friendly_name\":\"'' @ name @ ''\",\"mode\":\"'' @ pr_mode p
          @ ''\",\"state\":\"'' @ api_process_state_name (pr_state p) @ ''\",\"cwd\":\"'' @ cwd
          @ ''\",\"argv\":'' @ (if pr_argv_json p = [] then ''[]'' else pr_argv_json p)
          @ '',\"saved\":'' @ bool_text (pr_saved p) @ '',\"restart\":'' @ bool_text (pr_restart p)
          @ '',\"exit_code\":0,\"termination_signal\":0,\"has_exit_status\":false,\"stdout_start_offset\":'' @ show_nat out_start
          @ '',\"stdout_offset\":'' @ show_nat out_end @ '',\"stderr_start_offset\":'' @ show_nat err_start
          @ '',\"stderr_offset\":'' @ show_nat err_end @ '',\"tty_offset\":'' @ show_nat out_end
          @ '',\"created_at_ms\":0,\"started_at_ms\":0,\"exited_at_ms\":0,\"local_pid\":0,\"local_pgid\":0}'')))))"

definition encoded_process :: "manager_env \<Rightarrow> bytes \<Rightarrow> process_record \<Rightarrow> reply" where
  "encoded_process env manager_id p =
     (case process_info_json env manager_id p 21504 of
        Inl e \<Rightarrow> ApiError CUBICLE_ERR_INTERNAL ''failed to encode process'' False (Some e)
      | Inr s \<Rightarrow> ApiSuccess s)"

section \<open>Looking up\<close>

text \<open>An optional reference to a workspace; an empty one counts as absent.\<close>

definition workspace_filter :: "manager_files \<Rightarrow> bytes option \<Rightarrow> reply + bytes option" where
  "workspace_filter files wref =
     (case wref of
        None \<Rightarrow> Inr None
      | Some r \<Rightarrow>
          if r = [] then Inr None
          else rbind (some_or (not_found ''workspace not found'') (find_workspace files r)) (\<lambda>w. Inr (Some (ws_id w))))"

definition found_or :: "reply \<Rightarrow> reply \<Rightarrow> 'a lookup \<Rightarrow> reply + 'a" where
  "found_or missing ambiguous l = (case l of Found x \<Rightarrow> Inr x | Missing \<Rightarrow> Inl missing | Ambiguous \<Rightarrow> Inl ambiguous)"

text \<open>Most requests report an ambiguous reference like a missing one.\<close>

definition the_process :: "manager_files \<Rightarrow> bytes \<Rightarrow> bytes option \<Rightarrow> reply + process_record" where
  "the_process files pref wid =
     found_or (not_found ''process not found'') (not_found ''process not found'') (find_process_record files pref wid)"

definition process_get_checks :: "json \<Rightarrow> manager \<Rightarrow> reply + process_record" where
  "process_get_checks params m =
     rbind (or_reply (invalid ''missing process reference'') (param_string params ''process'' 128)) (\<lambda>pref.
     rbind (or_reply (invalid ''invalid workspace reference'') (param_optional_string params ''workspace_id'' 128)) (\<lambda>wref.
     rbind (workspace_filter (mg_files m) wref) (\<lambda>wid.
       found_or (not_found ''process not found'')
         (ApiError CUBICLE_ERR_AMBIGUOUS_NAME ''ambiguous process name'' False None)
         (find_process_record (mg_files m) pref wid))))"

text \<open>The controller is asked before the access is checked.\<close>

definition process_get :: "manager_env \<Rightarrow> bytes \<Rightarrow> connection \<Rightarrow> json \<Rightarrow> manager \<Rightarrow> reply \<times> manager" where
  "process_get env manager_id conn params m =
     (case process_get_checks params m of
        Inl r \<Rightarrow> (r, m)
      | Inr p \<Rightarrow>
          (let (q, m') = refresh_observed_process_state env m p in
           (reply_of
              (rbind (unless (connection_has_workspace_capability env (mg_files m) (pr_workspace_id q) conn CUBICLE_CAP_PROCESS_READ)
                 (denied ''process read access is required'')) (\<lambda>_. Inr (encoded_process env manager_id q))),
            m')))"

text \<open>The loop of \<open>process.list\<close>: \<open>None\<close> when an item does not fit.\<close>

fun process_list_loop ::
    "manager_env \<Rightarrow> bytes \<Rightarrow> connection \<Rightarrow> bytes option \<Rightarrow> bytes \<Rightarrow> nat \<Rightarrow> process_record list \<Rightarrow> manager
     \<Rightarrow> (bytes \<times> nat) option \<times> manager" where
  "process_list_loop env manager_id conn wid used n [] m = (Some (used, n), m)"
| "process_list_loop env manager_id conn wid used n (p # ps) m =
     (if wid \<noteq> None \<and> wid \<noteq> Some (pr_workspace_id p)
         \<or> \<not> connection_has_workspace_capability env (mg_files m) (pr_workspace_id p) conn CUBICLE_CAP_PROCESS_READ
      then process_list_loop env manager_id conn wid used n ps m
      else
        (let (q, m') = refresh_observed_process_state env m p in
         case process_info_json env manager_id q 21504 of
           Inl _ \<Rightarrow> process_list_loop env manager_id conn wid used n ps m'
         | Inr item \<Rightarrow>
             let t = (if n = 0 then [] else '','') @ item in
             if length t \<ge> 21504 - length used then (None, m')
             else process_list_loop env manager_id conn wid (used @ t) (Suc n) ps m'))"

definition process_list :: "manager_env \<Rightarrow> bytes \<Rightarrow> connection \<Rightarrow> json \<Rightarrow> manager \<Rightarrow> reply \<times> manager" where
  "process_list env manager_id conn params m =
     (case rbind (or_reply (invalid ''invalid workspace reference'') (param_optional_string params ''workspace_id'' 128))
             (workspace_filter (mg_files m)) of
        Inl r \<Rightarrow> (r, m)
      | Inr wid \<Rightarrow>
          (case process_list_loop env manager_id conn wid ''{\"processes\":['' 0 (process_records (processes_tsv (mg_files m))) m of
             (None, m') \<Rightarrow> (too_large ''process list response too large'', m')
           | (Some (used, n), m') \<Rightarrow>
               (if length (counted_end n) \<ge> 21504 - length used then too_large ''process list response too large''
                else ApiSuccess (used @ counted_end n), m')))"

section \<open>Paths\<close>

definition path_of :: "bytes \<Rightarrow> bytes result" where
  "path_of p = (if length p \<ge> 4096 then Inl ENAMETOOLONG else Inr p)"

definition controller_state_path :: "manager_env \<Rightarrow> bytes \<Rightarrow> bytes result" where
  "controller_state_path env pid = path_of (env_dir env @ ''/controllers/'' @ pid)"

definition controller_log_path :: "manager_env \<Rightarrow> bytes \<Rightarrow> bytes result" where
  "controller_log_path env pid = path_of (env_log_dir env @ ''/controllers/'' @ pid)"

definition controller_socket_path :: "manager_env \<Rightarrow> bytes \<Rightarrow> bytes result" where
  "controller_socket_path env pid = path_of (env_runtime_dir env @ ''/controllers/'' @ pid @ ''/control.sock'')"

text \<open>A name made safe for a file; an empty one is replaced by the second.\<close>

definition isalnum :: "char \<Rightarrow> bool" where
  "isalnum c \<longleftrightarrow> is_digit c \<or> 65 \<le> byte c \<and> byte c \<le> 90 \<or> 97 \<le> byte c \<and> byte c \<le> 122"

definition sanitize_history_component :: "nat \<Rightarrow> bytes \<Rightarrow> bytes \<Rightarrow> bytes" where
  "sanitize_history_component n source fallback =
     (if n = 0 then []
      else
        (let v = (if source \<noteq> [] then source else if fallback \<noteq> [] then fallback else ''cube'') in
         map (\<lambda>c. if isalnum c \<or> c \<in> set ''-_.'' then c else CHR ''_'') (take (n - 1) v)))"

definition process_history_file_path ::
    "manager_env \<Rightarrow> bytes \<Rightarrow> bytes \<Rightarrow> bytes \<Rightarrow> bytes \<Rightarrow> bytes result" where
  "process_history_file_path env workspace_name workspace_id friendly_name pid =
     rbind (path_of (env_dir env @ ''/history'')) (\<lambda>directory.
     rbind (case env_mkdir env directory of Some e \<Rightarrow> Inl e | None \<Rightarrow> Inr ()) (\<lambda>_.
       path_of (directory @ ''/'' @ sanitize_history_component 256 workspace_name workspace_id @ ''.''
         @ sanitize_history_component 256 friendly_name pid @ ''.log'')))"

definition ensure_parent_directory :: "manager_env \<Rightarrow> bytes \<Rightarrow> unit result" where
  "ensure_parent_directory env path =
     (let parent = rev (dropWhile (\<lambda>c. c \<noteq> CHR ''/'') (rev path)) in
      if length path \<ge> 4096 then Inl ENAMETOOLONG
      else if parent = [] then Inr ()
      else (case env_mkdir env (if parent = ''/'' then parent else butlast parent) of None \<Rightarrow> Inr () | Some e \<Rightarrow> Inl e))"

section \<open>Starting\<close>

text \<open>What a builder operation returns; its growth loop always ends.\<close>

definition returned :: "'a run \<Rightarrow> 'a result" where
  "returned r = (case r of None \<Rightarrow> Inl ENOMEM | Some x \<Rightarrow> x)"

fun build_argv_loop :: "(size_t \<Rightarrow> bool) \<Rightarrow> bool \<Rightarrow> json_builder \<Rightarrow> bytes list \<Rightarrow> json_builder result" where
  "build_argv_loop alloc first b [] = Inr b"
| "build_argv_loop alloc first b (a # as) =
     rbind (if first then Inr b else returned (cubicle_json_builder_append alloc b (Some '',''))) (\<lambda>b1.
     rbind (returned (cubicle_json_builder_append_string alloc b1 (Some a))) (\<lambda>b2.
       build_argv_loop alloc False b2 as))"

definition build_argv_json :: "(size_t \<Rightarrow> bool) \<Rightarrow> nat \<Rightarrow> bytes list \<Rightarrow> bytes result" where
  "build_argv_json alloc n argv =
     rbind (returned (cubicle_json_builder_append alloc cubicle_json_builder_init (Some ''[''))) (\<lambda>b1.
     rbind (build_argv_loop alloc True b1 argv) (\<lambda>b2.
       case returned (cubicle_json_builder_append alloc b2 (Some '']'')) of
         Inl _ \<Rightarrow> Inl ENOSPC
       | Inr b3 \<Rightarrow> if unat (blength b3) \<ge> n then Inl ENOSPC else Inr (bdata b3)))"

text \<open>The command line of a controller.\<close>

definition controller_argv ::
    "manager_env \<Rightarrow> bytes \<Rightarrow> bytes \<Rightarrow> bytes \<Rightarrow> bytes \<Rightarrow> bytes \<Rightarrow> bytes \<Rightarrow> bytes \<Rightarrow> bytes list \<Rightarrow> bytes list" where
  "controller_argv env controller_state controller_log control_socket mode stdin_policy cwd histfile command =
     [env_controller_bin env, ''--daemon'', ''--stdin-policy'', stdin_policy, ''--state-dir'', controller_state,
      ''--log-dir'', controller_log, ''--control-socket'', control_socket, ''--mode'', mode, ''--cwd'', cwd,
      ''--histfile'', histfile]
     @ (if env_controller_debug env \<noteq> [] \<and> env_controller_debug env \<noteq> ''none'' then [''--debug'', env_controller_debug env] else [])
     @ ''--'' # command"

definition launch_controller :: "manager_env \<Rightarrow> bytes \<Rightarrow> bytes list \<Rightarrow> manager \<Rightarrow> unit result \<times> manager" where
  "launch_controller env pid argv m =
     (case env_launch env (length (mg_launched m)) of
        Some e \<Rightarrow> (Inl e, m)
      | None \<Rightarrow> (Inr (), m\<lparr>mg_launched := mg_launched m @ [(pid, argv)]\<rparr>))"

text \<open>A hundred polls, for the socket and the metadata or for a process that has exited already.\<close>

definition wait_for_controller_ready :: "(nat \<Rightarrow> bool \<times> bool \<times> bool) \<Rightarrow> bytes result" where
  "wait_for_controller_ready ready =
     (case find (\<lambda>i. case ready i of (socket, metadata, exited) \<Rightarrow> metadata \<and> (socket \<or> exited)) [0..<100] of
        None \<Rightarrow> Inl ETIMEDOUT
      | Some i \<Rightarrow> Inr (if fst (ready i) then ''running'' else ''exited''))"

fun metadata_value :: "bytes \<Rightarrow> bytes list \<Rightarrow> bytes option" where
  "metadata_value prefix [] = None"
| "metadata_value prefix (l # ls) =
     (if take (length prefix) l = prefix then Some (takeWhile (\<lambda>c. c \<noteq> NL) (drop (length prefix) l))
      else metadata_value prefix ls)"

definition read_metadata_field :: "manager_env \<Rightarrow> bytes \<Rightarrow> bytes \<Rightarrow> nat \<Rightarrow> bytes result" where
  "read_metadata_field env pid field n =
     (case env_metadata env pid of
        None \<Rightarrow> Inl errno_unset
      | Some content \<Rightarrow>
          if length field + 1 \<ge> 64 then Inl ENAMETOOLONG
          else
            (case metadata_value (field @ ''='') (map cstr (fgets_lines 512 content)) of
               None \<Rightarrow> Inl ENOENT
             | Some v \<Rightarrow> if length v \<ge> n then Inl ENAMETOOLONG else Inr v))"

record start_request =
  sq_workspace :: bytes
  sq_friendly_name :: "bytes option"
  sq_mode :: bytes
  sq_stdin_policy :: bytes
  sq_cwd :: "bytes option"
  sq_restart :: bool
  sq_argv :: json

definition start_request_of :: "json \<Rightarrow> start_request checked" where
  "start_request_of params =
     rbind (param_string params ''workspace_id'' 128) (\<lambda>wref.
     rbind (param_optional_string params ''friendly_name'' 128) (\<lambda>name.
     rbind (param_string params ''mode'' 32) (\<lambda>mode.
     rbind (param_optional_string params ''stdin_policy'' 32) (\<lambda>policy.
     rbind (param_optional_string params ''cwd'' 4096) (\<lambda>cwd.
     rbind (cubicle_json_get_optional_bool params ''restart'') (\<lambda>restart.
     rbind (cubicle_json_get_required_array params ''argv'') (\<lambda>argv.
       Inr \<lparr>sq_workspace = wref, sq_friendly_name = name, sq_mode = mode,
            sq_stdin_policy = (case policy of None \<Rightarrow> ''open'' | Some p \<Rightarrow> p), sq_cwd = cwd,
            sq_restart = (restart = Some True), sq_argv = argv\<rparr>)))))))"

text \<open>The fields are valid; a missing name becomes a random identifier.\<close>

definition start_name :: "manager_env \<Rightarrow> start_request \<Rightarrow> bytes option" where
  "start_name env q =
     (if cubicle_json_array_size (sq_argv q) = 0 \<or> cubicle_json_array_size (sq_argv q) > 4096
         \<or> \<not> validate_field (Some (sq_workspace q)) \<or> \<not> validate_field (Some (sq_mode q)) then None
      else
        (case (case sq_friendly_name q of Some n \<Rightarrow> Inr n | None \<Rightarrow> env_hex_id env 0) of
           Inl _ \<Rightarrow> None
         | Inr n \<Rightarrow>
             if validate_field (Some n) \<and> sq_mode q \<in> {''stream'', ''tty'', ''term''}
               \<and> sq_stdin_policy q \<in> {''open'', ''eof''}
             then Some n else None))"

fun command_argv :: "json list \<Rightarrow> bytes list option" where
  "command_argv [] = Some []"
| "command_argv (v # vs) =
     (case v of
        JStr s \<Rightarrow> if s = [] \<or> length s \<ge> 4096 then None else map_option ((#) (cstr s)) (command_argv vs)
      | _ \<Rightarrow> None)"

definition array_items :: "json \<Rightarrow> json list" where
  "array_items a = (case a of JArr vs \<Rightarrow> vs | _ \<Rightarrow> [])"

text \<open>All that is decided before the controller's directories are made.\<close>

record start_plan =
  sp_process_id :: bytes
  sp_workspace :: workspace_record
  sp_name :: bytes
  sp_cwd :: bytes
  sp_argv :: "bytes list"
  sp_state :: bytes
  sp_log :: bytes
  sp_socket :: bytes

definition process_start_checks ::
    "manager_env \<Rightarrow> connection \<Rightarrow> json \<Rightarrow> manager \<Rightarrow> reply + start_request \<times> start_plan" where
  "process_start_checks env conn params m =
     rbind (or_reply (invalid ''invalid process start request'') (start_request_of params)) (\<lambda>q.
     rbind (some_or (invalid ''invalid process start request'') (start_name env q)) (\<lambda>name.
     rbind (some_or (invalid ''invalid process argv'') (command_argv (array_items (sq_argv q)))) (\<lambda>argv.
     rbind (lock_state env) (\<lambda>_.
     rbind (some_or (not_found ''workspace not found'') (find_workspace (mg_files m) (sq_workspace q))) (\<lambda>w.
     rbind (unless (connection_has_workspace_capability env (mg_files m) (ws_id w) conn CUBICLE_CAP_PROCESS_START)
       (denied ''process start access is required'')) (\<lambda>_.
     rbind (or_reply (invalid ''invalid process directory'')
       (env_resolve env (Some (case sq_cwd q of None \<Rightarrow> ws_directory w | Some d \<Rightarrow> d)))) (\<lambda>cwd.
     rbind (unless (validate_field (Some cwd)) (invalid ''invalid process directory'')) (\<lambda>_.
     rbind (case env_hex_id env 1 of
              Inl e \<Rightarrow> Inl (ApiError CUBICLE_ERR_INTERNAL ''failed to allocate process id'' False (Some e))
            | Inr pid \<Rightarrow> Inr pid) (\<lambda>pid.
     rbind (unless (\<not> snd (process_conflict_exists (mg_files m) (ws_id w) pid name))
       (ApiError CUBICLE_ERR_ALREADY_EXISTS ''process friendly name already exists'' False None)) (\<lambda>_.
     rbind (or_reply (too_large ''controller path too long'')
       (rbind (controller_state_path env pid) (\<lambda>st.
        rbind (controller_log_path env pid) (\<lambda>lg.
        rbind (controller_socket_path env pid) (\<lambda>so. Inr (st, lg, so)))))) (\<lambda>(st, lg, so).
     Inr (q, \<lparr>sp_process_id = pid, sp_workspace = w, sp_name = name, sp_cwd = cwd, sp_argv = argv,
       sp_state = st, sp_log = lg, sp_socket = so\<rparr>))))))))))))"

definition prepare_controller :: "manager_env \<Rightarrow> start_plan \<Rightarrow> unit result" where
  "prepare_controller env pl =
     (if length (sp_state pl @ ''/metadata'') \<ge> 4096 \<or> length (sp_log pl @ ''/events.log'') \<ge> 4096 then Inl errno_unset
      else rbind (ensure_parent_directory env (sp_socket pl)) (\<lambda>_.
        case env_mkdir env (sp_log pl) of None \<Rightarrow> Inr () | Some e \<Rightarrow> Inl e))"

definition started_record ::
    "start_request \<Rightarrow> start_plan \<Rightarrow> bytes \<Rightarrow> bytes \<Rightarrow> bytes \<Rightarrow> process_record" where
  "started_record q pl process_state controller_id argv_json =
     \<lparr>pr_process_id = sp_process_id pl, pr_workspace_id = ws_id (sp_workspace pl), pr_friendly_name = sp_name pl,
      pr_mode = sq_mode q, pr_state = process_state, pr_controller_id = controller_id, pr_control_socket = sp_socket pl,
      pr_cwd = sp_cwd pl, pr_argv_json = argv_json, pr_saved = False, pr_restart = sq_restart q,
      pr_stdin_policy = sq_stdin_policy q, pr_workspace_name = ws_name (sp_workspace pl),
      pr_workspace_directory = ws_directory (sp_workspace pl)\<rparr>"

definition process_start :: "manager_env \<Rightarrow> bytes \<Rightarrow> connection \<Rightarrow> json \<Rightarrow> manager \<Rightarrow> reply \<times> manager" where
  "process_start env manager_id conn params m =
     (case process_start_checks env conn params m of
        Inl r \<Rightarrow> (r, m)
      | Inr (q, pl) \<Rightarrow>
          (case prepare_controller env pl of
             Inl e \<Rightarrow> (io_failed ''failed to prepare controller paths'' e, m)
           | Inr _ \<Rightarrow>
          (case process_history_file_path env (ws_name (sp_workspace pl)) (ws_id (sp_workspace pl)) (sp_name pl) (sp_process_id pl) of
             Inl e \<Rightarrow> (io_failed ''failed to prepare history path'' e, m)
           | Inr histfile \<Rightarrow>
          (case launch_controller env (sp_process_id pl)
                  (controller_argv env (sp_state pl) (sp_log pl) (sp_socket pl) (sq_mode q) (sq_stdin_policy q) (sp_cwd pl)
                     histfile (sp_argv pl)) m of
             (Inl e, m1) \<Rightarrow> (ApiError CUBICLE_ERR_INTERNAL ''failed to start controller'' False (Some e), m1)
           | (Inr _, m1) \<Rightarrow>
          (case wait_for_controller_ready (env_ready env (length (mg_launched m))) of
             Inl e \<Rightarrow> (ApiError CUBICLE_ERR_INTERNAL ''failed to start controller'' False (Some e), m1)
           | Inr process_state \<Rightarrow>
          (case build_argv_json (env_alloc env) 16384 (sp_argv pl) of
             Inl e \<Rightarrow> (ApiError CUBICLE_ERR_RESOURCE_LIMIT ''process argv is too large'' False (Some e), m1)
           | Inr argv_json \<Rightarrow>
          (case read_metadata_field env (sp_process_id pl) ''controller_id'' 33 of
             Inl e \<Rightarrow> (io_failed ''failed to persist process'' e, m1)
           | Inr controller_id \<Rightarrow>
          (let p = started_record q pl process_state controller_id argv_json in
           case append_process_record (env_append env 0) (processes_tsv (mg_files m1)) p of
             (Inl e, f) \<Rightarrow> (io_failed ''failed to persist process'' e, with_processes m1 f)
           | (Inr _, f) \<Rightarrow> (encoded_process env manager_id p, with_processes m1 f)))))))))"

section \<open>Signalling\<close>

datatype signal_request = SignalNumber | Terminate | Kill

definition SIGKILL :: nat where "SIGKILL = 9"

definition signal_access :: "manager_env \<Rightarrow> connection \<Rightarrow> json \<Rightarrow> manager \<Rightarrow> reply + process_record" where
  "signal_access env conn params m =
     rbind (or_reply (invalid ''missing process id'') (param_string params ''process_id'' 128)) (\<lambda>pref.
     rbind (the_process (mg_files m) pref None) (\<lambda>p.
     rbind (unless (connection_has_workspace_capability env (mg_files m) (pr_workspace_id p) conn CUBICLE_CAP_PROCESS_SIGNAL)
       (denied ''process signal access is required'')) (\<lambda>_. Inr p)))"

definition signal_action ::
    "signal_request \<Rightarrow> manager_env \<Rightarrow> json \<Rightarrow> process_record \<Rightarrow> manager \<Rightarrow> reply + bytes result \<times> manager" where
  "signal_action req env params p m =
     (case req of
        SignalNumber \<Rightarrow>
          (case cubicle_json_get_required_u64 params ''signal_number'' of
             Inl _ \<Rightarrow> Inl (invalid ''invalid signal number'')
           | Inr n \<Rightarrow>
               if n = 0 \<or> n \<ge> 128 then Inl (invalid ''invalid signal number'')
               else Inr (signal_controller env m p (unat n)))
      | Terminate \<Rightarrow> Inr (terminate_controller env m p)
      | Kill \<Rightarrow> Inr (signal_controller env m p SIGKILL))"

definition process_signal ::
    "signal_request \<Rightarrow> manager_env \<Rightarrow> connection \<Rightarrow> json \<Rightarrow> manager \<Rightarrow> reply \<times> manager" where
  "process_signal req env conn params m =
     (case rbind (signal_access env conn params m) (\<lambda>p. signal_action req env params p m) of
        Inl r \<Rightarrow> (r, m)
      | Inr (Inl e, m') \<Rightarrow> (ApiError CUBICLE_ERR_CONTROLLER_UNAVAILABLE ''controller request failed'' True (Some e), m')
      | Inr (Inr _, m') \<Rightarrow> (ApiSuccess ''{}'', m'))"

section \<open>Waiting\<close>

text \<open>
  The loop that polls a process every 50 ms, until it has ended or the time is over. The
  time waited is a 64-bit counter; \<open>None\<close> is a loop that never ends.
\<close>

partial_function (option) wait_loop ::
    "manager_env \<Rightarrow> process_record \<Rightarrow> 64 word \<Rightarrow> 64 word \<Rightarrow> bytes \<Rightarrow> manager \<Rightarrow> (bytes \<times> manager) option" where
  "wait_loop env p timeout_ms waited_ms latest m =
     (if process_is_terminal_state latest then Some (latest, m)
      else
        (case process_observed_state env m p of
           (s, m') \<Rightarrow>
             if process_is_terminal_state s then Some (s, m')
             else if waited_ms \<ge> timeout_ms then Some (s, m')
             else wait_loop env p timeout_ms (waited_ms + 50) s m'))"

declare wait_loop.simps [code]

text \<open>The end of a process is stored when the lock and the rewrite succeed.\<close>

definition store_state :: "manager_env \<Rightarrow> process_record \<Rightarrow> bytes \<Rightarrow> manager \<Rightarrow> process_record \<times> manager" where
  "store_state env p latest m =
     (case rewrite_process_records (env_rewrite env 0) (processes_tsv (mg_files m)) (pr_process_id p)
             (Some (state_update latest)) False of
        (res, f) \<Rightarrow> (if res = Inr True then p\<lparr>pr_state := store 32 latest\<rparr> else p, with_processes m f))"

definition process_wait_checks ::
    "manager_env \<Rightarrow> connection \<Rightarrow> json \<Rightarrow> manager \<Rightarrow> reply + process_record \<times> 64 word" where
  "process_wait_checks env conn params m =
     rbind (or_reply (invalid ''invalid process wait request'')
       (rbind (param_string params ''process_id'' 128) (\<lambda>pref.
        rbind (cubicle_json_get_optional_u64 params ''timeout_ms'') (\<lambda>t.
          Inr (pref, case t of None \<Rightarrow> 0 | Some t' \<Rightarrow> t'))))) (\<lambda>(pref, timeout_ms).
     rbind (the_process (mg_files m) pref None) (\<lambda>p.
     rbind (unless (connection_has_workspace_capability env (mg_files m) (pr_workspace_id p) conn CUBICLE_CAP_PROCESS_READ)
       (denied ''process wait access is required'')) (\<lambda>_. Inr (p, timeout_ms))))"

definition process_wait ::
    "manager_env \<Rightarrow> bytes \<Rightarrow> connection \<Rightarrow> json \<Rightarrow> manager \<Rightarrow> (reply \<times> manager) option" where
  "process_wait env manager_id conn params m =
     (case process_wait_checks env conn params m of
        Inl r \<Rightarrow> Some (r, m)
      | Inr (p, timeout_ms) \<Rightarrow>
          (case wait_loop env p timeout_ms 0 (pr_state p) m of
             None \<Rightarrow> None
           | Some (latest, m1) \<Rightarrow>
               (let (q, m2) =
                  (if latest \<noteq> pr_state p \<and> process_is_terminal_state latest \<and> env_lock env = None
                   then store_state env p latest m1 else (p, m1)) in
                Some (encoded_process env manager_id q, m2))))"

section \<open>Updating\<close>

definition process_update_checks ::
    "manager_env \<Rightarrow> connection \<Rightarrow> json \<Rightarrow> manager \<Rightarrow> reply + process_record \<times> process_update" where
  "process_update_checks env conn params m =
     rbind (or_reply (invalid ''invalid process update request'')
       (rbind (param_string params ''process'' 128) (\<lambda>pref.
        rbind (param_optional_string params ''workspace_id'' 128) (\<lambda>wref.
        rbind (param_optional_string params ''friendly_name'' 128) (\<lambda>name.
        rbind (cubicle_json_get_optional_bool params ''restart'') (\<lambda>restart.
          Inr (pref, wref, name, restart))))))) (\<lambda>(pref, wref, name, restart).
     rbind (unless (name = None \<or> validate_field name) (invalid ''invalid process update request'')) (\<lambda>_.
     rbind (unless (name \<noteq> None \<or> restart \<noteq> None) (invalid ''process update has no changes'')) (\<lambda>_.
     rbind (workspace_filter (mg_files m) wref) (\<lambda>wid.
     rbind (lock_state env) (\<lambda>_.
     rbind (the_process (mg_files m) pref wid) (\<lambda>p.
     rbind (unless (connection_has_workspace_capability env (mg_files m) (pr_workspace_id p) conn CUBICLE_CAP_PROCESS_SIGNAL)
       (denied ''process update access is required'')) (\<lambda>_.
     rbind (unless (case name of None \<Rightarrow> True
                    | Some n \<Rightarrow> \<not> process_friendly_name_conflicts (mg_files m) (pr_workspace_id p) (pr_process_id p) n)
       (ApiError CUBICLE_ERR_CONFLICT ''friendly name already exists'' False None)) (\<lambda>_.
     Inr (p, \<lparr>pu_state = None, pu_saved = None, pu_friendly_name = name, pu_restart = restart\<rparr>)))))))))"

definition process_save_checks ::
    "bool \<Rightarrow> manager_env \<Rightarrow> connection \<Rightarrow> json \<Rightarrow> manager \<Rightarrow> reply + process_record \<times> process_update" where
  "process_save_checks saved env conn params m =
     rbind (or_reply (invalid ''missing process id'') (param_string params ''process_id'' 128)) (\<lambda>pref.
     rbind (lock_state env) (\<lambda>_.
     rbind (the_process (mg_files m) pref None) (\<lambda>p.
     rbind (unless (connection_has_workspace_capability env (mg_files m) (pr_workspace_id p) conn CUBICLE_CAP_PROCESS_REMOVE)
       (denied ''process save access is required'')) (\<lambda>_.
     Inr (p, \<lparr>pu_state = None, pu_saved = Some saved, pu_friendly_name = None, pu_restart = None\<rparr>)))))"

text \<open>Both requests store the change and answer with the changed record.\<close>

definition apply_process_update ::
    "manager_env \<Rightarrow> bytes \<Rightarrow> reply + process_record \<times> process_update \<Rightarrow> manager \<Rightarrow> reply \<times> manager" where
  "apply_process_update env manager_id checks m =
     (case checks of
        Inl r \<Rightarrow> (r, m)
      | Inr (p, u) \<Rightarrow>
          (case rewrite_process_records (env_rewrite env 0) (processes_tsv (mg_files m)) (pr_process_id p) (Some u) False of
             (Inl e, f) \<Rightarrow> (io_failed ''failed to update process'' e, with_processes m f)
           | (Inr found, f) \<Rightarrow>
               (if found then encoded_process env manager_id (apply_update u p)
                else io_failed ''failed to update process'' errno_unset,
                with_processes m f)))"

definition process_update_request :: "manager_env \<Rightarrow> bytes \<Rightarrow> connection \<Rightarrow> json \<Rightarrow> manager \<Rightarrow> reply \<times> manager" where
  "process_update_request env manager_id conn params m =
     apply_process_update env manager_id (process_update_checks env conn params m) m"

definition process_save :: "bool \<Rightarrow> manager_env \<Rightarrow> bytes \<Rightarrow> connection \<Rightarrow> json \<Rightarrow> manager \<Rightarrow> reply \<times> manager" where
  "process_save saved env manager_id conn params m =
     apply_process_update env manager_id (process_save_checks saved env conn params m) m"

section \<open>Removing\<close>

definition process_remove_checks :: "manager_env \<Rightarrow> connection \<Rightarrow> json \<Rightarrow> manager \<Rightarrow> reply + process_record" where
  "process_remove_checks env conn params m =
     rbind (or_reply (invalid ''missing process id'') (param_string params ''process_id'' 128)) (\<lambda>pref.
     rbind (lock_state env) (\<lambda>_.
     rbind (the_process (mg_files m) pref None) (\<lambda>p.
     rbind (unless (connection_has_workspace_capability env (mg_files m) (pr_workspace_id p) conn CUBICLE_CAP_PROCESS_REMOVE)
       (denied ''process remove access is required'')) (\<lambda>_. Inr p))))"

definition process_remove :: "manager_env \<Rightarrow> connection \<Rightarrow> json \<Rightarrow> manager \<Rightarrow> reply \<times> manager" where
  "process_remove env conn params m =
     (case process_remove_checks env conn params m of
        Inl r \<Rightarrow> (r, m)
      | Inr p \<Rightarrow>
          (let (latest, m1) = process_observed_state env m p;
               (q, m2) =
                 (if \<not> process_is_terminal_state (pr_state p) \<and> process_is_terminal_state latest
                  then store_state env p latest m1 else (p, m1)) in
           if \<not> process_is_terminal_state (pr_state q)
           then (ApiError CUBICLE_ERR_INVALID_STATE ''process is still live'' False None, m2)
           else
             (case remove_processes env 1 [pr_process_id q] m2 of
                (Inl (RecordNotRemoved e), m3) \<Rightarrow> (io_failed ''failed to remove process'' e, m3)
              | (Inl (StateNotRemoved e), m3) \<Rightarrow> (io_failed ''failed to remove process state'' e, m3)
              | (Inr _, m3) \<Rightarrow> (ApiSuccess ''{}'', m3))))"

definition cleanup_checks :: "manager_env \<Rightarrow> connection \<Rightarrow> json \<Rightarrow> manager \<Rightarrow> reply + bytes option" where
  "cleanup_checks env conn params m =
     rbind (or_reply (invalid ''invalid cleanup request'') (param_optional_string params ''workspace_id'' 128)) (\<lambda>wref.
     rbind (lock_state env) (\<lambda>_.
     rbind (workspace_filter (mg_files m) wref) (\<lambda>wid.
     rbind (case wid of
              Some w \<Rightarrow>
                unless (connection_has_workspace_capability env (mg_files m) w conn CUBICLE_CAP_PROCESS_REMOVE)
                  (denied ''cleanup access is required'')
            | None \<Rightarrow>
                unless (connection_is_manager_owner env conn) (denied ''manager cleanup requires local owner access'')) (\<lambda>_.
     Inr wid))))"

text \<open>The processes to remove, and how many were skipped because they are live or saved.\<close>

fun cleanup_candidates ::
    "manager_env \<Rightarrow> bytes option \<Rightarrow> process_record list \<Rightarrow> manager \<Rightarrow> (bytes list \<times> nat \<times> nat) \<times> manager" where
  "cleanup_candidates env wid [] m = (([], 0, 0), m)"
| "cleanup_candidates env wid (p # ps) m =
     (if wid \<noteq> None \<and> wid \<noteq> Some (pr_workspace_id p) then cleanup_candidates env wid ps m
      else
        (let (latest, m1) = process_observed_state env m p;
             ((pids, live, saved), m2) = cleanup_candidates env wid ps m1 in
         (if \<not> process_is_terminal_state latest then (pids, Suc live, saved)
          else if pr_saved p then (pids, live, Suc saved)
          else (pr_process_id p # pids, live, saved), m2)))"

definition manager_cleanup :: "manager_env \<Rightarrow> connection \<Rightarrow> json \<Rightarrow> manager \<Rightarrow> reply \<times> manager" where
  "manager_cleanup env conn params m =
     (case cleanup_checks env conn params m of
        Inl r \<Rightarrow> (r, m)
      | Inr wid \<Rightarrow>
          (let ((pids, live, saved), m1) = cleanup_candidates env wid (process_records (processes_tsv (mg_files m))) m in
           case remove_processes env 0 pids m1 of
             (Inl (RecordNotRemoved e), m2) \<Rightarrow> (io_failed ''failed to remove cleanup process'' e, m2)
           | (Inl (StateNotRemoved e), m2) \<Rightarrow> (io_failed ''failed to remove cleanup process state'' e, m2)
           | (Inr removed, m2) \<Rightarrow>
               (case fit 256 (''{\"removed_count\":'' @ show_nat removed @ '',\"skipped_live_count\":'' @ show_nat live
                   @ '',\"skipped_saved_count\":'' @ show_nat saved @ '',\"failed_count\":0}'') of
                  Inl _ \<Rightarrow> ApiClose
                | Inr s \<Rightarrow> ApiSuccess s, m2)))"

section \<open>Reading output\<close>

definition read_output_checks ::
    "manager_env \<Rightarrow> connection \<Rightarrow> json \<Rightarrow> manager \<Rightarrow> reply + process_record \<times> bytes \<times> 64 word \<times> 64 word" where
  "read_output_checks env conn params m =
     rbind (or_reply (invalid ''invalid read_output request'')
       (rbind (param_string params ''process_id'' 128) (\<lambda>pref.
        rbind (param_string params ''stream'' 32) (\<lambda>stream.
        rbind (cubicle_json_get_required_u64 params ''offset'') (\<lambda>offset.
        rbind (cubicle_json_get_required_u64 params ''maximum_length'') (\<lambda>maximum.
          Inr (pref, stream, offset, maximum))))))) (\<lambda>(pref, stream, offset, maximum).
     rbind (unless (maximum \<le> 8192) (invalid ''invalid read_output request'')) (\<lambda>_.
     rbind (some_or (invalid ''unknown output stream'') (api_stream_file_name stream)) (\<lambda>file_name.
     rbind (the_process (mg_files m) pref None) (\<lambda>p.
     rbind (unless (connection_has_workspace_capability env (mg_files m) (pr_workspace_id p) conn CUBICLE_CAP_PROCESS_READ)
       (denied ''process output access is required'')) (\<lambda>_. Inr (p, file_name, offset, maximum))))))"

text \<open>
  The bytes sent of a file: at most the maximum, without the start of a character that is cut.
\<close>

definition output_chunk :: "bytes \<Rightarrow> nat \<Rightarrow> nat \<Rightarrow> bytes" where
  "output_chunk content offset maximum =
     (let data = take maximum (drop offset content); safe_total = cubicle_json_safe_utf8_prefix_length (Some data) in
      if safe_total > 0 \<and> safe_total < length data then take safe_total data else data)"

definition output_json :: "(size_t \<Rightarrow> bool) \<Rightarrow> bytes \<Rightarrow> nat \<Rightarrow> bytes \<Rightarrow> bytes result" where
  "output_json alloc content offset chunk =
     (let next_offset = offset + length chunk in
      rbind (returned (cubicle_json_builder_appendf alloc cubicle_json_builder_init
        (''{\"start_offset\":'' @ show_nat offset @ '',\"next_offset\":'' @ show_nat next_offset @ '',\"end_of_stream\":''
         @ bool_text (next_offset \<ge> length content) @ '',\"data\":''))) (\<lambda>b1.
      rbind (returned (cubicle_json_builder_append_string_n alloc b1 (Some chunk) (length chunk))) (\<lambda>b2.
      rbind (returned (cubicle_json_builder_appendf alloc b2 ('',\"length\":'' @ show_nat (length chunk) @ ''}''))) (\<lambda>b3.
        Inr (bdata b3)))))"

definition process_read_output :: "manager_env \<Rightarrow> connection \<Rightarrow> json \<Rightarrow> manager \<Rightarrow> reply" where
  "process_read_output env conn params m =
     reply_of
       (rbind (read_output_checks env conn params m) (\<lambda>(p, file_name, offset, maximum).
        rbind (case env_output env (pr_process_id p) file_name of
                 Inl e \<Rightarrow>
                   Inl (if e = ENAMETOOLONG then too_large ''output path too long'' else io_failed ''failed to open output'' e)
               | Inr content \<Rightarrow> Inr content) (\<lambda>content.
        rbind (case env_stat_output env of Some e \<Rightarrow> Inl (io_failed ''failed to stat output'' e) | None \<Rightarrow> Inr ()) (\<lambda>_.
        rbind (unless (unat offset \<le> length content) (invalid ''offset is past end of output'')) (\<lambda>_.
        rbind (case env_read_output env of
                 Some e \<Rightarrow> if take (unat maximum) (drop (unat offset) content) = [] then Inr ()
                   else Inl (io_failed ''failed to read output'' e)
               | None \<Rightarrow> Inr ()) (\<lambda>_.
        rbind (or_reply (too_large ''read_output response too large'')
          (output_json (env_alloc env) content (unat offset) (output_chunk content (unat offset) (unat maximum)))) (\<lambda>s.
        Inr (ApiSuccess s))))))))"

section \<open>The file of processes\<close>

text \<open>Every field of a stored record can be replaced without the line growing too long.\<close>

definition stored_process_ok :: "process_record \<Rightarrow> bool" where
  "stored_process_ok r \<longleftrightarrow> process_ok r
     \<and> length (pr_control_socket r) + length (pr_cwd r) + length (pr_argv_json r) + length (pr_workspace_directory r) \<le> 21000"

definition processes_ok :: "state_file \<Rightarrow> bool" where
  "processes_ok f \<longleftrightarrow> process_file_ok f \<and> list_all stored_process_ok (process_records f)"

lemma stored_process_updates:
  assumes "stored_process_ok r"
  shows "field_ok 32 s \<Longrightarrow> stored_process_ok (r\<lparr>pr_state := s\<rparr>)"
    and "field_ok 128 n \<Longrightarrow> stored_process_ok (r\<lparr>pr_friendly_name := n\<rparr>)"
    and "stored_process_ok (r\<lparr>pr_saved := b\<rparr>)" "stored_process_ok (r\<lparr>pr_restart := b\<rparr>)"
  using assms by (auto simp: stored_process_ok_def process_ok_def field_ok_def process_line_def flag_text_def)

lemma apply_update_ok:
  assumes "stored_process_ok r" "\<forall>s. pu_state u = Some s \<longrightarrow> field_ok 32 s" "\<forall>n. pu_friendly_name u = Some n \<longrightarrow> field_ok 128 n"
  shows "stored_process_ok (apply_update u r)"
proof -
  let ?s = "case pu_state u of None \<Rightarrow> pr_state r | Some s \<Rightarrow> store 32 s"
  let ?n = "case pu_friendly_name u of None \<Rightarrow> pr_friendly_name r | Some n \<Rightarrow> store 128 n"
  have "field_ok 32 (pr_state r)" "field_ok 128 (pr_friendly_name r)"
    using assms(1) by (simp_all add: stored_process_ok_def process_ok_def)
  then have "field_ok 32 ?s" "field_ok 128 ?n" using assms(2,3) by (auto simp: store_id split: option.split)
  from stored_process_updates(4) [OF stored_process_updates(2) [OF stored_process_updates(3) [OF stored_process_updates(1) [OF assms(1) this(1)]] this(2)]]
  show ?thesis by (simp add: apply_update_def)
qed

lemma processes_okE:
  assumes "processes_ok f"
  obtains rs where "process_records f = rs" "list_all stored_process_ok rs" "distinct (map pr_process_id rs)"
    "(case f of None \<Rightarrow> [] | Some c \<Rightarrow> c) = concat (map process_line rs)"
  using assms process_file_okE by (metis processes_ok_def)

lemma stored_processes_ok: "list_all stored_process_ok rs \<Longrightarrow> list_all process_ok rs"
  by (auto simp: list_all_iff stored_process_ok_def)

lemma process_records_printed:
  "list_all stored_process_ok rs \<Longrightarrow> process_records (Some (concat (map process_line rs))) = rs"
  by (rule printed_records(2) [OF stored_processes_ok])

lemma processes_okI:
  "list_all stored_process_ok rs \<Longrightarrow> distinct (map pr_process_id rs) \<Longrightarrow> processes_ok (Some (concat (map process_line rs)))"
  by (simp add: processes_ok_def process_file_okI [OF stored_processes_ok] process_records_printed)

text \<open>A rewrite succeeds with the edited records, or fails and changes nothing.\<close>

lemma rewrite_processes:
  assumes "processes_ok f" "rewrite_process_records io f pid update remove = (res, f')"
    and "\<forall>u. update = Some u \<longrightarrow>
      (\<forall>s. pu_state u = Some s \<longrightarrow> field_ok 32 s) \<and> (\<forall>n. pu_friendly_name u = Some n \<longrightarrow> field_ok 128 n)"
  shows "processes_ok f' \<and>
    ((\<exists>e. res = Inl e \<and> f' = f)
     \<or> res = Inr (\<exists>r \<in> set (process_records f). pr_process_id r = pid)
       \<and> process_records f' = edit_processes pid update remove (process_records f))"
proof (cases io)
  case None
  obtain rs where rs: "process_records f = rs" "list_all stored_process_ok rs" "distinct (map pr_process_id rs)"
    using processes_okE [OF assms(1)] by blast
  have f': "f' = Some (concat (map process_line (edit_processes pid update remove rs)))"
    "res = Inr (\<exists>r \<in> set rs. pr_process_id r = pid)"
    using assms(2) None rs(1) by (auto simp: rewrite_process_records_def Let_def)
  have "stored_process_ok (updated update r)" if "stored_process_ok r" for r
    using that assms(3) by (auto simp: updated_def apply_update_ok split: option.split)
  then have ok: "list_all stored_process_ok (edit_processes pid update remove rs)"
    using rs(2) by (auto simp: edit_processes_updated list_all_iff)
  have "distinct (map pr_process_id (edit_processes pid update remove rs))"
    by (simp only: edit_processes_ids distinct_filter rs(3))
  then show ?thesis using f' processes_okI [OF ok] process_records_printed [OF ok] rs(1) by simp
qed (use assms in \<open>auto simp: rewrite_process_records_def Let_def\<close>)

lemma terminal_field: "process_is_terminal_state s \<Longrightarrow> field_ok 32 s \<and> store 32 s = s"
  by (auto simp: process_is_terminal_state_def field_ok_def plain_field_def is_sep_def store_def)

lemma store_state_ok:
  assumes "processes_ok (processes_tsv (mg_files m))" "process_is_terminal_state latest" "store_state env p latest m = (q, m')"
  shows "processes_ok (processes_tsv (mg_files m'))"
    and "\<exists>f. m' = with_processes m f"
    and "pr_process_id q = pr_process_id p"
    and "q = p \<and> mg_files m' = mg_files m
     \<or> q = p\<lparr>pr_state := latest\<rparr> \<and> process_records (processes_tsv (mg_files m')) =
          edit_processes (pr_process_id p) (Some (state_update latest)) False (process_records (processes_tsv (mg_files m)))
     \<or> q = p \<and> (\<forall>r \<in> set (process_records (processes_tsv (mg_files m))). pr_process_id r \<noteq> pr_process_id p)
       \<and> process_records (processes_tsv (mg_files m')) =
          edit_processes (pr_process_id p) (Some (state_update latest)) False (process_records (processes_tsv (mg_files m)))"
proof -
  obtain res f where rw: "rewrite_process_records (env_rewrite env 0) (processes_tsv (mg_files m)) (pr_process_id p)
      (Some (state_update latest)) False = (res, f)" by (rule prod.exhaust)
  have m': "m' = with_processes m f" "q = (if res = Inr True then p\<lparr>pr_state := latest\<rparr> else p)"
    using assms(2,3) terminal_field [OF assms(2)] by (auto simp: store_state_def rw)
  have "\<forall>u. Some (state_update latest) = Some u \<longrightarrow>
      (\<forall>s. pu_state u = Some s \<longrightarrow> field_ok 32 s) \<and> (\<forall>n. pu_friendly_name u = Some n \<longrightarrow> field_ok 128 n)"
    using terminal_field [OF assms(2)] by (simp add: state_update_def)
  note R = rewrite_processes [OF assms(1) rw this]
  show "processes_ok (processes_tsv (mg_files m'))" "\<exists>f. m' = with_processes m f" "pr_process_id q = pr_process_id p"
    using R m' by (auto simp: with_processes_def)
  show "q = p \<and> mg_files m' = mg_files m
     \<or> q = p\<lparr>pr_state := latest\<rparr> \<and> process_records (processes_tsv (mg_files m')) =
          edit_processes (pr_process_id p) (Some (state_update latest)) False (process_records (processes_tsv (mg_files m)))
     \<or> q = p \<and> (\<forall>r \<in> set (process_records (processes_tsv (mg_files m))). pr_process_id r \<noteq> pr_process_id p)
       \<and> process_records (processes_tsv (mg_files m')) =
          edit_processes (pr_process_id p) (Some (state_update latest)) False (process_records (processes_tsv (mg_files m)))"
    using R m' by (auto simp: with_processes_def)
qed

lemma find_process_loop_Found:
  "find_process_loop pref wid acc rs = Found r \<Longrightarrow> acc = Some r \<or> r \<in> set rs \<and> process_matches pref wid r"
proof (induction rs arbitrary: acc)
  case (Cons s rs)
  show ?case
  proof (cases "process_matches pref wid s")
    case True
    then have "acc = None" "find_process_loop pref wid (Some s) rs = Found r"
      using Cons.prems by (auto split: option.splits)
    from Cons.IH [OF this(2)] True show ?thesis by auto
  next
    case False
    then show ?thesis using Cons.IH [of acc] Cons.prems by auto
  qed
qed (auto split: option.splits)

lemma the_process_found:
  assumes "the_process files pref wid = Inr p"
  shows "p \<in> set (process_records (processes_tsv files))" "process_matches pref wid p"
  using assms find_process_loop_Found [of pref wid None]
  by (auto simp: the_process_def found_or_def find_process_record_def split: lookup.splits)

lemma the_process_eq_Inl: "the_process files pref wid = Inl q \<Longrightarrow> q = not_found ''process not found''"
  by (auto simp: the_process_def found_or_def split: lookup.splits)

lemma the_process_id: "the_process files pref None = Inr p \<Longrightarrow> pr_process_id p = pref"
  using the_process_found(2) by (fastforce simp: process_matches_def)

lemma edit_remove: "edit_processes pid None True rs = filter (\<lambda>p. pr_process_id p \<noteq> pid) rs"
  by (simp add: edit_processes_updated map_idI)

lemma filter_edited:
  "filter (\<lambda>r. pr_process_id r \<noteq> pid) (edit_processes pid update remove rs) = filter (\<lambda>r. pr_process_id r \<noteq> pid) rs"
proof -
  have "filter (\<lambda>r. pr_process_id r \<noteq> pid) (edit_processes pid update remove (r # rs)) =
    (if pr_process_id r \<noteq> pid then [r] else []) @ filter (\<lambda>r. pr_process_id r \<noteq> pid) (edit_processes pid update remove rs)" for r rs
    by (simp add: edit_processes_updated)
  then show ?thesis by (induction rs) (simp_all add: edit_processes_def)
qed

lemma length_filter_key:
  "distinct (map k xs) \<Longrightarrow> length (filter (\<lambda>x. k x \<noteq> a) xs) + (if \<exists>x \<in> set xs. k x = a then 1 else 0) = length xs"
proof (induction xs)
  case (Cons y ys)
  show ?case
  proof (cases "k y = a")
    case True
    then have "\<forall>x \<in> set ys. k x \<noteq> a" using Cons.prems by (auto simp: image_iff)
    then have "filter (\<lambda>x. k x \<noteq> a) ys = ys" by (simp add: filter_id_conv)
    then show ?thesis using True by simp
  next
    case False
    then show ?thesis using Cons by auto
  qed
qed simp

lemma remove_processes_ok:
  assumes "processes_ok (processes_tsv (mg_files m))" "remove_processes env i pids m = (r, m')"
  shows "processes_ok (processes_tsv (mg_files m')) \<and>
    (\<exists>k \<le> length pids. process_records (processes_tsv (mg_files m')) =
        filter (\<lambda>p. pr_process_id p \<notin> set (take k pids)) (process_records (processes_tsv (mg_files m)))
      \<and> (\<forall>n. r = Inr n \<longrightarrow> k = length pids \<and> mg_removed m' = mg_removed m @ pids
          \<and> length (process_records (processes_tsv (mg_files m'))) + n = length (process_records (processes_tsv (mg_files m)))))"
  using assms
proof (induction pids arbitrary: i m r)
  case Nil
  then show ?case by auto
next
  case (Cons pid pids)
  let ?f = "processes_tsv (mg_files m)"
  let ?rs = "process_records ?f"
  have d: "distinct (map pr_process_id ?rs)" using processes_okE [OF Cons.prems(1)] by metis
  obtain res f where rw: "rewrite_process_records (env_rewrite env i) ?f pid None True = (res, f)" by (rule prod.exhaust)
  have R: "processes_ok f" "(\<exists>e. res = Inl e \<and> f = ?f) \<or> res = Inr (\<exists>r \<in> set ?rs. pr_process_id r = pid)
      \<and> process_records f = filter (\<lambda>p. pr_process_id p \<noteq> pid) ?rs"
    using rewrite_processes [OF Cons.prems(1) rw] by (auto simp: edit_remove)
  show ?case
  proof (cases res)
    case (Inl e)
    then have "f = ?f" using R(2) by auto
    then show ?thesis
      using Cons.prems rw Inl R by (intro conjI exI [of _ 0]) (auto simp: with_processes_def)
  next
    case (Inr found)
    then have f: "found = (\<exists>r \<in> set ?rs. pr_process_id r = pid)" "process_records f = filter (\<lambda>p. pr_process_id p \<noteq> pid) ?rs"
      using R(2) by auto
    have files: "processes_tsv (mg_files (with_processes m f)) = f" by (simp add: with_processes_def)
    show ?thesis
    proof (cases "env_remove_tree env pid")
      case (Some e)
      then have "m' = with_processes m f" "r = Inl (StateNotRemoved e)" using Cons.prems(2) rw Inr by auto
      then show ?thesis using R(1) f files by (intro conjI exI [of _ 1]) (auto simp: Let_def)
    next
      case None
      let ?m1 = "(with_processes m f)\<lparr>mg_removed := mg_removed m @ [pid]\<rparr>"
      obtain r' where rr: "remove_processes env (Suc i) pids ?m1 = (r', m')"
        "r = (case r' of Inl e \<Rightarrow> Inl e | Inr n \<Rightarrow> Inr (if found then Suc n else n))"
        using Cons.prems(2) rw Inr None by (auto simp: Let_def with_processes_def split: prod.splits sum.splits)
      have "processes_ok (processes_tsv (mg_files ?m1))" using R(1) files by simp
      note IH = Cons.IH [OF this rr(1)]
      have f1: "processes_tsv (mg_files ?m1) = f" "mg_removed ?m1 = mg_removed m @ [pid]" using files by simp_all
      from IH [unfolded f1] obtain k where k: "processes_ok (processes_tsv (mg_files m'))" "k \<le> length pids"
        "process_records (processes_tsv (mg_files m')) = filter (\<lambda>p. pr_process_id p \<notin> set (take k pids)) (process_records f)"
        "\<forall>n. r' = Inr n \<longrightarrow> k = length pids \<and> mg_removed m' = (mg_removed m @ [pid]) @ pids
          \<and> length (process_records (processes_tsv (mg_files m'))) + n = length (process_records f)"
        by blast
      have "length (process_records f) + (if found then 1 else 0) = length ?rs"
        using length_filter_key [OF d, of pid] f by simp
      then show ?thesis
        using k rr(2) f(2) by (intro conjI exI [of _ "Suc k"]) (auto intro: filter_cong split: sum.splits if_splits)
    qed
  qed
qed

lemma process_remove_checks_error: "process_remove_checks env conn params m = Inl r \<Longrightarrow> r \<noteq> ApiSuccess s"
  by (auto simp: process_remove_checks_def rbind_eq_Inl check_eq_Inl dest!: the_process_eq_Inl)

text \<open>C37. (\<open>process.remove\<close>.) A process is removed only for a client that may remove processes in
  its workspace and only when it has ended: its record says so, or the controller says so
  or is gone. Then its record and its directories are gone, and no other record is lost.\<close>

theorem process_remove_safe:
  assumes "process_remove env conn params m = (ApiSuccess s, m')" "processes_ok (processes_tsv (mg_files m))"
    and "param_string params ''process_id'' 128 = Inr pid"
  shows "\<exists>p \<in> set (process_records (processes_tsv (mg_files m))). pr_process_id p = pid
    \<and> connection_has_workspace_capability env (mg_files m) (pr_workspace_id p) conn CUBICLE_CAP_PROCESS_REMOVE
    \<and> process_is_terminal_state (fst (process_observed_state env m p))
    \<and> mg_removed m' = mg_removed m @ [pid]
    \<and> process_records (processes_tsv (mg_files m')) =
        filter (\<lambda>q. pr_process_id q \<noteq> pid) (process_records (processes_tsv (mg_files m)))
    \<and> processes_ok (processes_tsv (mg_files m'))"
proof -
  obtain p where p: "process_remove_checks env conn params m = Inr p"
    using assms(1) process_remove_checks_error
    by (cases "process_remove_checks env conn params m") (auto simp: process_remove_def)
  have found: "the_process (mg_files m) pid None = Inr p"
    "connection_has_workspace_capability env (mg_files m) (pr_workspace_id p) conn CUBICLE_CAP_PROCESS_REMOVE"
    using p assms(3) by (auto simp: process_remove_checks_def rbind_eq_Inr)
  obtain latest m1 where o: "process_observed_state env m p = (latest, m1)" by (rule prod.exhaust)
  obtain q m2 where q: "(if \<not> process_is_terminal_state (pr_state p) \<and> process_is_terminal_state latest
      then store_state env p latest m1 else (p, m1)) = (q, m2)" by (rule prod.exhaust)
  have m1: "mg_files m1 = mg_files m" "mg_removed m1 = mg_removed m" using observed_sends [OF o] by (auto simp: sends_def)
  have term_q: "process_is_terminal_state (pr_state q)" and rm: "\<exists>n. remove_processes env 1 [pr_process_id q] m2 = (Inr n, m')"
    using assms(1) p o q by (auto simp: process_remove_def Let_def split: if_splits prod.splits sum.splits removal_error.splits)
  have ended: "process_is_terminal_state latest"
  proof (cases "process_is_terminal_state (pr_state p)")
    case True
    then show ?thesis using o by (simp add: process_observed_state_def)
  next
    case False
    then show ?thesis using q term_q by (auto split: if_splits)
  qed
  have m2: "processes_ok (processes_tsv (mg_files m2))" "pr_process_id q = pid" "mg_removed m2 = mg_removed m"
    "filter (\<lambda>r. pr_process_id r \<noteq> pid) (process_records (processes_tsv (mg_files m2))) =
     filter (\<lambda>r. pr_process_id r \<noteq> pid) (process_records (processes_tsv (mg_files m)))"
  proof -
    note st = store_state_ok [of m1 latest env p q m2, unfolded m1(1), OF assms(2) ended]
    have id: "pr_process_id p = pid" using the_process_id [OF found(1)] .
    have "processes_ok (processes_tsv (mg_files m2)) \<and> pr_process_id q = pid \<and> mg_removed m2 = mg_removed m
      \<and> filter (\<lambda>r. pr_process_id r \<noteq> pid) (process_records (processes_tsv (mg_files m2))) =
        filter (\<lambda>r. pr_process_id r \<noteq> pid) (process_records (processes_tsv (mg_files m)))"
    proof (cases "\<not> process_is_terminal_state (pr_state p) \<and> process_is_terminal_state latest")
      case True
      then have 2: "store_state env p latest m1 = (q, m2)" using q by simp
      show ?thesis
        using st(1,3) [OF 2] st(2) [OF 2] st(4) [OF 2] m1 id by (auto simp: with_processes_def filter_edited)
    next
      case False
      then have "q = p" "m2 = m1" using q by (simp_all only: if_False) auto
      then show ?thesis using m1 assms(2) id by simp
    qed
    then show "processes_ok (processes_tsv (mg_files m2))" "pr_process_id q = pid" "mg_removed m2 = mg_removed m"
      "filter (\<lambda>r. pr_process_id r \<noteq> pid) (process_records (processes_tsv (mg_files m2))) =
       filter (\<lambda>r. pr_process_id r \<noteq> pid) (process_records (processes_tsv (mg_files m)))" by simp_all
  qed
  from rm obtain n where n: "remove_processes env 1 [pid] m2 = (Inr n, m')" using m2(2) by auto
  have "processes_ok (processes_tsv (mg_files m'))" "mg_removed m' = mg_removed m @ [pid]"
    "process_records (processes_tsv (mg_files m')) =
       filter (\<lambda>q. pr_process_id q \<noteq> pid) (process_records (processes_tsv (mg_files m2)))"
    using remove_processes_ok [OF m2(1) n] m2(3) by auto
  then show ?thesis
    using the_process_found(1) [OF found(1)] the_process_id [OF found(1)] found(2) ended o m2(4) by auto
qed

lemma ended_process_stored: "stored_process_ok ended_process"
  using ended_process_ok by (simp add: stored_process_ok_def ended_process_def)

lemma populated_processes_ok: "processes_ok (processes_tsv (mg_files populated_manager))"
  using processes_okI [of "[ended_process]"] ended_process_stored by (simp add: populated_manager_def with_processes_def)

lemma populated_process:
  "the_process (mg_files populated_manager) ''p1'' None = Inr ended_process"
  "process_observed_state example_env populated_manager ended_process = (''completed'', populated_manager)"
  by (simp_all add: the_process_def find_process_record_def populated_manager_files found_or_def process_matches_def
      ended_process_def process_observed_state_def)

theorem process_remove_safe_witness:
  "\<exists>s m'. process_remove example_env owner_connection (JObj [(''process_id'', JStr ''p1'')]) populated_manager = (ApiSuccess s, m')
     \<and> process_records (processes_tsv (mg_files m')) = []"
proof -
  let ?p = "JObj [(''process_id'', JStr ''p1'')]"
  have p: "param_string ?p ''process_id'' 128 = Inr ''p1''" by (rule single_param) simp_all
  have env: "env_lock example_env = None" "env_rewrite example_env (Suc 0) = None" "env_remove_tree example_env x = None" for x
    by (simp_all add: example_env_def)
  have c: "process_remove_checks example_env owner_connection ?p populated_manager = Inr ended_process"
    by (simp add: process_remove_checks_def p env populated_process owner_capable)
  have st: "process_is_terminal_state (pr_state ended_process)" by (simp add: ended_process_def)
  obtain m' where m': "process_remove example_env owner_connection ?p populated_manager = (ApiSuccess ''{}'', m')"
    using st by (simp add: process_remove_def c populated_process Let_def env rewrite_process_records_def)
  from process_remove_safe [OF m' populated_processes_ok p] m' show ?thesis
    by (auto simp: populated_manager_files ended_process_def)
qed

lemma cleanup_candidates_sound:
  "cleanup_candidates env wid ps m = ((pids, live, saved), m1) \<Longrightarrow>
     sends m m1 \<and> (\<forall>pid \<in> set pids. \<exists>p \<in> set ps. pr_process_id p = pid \<and> \<not> pr_saved p
       \<and> (wid = None \<or> wid = Some (pr_workspace_id p))
       \<and> (\<exists>m2. sends m m2 \<and> process_is_terminal_state (fst (process_observed_state env m2 p))))"
proof (induction ps arbitrary: m pids live saved)
  case (Cons p ps)
  show ?case
  proof (cases "wid \<noteq> None \<and> wid \<noteq> Some (pr_workspace_id p)")
    case True
    then have "cleanup_candidates env wid ps m = ((pids, live, saved), m1)" using Cons.prems by simp
    from Cons.IH [OF this] show ?thesis by auto
  next
    case False
    obtain latest m2 where o: "process_observed_state env m p = (latest, m2)" by (rule prod.exhaust)
    obtain pids' live' saved' m3 where r: "cleanup_candidates env wid ps m2 = ((pids', live', saved'), m3)"
      by (metis prod.exhaust)
    have m2: "sends m m2" using observed_sends [OF o] .
    have pids: "set pids \<subseteq> insert (pr_process_id p) (set pids')" "m3 = m1"
      "pr_process_id p \<in> set pids \<Longrightarrow> pr_process_id p \<in> set pids' \<or> process_is_terminal_state latest \<and> \<not> pr_saved p"
      using Cons.prems False o r by (auto simp: Let_def split: if_splits)
    note IH = Cons.IH [OF r [unfolded pids(2)]]
    have "sends m m1" using m2 IH pids(2) by (auto intro: sends_trans)
    moreover have "\<exists>q \<in> set (p # ps). pr_process_id q = pid \<and> \<not> pr_saved q
       \<and> (wid = None \<or> wid = Some (pr_workspace_id q))
       \<and> (\<exists>m2. sends m m2 \<and> process_is_terminal_state (fst (process_observed_state env m2 q)))" if pid: "pid \<in> set pids" for pid
    proof (cases "pid \<in> set pids'")
      case True
      then obtain q m4 where "q \<in> set ps" "pr_process_id q = pid" "\<not> pr_saved q" "wid = None \<or> wid = Some (pr_workspace_id q)"
        "sends m2 m4" "process_is_terminal_state (fst (process_observed_state env m4 q))"
        using IH by blast
      then show ?thesis using sends_trans [OF m2] by (intro bexI [of _ q] conjI exI [of _ m4]) simp_all
    next
      case new: False
      then have "pid = pr_process_id p" using pid pids(1) by auto
      then show ?thesis using pids(3) new pid False o by (intro bexI [of _ p]) (auto intro!: exI [of _ m])
    qed
    ultimately show ?thesis by blast
  qed
qed simp

lemma distinct_key_eq: "distinct (map k xs) \<Longrightarrow> x \<in> set xs \<Longrightarrow> y \<in> set xs \<Longrightarrow> k x = k y \<Longrightarrow> x = y"
  by (simp add: distinct_map inj_on_def)

lemma workspace_filter_error: "workspace_filter files wref = Inl r \<Longrightarrow> r = not_found ''workspace not found''"
  by (auto simp: workspace_filter_def rbind_eq_Inl check_eq_Inl split: option.splits if_splits)

lemma cleanup_checks_error: "cleanup_checks env conn params m = Inl r \<Longrightarrow> r \<noteq> ApiSuccess s"
  by (auto simp: cleanup_checks_def rbind_eq_Inl check_eq_Inl dest!: workspace_filter_error split: option.splits)



section \<open>Waiting for a process\<close>

text \<open>The observations the loop makes, one after the other.\<close>

fun observation :: "manager_env \<Rightarrow> process_record \<Rightarrow> manager \<Rightarrow> nat \<Rightarrow> bytes \<times> manager" where
  "observation env p m 0 = process_observed_state env m p"
| "observation env p m (Suc k) = process_observed_state env (snd (observation env p m k)) p"

lemma observation_shift:
  "observation env p (snd (process_observed_state env m p)) k = observation env p m (Suc k)"
  by (induction k) simp_all

lemma waited_step:
  assumes "unat t \<le> 2 ^ 64 - 50" "unat (w :: 64 word) < unat t"
  shows "unat (w + 50) = unat w + 50"
proof -
  have "unat w + 50 < 2 ^ 64" using assms by simp
  then show ?thesis by (simp add: unat_word_ariths)
qed

lemma wait_loop_polls:
  assumes "unat t \<le> 2 ^ 64 - 50" "\<not> process_is_terminal_state latest"
  shows "\<exists>k. wait_loop env p t w latest m = Some (observation env p m k)
    \<and> (process_is_terminal_state (fst (observation env p m k)) \<or> unat t \<le> unat w + 50 * k)
    \<and> (\<forall>j < k. \<not> process_is_terminal_state (fst (observation env p m j)) \<and> unat w + 50 * j < unat t)"
  using assms(2)
proof (induction "unat t - unat w" arbitrary: w latest m rule: less_induct)
  case less
  obtain s m' where o: "process_observed_state env m p = (s, m')" by (rule prod.exhaust)
  show ?case
  proof (cases "process_is_terminal_state s \<or> w \<ge> t")
    case True
    then have "wait_loop env p t w latest m = Some (s, m')"
      using less.prems o by (subst wait_loop.simps) auto
    then show ?thesis using True o by (intro exI [of _ 0]) (auto simp: word_le_nat_alt)
  next
    case False
    then have w: "unat w < unat t" and s: "\<not> process_is_terminal_state s" by (simp_all add: word_le_nat_alt)
    have loop: "wait_loop env p t w latest m = wait_loop env p t (w + 50) s m'"
      using less.prems o False by (subst wait_loop.simps) simp
    note w50 = waited_step [OF assms(1) w]
    have "unat t - unat (w + 50) < unat t - unat w" using w w50 by simp
    from less.hyps [OF this s, of m'] obtain k where
      k: "wait_loop env p t (w + 50) s m' = Some (observation env p m' k)"
        "process_is_terminal_state (fst (observation env p m' k)) \<or> unat t \<le> unat w + 50 + 50 * k"
        "\<forall>j < k. \<not> process_is_terminal_state (fst (observation env p m' j)) \<and> unat w + 50 + 50 * j < unat t"
      using w50 by auto
    have shift: "observation env p m' j = observation env p m (Suc j)" for j
      using observation_shift [of env p m j] o by simp
    have "\<not> process_is_terminal_state (fst (observation env p m j)) \<and> unat w + 50 * j < unat t" if "j < Suc k" for j
      using that k(3) o s w by (cases j) (auto simp: shift simp del: observation.simps(2))
    then show ?thesis
      using loop k(1,2) by (intro exI [of _ "Suc k"]) (auto simp: shift simp del: observation.simps(2))
  qed
qed


definition running_manager :: manager where
  "running_manager = with_processes example_manager (Some (concat (map process_line [example_process])))"

lemma running_process:
  "process_records (processes_tsv (mg_files running_manager)) = [example_process]"
  "the_process (mg_files running_manager) ''p1'' None = Inr example_process"
proof -
  show r: "process_records (processes_tsv (mg_files running_manager)) = [example_process]"
    using printed_records(2) [of "[example_process]"] example_process_ok(1) by (simp add: running_manager_def with_processes_def)
  show "the_process (mg_files running_manager) ''p1'' None = Inr example_process"
    by (simp add: the_process_def find_process_record_def r found_or_def process_matches_def example_process_def)
qed


section \<open>Reading all of the output\<close>

lemma output_chunk_progress:
  assumes "0 < maximum" "offset < length content"
  shows "output_chunk content offset maximum \<noteq> []"
  using assms by (auto simp: output_chunk_def Let_def)

lemma output_chunk_prefix:
  "length (output_chunk content offset maximum) \<le> maximum
   \<and> take (length (output_chunk content offset maximum)) (drop offset content) = output_chunk content offset maximum"
proof -
  let ?d = "take maximum (drop offset content)"
  let ?k = "cubicle_json_safe_utf8_prefix_length (Some ?d)"
  have "output_chunk content offset maximum = take (if ?k > 0 \<and> ?k < length ?d then ?k else maximum) ?d"
    by (simp only: output_chunk_def Let_def) simp
  then obtain k where "output_chunk content offset maximum = take k ?d" by blast
  then show ?thesis by (auto simp: min_def)
qed

text \<open>What a client reads that asks for the next chunk until the end of the stream.\<close>

function read_chunks :: "bytes \<Rightarrow> nat \<Rightarrow> nat \<Rightarrow> bytes list" where
  "read_chunks content maximum offset =
     (if maximum = 0 \<or> offset \<ge> length content then []
      else output_chunk content offset maximum
        # read_chunks content maximum (offset + length (output_chunk content offset maximum)))"
  by pat_completeness auto
termination
proof (relation "measure (\<lambda>(content, maximum, offset). length content - offset)")
  fix content :: bytes and maximum offset :: nat
  assume "\<not> (maximum = 0 \<or> length content \<le> offset)"
  then show "((content, maximum, offset + length (output_chunk content offset maximum)), content, maximum, offset)
    \<in> measure (\<lambda>(content, maximum, offset). length content - offset)"
    using output_chunk_progress [of maximum offset content] by (cases "output_chunk content offset maximum") auto
qed simp

declare read_chunks.simps [simp del]

lemma concat_read_chunks: "0 < maximum \<Longrightarrow> concat (read_chunks content maximum offset) = drop offset content"
proof (induction content maximum offset rule: read_chunks.induct)
  case (1 content maximum offset)
  let ?c = "output_chunk content offset maximum"
  show ?case
  proof (cases "offset \<ge> length content")
    case False
    then have "concat (read_chunks content maximum offset) = ?c @ drop (offset + length ?c) content"
      using 1 by (subst read_chunks.simps) simp
    also have "\<dots> = take (length ?c) (drop offset content) @ drop (length ?c) (drop offset content)"
      using output_chunk_prefix [of content offset maximum] by (simp add: add.commute)
    also have "\<dots> = drop offset content" by (rule append_take_drop_id)
    finally show ?thesis .
  qed (simp add: read_chunks.simps)
qed

lemma read_chunks_bound: "c \<in> set (read_chunks content maximum offset) \<Longrightarrow> c \<noteq> [] \<and> length c \<le> maximum"
proof (induction content maximum offset rule: read_chunks.induct)
  case (1 content maximum offset)
  then show ?case
    using output_chunk_progress [of maximum offset content] output_chunk_prefix [of content offset maximum]
    by (subst (asm) read_chunks.simps) (auto split: if_splits)
qed

lemma length_escape_n: "length (escape_n s) \<le> 6 * length s"
proof (induction s rule: escape_n.induct)
  case (2 c cs)
  let ?n = "utf8_sequence_length (c # cs)"
  consider "byte c < 0x80" | "\<not> byte c < 0x80" "?n = 0" | "\<not> byte c < 0x80" "?n > 0" by auto
  then show ?case
  proof cases
    case 1
    then show ?thesis using "2.IH"(1) length_escape_char [of c] by simp
  next
    case 2
    then show ?thesis using "2.IH"(2) by (simp add: u_escape_def hex2_def)
  next
    case 3
    then have "length (escape_n (drop (?n - 1) cs)) \<le> 6 * length (drop (?n - 1) cs)" using "2.IH"(3) by simp
    then show ?thesis using 3 by (auto simp: Let_def min_def split: if_splits)
  qed
qed simp

lemma extends_returned:
  assumes "extends alloc b text r" "\<forall>c. alloc c" "length (bdata b) + length text < 2 ^ 63 - 1"
  shows "\<exists>b'. returned r = Inr b' \<and> builder_ok b' \<and> bdata b' = bdata b @ text"
  using assms by (auto simp: extends_def returned_def)

lemma appendf_extends:
  assumes "builder_ok b" "length t < 2 ^ 31"
  shows "extends alloc b t (cubicle_json_builder_appendf alloc b t)"
  using assms builder_push_extends [OF assms(1), of t] by (simp add: cubicle_json_builder_appendf_def)

lemma append_string_n_text:
  assumes "builder_ok b"
  shows "extends alloc b ([DQ] @ escape_n s @ [DQ]) (cubicle_json_builder_append_string_n alloc b (Some s) (length s))"
  unfolding cubicle_json_builder_append_string_n_def
  using quoted_extends [OF assms append_string_n_extends] by simp

definition output_text :: "bytes \<Rightarrow> nat \<Rightarrow> bytes \<Rightarrow> bytes" where
  "output_text content offset chunk =
     (''{\"start_offset\":'' @ show_nat offset @ '',\"next_offset\":'' @ show_nat (offset + length chunk) @ '',\"end_of_stream\":''
      @ bool_text (offset + length chunk \<ge> length content) @ '',\"data\":'')
     @ ([DQ] @ escape_n chunk @ [DQ]) @ ('',\"length\":'' @ show_nat (length chunk) @ ''}'')"

lemma output_json_text:
  assumes "\<forall>c. alloc c" "length chunk \<le> 8192" "offset < 2 ^ 64"
  shows "output_json alloc content offset chunk = Inr (output_text content offset chunk)"
proof -
  let ?t1 = "''{\"start_offset\":'' @ show_nat offset @ '',\"next_offset\":'' @ show_nat (offset + length chunk) @ '',\"end_of_stream\":''
      @ bool_text (offset + length chunk \<ge> length content) @ '',\"data\":''"
  let ?t2 = "[DQ] @ escape_n chunk @ [DQ]"
  let ?t3 = "'',\"length\":'' @ show_nat (length chunk) @ ''}''"
  have d: "length (show_nat offset) \<le> 21" "length (show_nat (offset + length chunk)) \<le> 21" "length (show_nat (length chunk)) \<le> 21"
    using assms(2,3) by (intro length_show_nat_le; simp)+
  have l: "length ?t1 < 200" "length ?t2 < 50000" "length ?t3 < 50"
    using d length_escape_n [of chunk] assms(2) by (simp_all add: bool_text_def)
  obtain b1 where b1: "returned (cubicle_json_builder_appendf alloc cubicle_json_builder_init ?t1) = Inr b1" "builder_ok b1"
    "bdata b1 = ?t1"
    using extends_returned [OF appendf_extends [OF builder_ok_init, of ?t1 alloc]] l assms(1)
    by (auto simp: cubicle_json_builder_init_def)
  obtain b2 where b2: "returned (cubicle_json_builder_append_string_n alloc b1 (Some chunk) (length chunk)) = Inr b2" "builder_ok b2"
    "bdata b2 = ?t1 @ ?t2"
    using extends_returned [OF append_string_n_text [OF b1(2)] assms(1), of chunk] l b1(3) by auto
  obtain b3 where b3: "returned (cubicle_json_builder_appendf alloc b2 ?t3) = Inr b3" "bdata b3 = (?t1 @ ?t2) @ ?t3"
    using extends_returned [OF appendf_extends [OF b2(2), of ?t3 alloc]] l b2(3) assms(1) by auto
  show ?thesis by (simp only: output_json_def Let_def b1(1) b2(1) b3 rbind_simps output_text_def append_assoc)
qed



end
