(* ===== verification/Manager_Attach.thy ===== *)
theory Manager_Attach
  imports Manager_Processes
begin

text \<open>
  Requests of \<open>src/src/manager/main.c\<close> that reach running processes or the whole manager: the
  attachments (\<open>attachment.request\<close>, \<open>attachment.proxy\<close>), the event log (\<open>events.subscribe\<close>,
  \<open>events.list\<close>), \<open>manager.reconcile\<close> and \<open>manager.shutdown\<close>.
\<close>

unbundle bit_operations_syntax

section \<open>Channels\<close>

definition CUBICLE_CHANNEL_STDIN :: "64 word" where "CUBICLE_CHANNEL_STDIN = 1"
definition CUBICLE_CHANNEL_STDOUT :: "64 word" where "CUBICLE_CHANNEL_STDOUT = 2"
definition CUBICLE_CHANNEL_STDERR :: "64 word" where "CUBICLE_CHANNEL_STDERR = 4"
definition CUBICLE_CHANNEL_TTY :: "64 word" where "CUBICLE_CHANNEL_TTY = 8"

lemmas channel_defs =
  CUBICLE_CHANNEL_STDIN_def CUBICLE_CHANNEL_STDOUT_def CUBICLE_CHANNEL_STDERR_def CUBICLE_CHANNEL_TTY_def

definition all_channels :: "64 word" where
  "all_channels = CUBICLE_CHANNEL_STDIN OR CUBICLE_CHANNEL_STDOUT OR CUBICLE_CHANNEL_STDERR OR CUBICLE_CHANNEL_TTY"

definition channel_entries :: "(64 word \<times> bytes) list" where
  "channel_entries =
     [(CUBICLE_CHANNEL_STDIN, ''stdin''), (CUBICLE_CHANNEL_STDOUT, ''stdout''),
      (CUBICLE_CHANNEL_STDERR, ''stderr''), (CUBICLE_CHANNEL_TTY, ''tty'')]"

fun channel_mask_loop :: "64 word \<Rightarrow> nat \<Rightarrow> bytes \<Rightarrow> (64 word \<times> bytes) list \<Rightarrow> bytes result" where
  "channel_mask_loop channels buffer_size used [] = (if used = [] then Inl errno_unset else Inr used)"
| "channel_mask_loop channels buffer_size used ((flag, name) # entries) =
     (if channels AND flag = 0 then channel_mask_loop channels buffer_size used entries
      else
        let text = (if used = [] then [] else '','') @ name in
        if length text \<ge> buffer_size - length used then Inl ENOSPC
        else channel_mask_loop channels buffer_size (used @ text) entries)"

definition channel_mask_string :: "64 word \<Rightarrow> nat \<Rightarrow> bytes result" where
  "channel_mask_string channels buffer_size = channel_mask_loop channels buffer_size [] channel_entries"

definition channels_valid :: "64 word \<Rightarrow> bool" where
  "channels_valid channels \<longleftrightarrow> channels \<noteq> 0 \<and> channels AND NOT all_channels = 0"

definition attachment_mode_valid :: "bytes \<Rightarrow> bool" where
  "attachment_mode_valid mode \<longleftrightarrow> mode = ''observer'' \<or> mode = ''interactive''"

definition attachment_capability :: "bytes \<Rightarrow> 64 word \<Rightarrow> 64 word" where
  "attachment_capability mode channels =
     (if mode = ''interactive'' \<or> channels AND CUBICLE_CHANNEL_STDIN \<noteq> 0
      then CUBICLE_CAP_PROCESS_OBSERVE OR CUBICLE_CAP_PROCESS_INPUT
      else CUBICLE_CAP_PROCESS_OBSERVE)"

section \<open>attachment.proxy\<close>

definition attachment_methods :: "bytes list" where
  "attachment_methods =
     [''controller.attach'', ''controller.read'', ''controller.write'', ''controller.resize'',
      ''controller.close_input'', ''controller.status'', ''controller.snapshot'', ''controller.detach'']"

definition proxy_checks ::
    "manager_env \<Rightarrow> connection \<Rightarrow> json \<Rightarrow> manager \<Rightarrow> reply + process_record \<times> bytes \<times> json" where
  "proxy_checks env conn params m =
     rbind (or_reply (invalid ''invalid attachment proxy request'')
       (rbind (param_string params ''process_id'' 128) (\<lambda>pref.
        rbind (param_string params ''grant_id'' 33) (\<lambda>grant_id.
        rbind (param_string params ''token'' 512) (\<lambda>token.
        rbind (cubicle_json_get_required_u64 params ''channels'') (\<lambda>channels.
        rbind (param_string params ''mode'' 32) (\<lambda>mode.
        rbind (param_string params ''method'' 128) (\<lambda>meth.
        rbind (cubicle_json_get_required_object params ''params'') (\<lambda>controller_params.
          Inr (pref, grant_id, token, channels, mode, meth, controller_params))))))))))
       (\<lambda>(pref, grant_id, token, channels, mode, meth, controller_params).
     rbind (unless (channels_valid channels \<and> attachment_mode_valid mode) (invalid ''invalid attachment proxy request'')) (\<lambda>_.
     rbind (unless (meth \<in> set attachment_methods) (invalid ''unsupported attachment proxy method'')) (\<lambda>_.
     rbind (unless (fit 512 (''local:'' @ grant_id @ '':'' @ pref) = Inr token) (denied ''invalid attachment token'')) (\<lambda>_.
     rbind (the_process (mg_files m) pref None) (\<lambda>p.
     rbind (unless (connection_has_workspace_capability env (mg_files m) (pr_workspace_id p) conn
         (attachment_capability mode channels))
       (denied ''attachment access is required'')) (\<lambda>_. Inr (p, meth, controller_params)))))))"

definition manager_proxy_controller_response :: "manager_env \<Rightarrow> bytes \<Rightarrow> reply" where
  "manager_proxy_controller_response env response =
     (case cubicle_rpc_decode_response (env_rd env) (Some response) ''relay-1'' of
        Inl _ \<Rightarrow> ApiError CUBICLE_ERR_PROTOCOL ''invalid controller response'' False None
      | Inr envelope \<Rightarrow>
          if resp_success envelope then
            (case cubicle_json_copy_value (env_wr env) (resp_result envelope) of
               Inl e \<Rightarrow> ApiError CUBICLE_ERR_RESOURCE_LIMIT ''controller response too large'' False (Some e)
             | Inr result_json \<Rightarrow> ApiSuccessLarge result_json)
          else
            (case cubicle_rpc_decode_error_value (the (resp_error envelope)) of
               Inl _ \<Rightarrow> ApiError CUBICLE_ERR_PROTOCOL ''invalid controller error'' False None
             | Inr e \<Rightarrow> ApiRelayed e))"

definition attachment_proxy :: "manager_env \<Rightarrow> connection \<Rightarrow> json \<Rightarrow> manager \<Rightarrow> reply \<times> connection" where
  "attachment_proxy env conn params m =
     (case proxy_checks env conn params m of
        Inl r \<Rightarrow> (r, conn)
      | Inr (p, meth, controller_params) \<Rightarrow>
          (case cubicle_json_copy_value (env_wr env) (Some controller_params) of
             Inl e \<Rightarrow> (ApiError CUBICLE_ERR_RESOURCE_LIMIT ''attachment proxy params too large'' False (Some e), conn)
           | Inr params_json \<Rightarrow>
               (case manager_connection_controller_rpc_call (env_rd env) (\<lambda>n. env_alloc env (of_nat n)) (env_link env)
                       (pr_control_socket p) meth params_json (cn_links conn) of
                  (Inl e, l) \<Rightarrow>
                    (ApiError CUBICLE_ERR_CONTROLLER_UNAVAILABLE ''controller proxy failed'' True (Some e), conn\<lparr>cn_links := l\<rparr>)
                | (Inr response, l) \<Rightarrow> (manager_proxy_controller_response env response, conn\<lparr>cn_links := l\<rparr>))))"

section \<open>attachment.request\<close>

definition attachment_request_checks ::
    "manager_env \<Rightarrow> connection \<Rightarrow> json \<Rightarrow> manager \<Rightarrow> reply + process_record \<times> 64 word \<times> bytes" where
  "attachment_request_checks env conn params m =
     rbind (or_reply (invalid ''invalid attachment request'')
       (rbind (param_string params ''process_id'' 128) (\<lambda>pref.
        rbind (cubicle_json_get_required_u64 params ''channels'') (\<lambda>channels.
        rbind (param_string params ''mode'' 32) (\<lambda>mode. Inr (pref, channels, mode)))))) (\<lambda>(pref, channels, mode).
     rbind (unless (channels_valid channels \<and> attachment_mode_valid mode) (invalid ''invalid attachment request'')) (\<lambda>_.
     rbind (the_process (mg_files m) pref None) (\<lambda>p.
     rbind (unless (connection_has_workspace_capability env (mg_files m) (pr_workspace_id p) conn
         (attachment_capability mode channels))
       (denied ''attachment access is required'')) (\<lambda>_. Inr (p, channels, mode)))))"

definition granted_channels :: "process_record \<Rightarrow> 64 word \<Rightarrow> 64 word" where
  "granted_channels p channels =
     (if pr_mode p = ''tty'' \<or> pr_mode p = ''term'' then
        (if channels AND CUBICLE_CHANNEL_STDOUT \<noteq> 0 then channels OR CUBICLE_CHANNEL_TTY else channels)
      else channels AND NOT CUBICLE_CHANNEL_TTY)"

definition grant_json ::
    "manager_env \<Rightarrow> bytes \<Rightarrow> connection \<Rightarrow> process_record \<Rightarrow> bytes \<Rightarrow> bytes \<Rightarrow> bytes \<Rightarrow> bytes \<Rightarrow> bytes" where
  "grant_json env manager_id conn p grant_id endpoint_uri channels_text mode =
     ''{\"grant_id\":\"'' @ grant_id @ ''\",\"manager_id\":\"'' @ manager_id
     @ ''\",\"workspace_id\":\"'' @ pr_workspace_id p @ ''\",\"process_id\":\"'' @ pr_process_id p
     @ ''\",\"client_key_id\":\"'' @ (if cn_authenticated conn then si_client_key_id (cn_session conn) else ''local-bootstrap'')
     @ ''\",\"endpoint\":{\"uri\":\"'' @ endpoint_uri @ ''\",\"server_identity\":\"local-controller\"},\"token\":\"local:''
     @ grant_id @ '':'' @ pr_process_id p @ ''\",\"issued_at_ms\":'' @ show_nat (unat (env_now_ms env))
     @ '',\"expires_at_ms\":'' @ show_nat (unat (env_now_ms env + 60000))
     @ '',\"connection_limit\":1,\"granted_channels\":\"'' @ channels_text @ ''\",\"mode\":\"'' @ mode @ ''\"}''"

definition attachment_request :: "manager_env \<Rightarrow> bytes \<Rightarrow> connection \<Rightarrow> json \<Rightarrow> manager \<Rightarrow> reply" where
  "attachment_request env manager_id conn params m =
     reply_of
       (rbind (attachment_request_checks env conn params m) (\<lambda>(p, channels, mode).
        let granted = granted_channels p channels in
        rbind (unless (granted \<noteq> 0) (denied ''no requested channels are available'')) (\<lambda>_.
        rbind (case env_hex_id env 0 of
                 Inl e \<Rightarrow> Inl (ApiError CUBICLE_ERR_INTERNAL ''failed to allocate grant id'' False (Some e))
               | Inr grant_id \<Rightarrow> Inr grant_id) (\<lambda>grant_id.
        rbind (case channel_mask_string granted 64 of
                 Inl e \<Rightarrow> Inl (ApiError CUBICLE_ERR_INTERNAL ''failed to encode channels'' False (Some e))
               | Inr channels_text \<Rightarrow> Inr channels_text) (\<lambda>channels_text.
        rbind (or_reply (too_large ''controller endpoint too long'') (fit 512 (''unix://'' @ pr_control_socket p))) (\<lambda>uri.
        rbind (or_reply (too_large ''attachment grant too large'')
          (fit 21504 (grant_json env manager_id conn p grant_id uri channels_text mode))) (\<lambda>s. Inr (ApiSuccess s))))))))"

section \<open>events.subscribe and events.list\<close>

text \<open>The workspace and the process that a request names, when it names them, must be readable.\<close>

definition events_access ::
    "manager_env \<Rightarrow> connection \<Rightarrow> manager \<Rightarrow> bytes option \<Rightarrow> bytes option \<Rightarrow> reply + bytes option" where
  "events_access env conn m wref pref =
     rbind (workspace_filter (mg_files m) wref) (\<lambda>wid.
     rbind (unless (\<forall>w \<in> set_option wid. connection_has_workspace_capability env (mg_files m) w conn CUBICLE_CAP_EVENTS_READ)
       (denied ''event access is required'')) (\<lambda>_.
     if pref = None \<or> pref = Some [] then Inr wid
     else
       rbind (the_process (mg_files m) (the pref) wid) (\<lambda>p.
       rbind (unless (connection_has_workspace_capability env (mg_files m) (pr_workspace_id p) conn CUBICLE_CAP_EVENTS_READ)
         (denied ''event access is required'')) (\<lambda>_. Inr wid))))"

definition events_params :: "json \<Rightarrow> (bytes option \<times> bytes option \<times> 64 word \<times> 64 word) checked" where
  "events_params params =
     rbind (param_optional_string params ''workspace_id'' 128) (\<lambda>wref.
     rbind (param_optional_string params ''process_id'' 128) (\<lambda>pref.
     rbind (cubicle_json_get_optional_u64 params ''after_sequence'') (\<lambda>after_sequence.
     rbind (cubicle_json_get_optional_u64 params ''limit'') (\<lambda>limit.
       Inr (wref, pref, case after_sequence of None \<Rightarrow> 0 | Some n \<Rightarrow> n, case limit of None \<Rightarrow> 100 | Some n \<Rightarrow> n)))))"

definition events_subscribe :: "manager_env \<Rightarrow> connection \<Rightarrow> json \<Rightarrow> manager \<Rightarrow> reply" where
  "events_subscribe env conn params m =
     reply_of
       (rbind (or_reply (invalid ''invalid events subscribe request'') (events_params params)) (\<lambda>(wref, pref, after_sequence, limit).
        rbind (unless (limit \<le> 1024) (invalid ''invalid events subscribe request'')) (\<lambda>_.
        rbind (events_access env conn m wref pref) (\<lambda>_.
        rbind (case env_hex_id env 0 of
                 Inl e \<Rightarrow> Inl (ApiError CUBICLE_ERR_INTERNAL ''failed to allocate subscription'' False (Some e))
               | Inr sid \<Rightarrow> Inr sid) (\<lambda>sid.
        rbind (or_reply (too_large ''subscription response too large'')
          (fit 512 (''{\"subscription_id\":\"'' @ sid @ ''\",\"after_sequence\":'' @ show_nat (unat after_sequence)
             @ '',\"limit\":'' @ show_nat (if limit = 0 then 100 else unat limit) @ ''}''))) (\<lambda>s. Inr (ApiSuccess s)))))))"

definition api_event_type_name :: "bytes \<Rightarrow> bytes" where
  "api_event_type_name payload =
     (if strstr payload ''type=process_started'' \<noteq> None then ''process_started''
      else if strstr payload ''type=process_exited'' \<noteq> None then ''process_exited''
      else if strstr payload ''type=output '' \<noteq> None then ''output_available''
      else if strstr payload ''type=client_attached'' \<noteq> None then ''client_attached''
      else if strstr payload ''type=client_detached'' \<noteq> None then ''client_detached''
      else ''process_state_changed'')"

definition event_info_json :: "nat \<Rightarrow> bytes \<Rightarrow> bytes \<Rightarrow> bytes \<Rightarrow> nat \<Rightarrow> bytes result" where
  "event_info_json global_sequence wid pid payload buffer_size =
     rbind (cubicle_json_escape 1024 (Some payload)) (\<lambda>escaped_payload.
     fit buffer_size
       (''{\"global_sequence\":'' @ show_nat global_sequence
        @ '',\"workspace_sequence\":'' @ show_int (case cubicle_parse_event_sequence payload of None \<Rightarrow> 0 | Some n \<Rightarrow> n)
        @ '',\"timestamp_ms\":0,\"type\":\"'' @ api_event_type_name payload @ ''\",\"workspace_id\":\"'' @ wid
        @ ''\",\"process_id\":\"'' @ pid @ ''\",\"payload\":\"'' @ escaped_payload @ ''\"}''))"

text \<open>\<open>strtok\<close>: the next token and what is left after the delimiter that ends it.\<close>

definition strtok :: "char list \<Rightarrow> bytes \<Rightarrow> bytes option \<times> bytes" where
  "strtok delimiters s =
     (let s' = dropWhile (\<lambda>c. c \<in> set delimiters) s in
      if s' = [] then (None, [])
      else (Some (takeWhile (\<lambda>c. c \<notin> set delimiters) s'), drop 1 (dropWhile (\<lambda>c. c \<notin> set delimiters) s')))"

text \<open>A line of \<open>workspace-events.log\<close>: workspace, process, an ignored field, and the rest.\<close>

definition event_line :: "bytes \<Rightarrow> (bytes \<times> bytes \<times> bytes) option" where
  "event_line line =
     (let (wid, r1) = strtok [TAB, NL] line; (pid, r2) = strtok [TAB, NL] r1; (_, r3) = strtok [TAB, NL] r2;
          (payload, _) = strtok [NL] r3 in
      case (wid, pid, payload) of (Some w, Some p, Some t) \<Rightarrow> Some (w, p, t) | _ \<Rightarrow> None)"

definition event_selected :: "bytes option \<Rightarrow> bytes option \<Rightarrow> bytes \<times> bytes \<times> bytes \<Rightarrow> bool" where
  "event_selected wid pref = (\<lambda>(w, p, _). (\<forall>x \<in> set_option wid. w = x) \<and> (\<forall>x \<in> set_option pref. p = x))"

fun events_loop ::
    "bytes option \<Rightarrow> bytes option \<Rightarrow> nat \<Rightarrow> nat \<Rightarrow> nat \<Rightarrow> nat \<Rightarrow> bytes \<Rightarrow> bytes list \<Rightarrow> reply + bytes \<times> nat \<times> bool" where
  "events_loop wid pref after_sequence limit sequence listed used [] = Inr (used, listed, False)"
| "events_loop wid pref after_sequence limit sequence listed used (line # ls) =
     (let sequence = sequence + 1; continue = events_loop wid pref after_sequence limit sequence listed used ls in
      if sequence \<le> after_sequence then continue
      else if limit > 0 \<and> listed \<ge> limit then Inr (used, listed, True)
      else case event_line line of
        None \<Rightarrow> continue
      | Some (w, p, payload) \<Rightarrow>
          if \<not> event_selected wid pref (w, p, payload) then continue
          else case event_info_json sequence w p payload 21504 of
            Inl _ \<Rightarrow> continue
          | Inr item \<Rightarrow>
              (let t = (if listed = 0 then [] else '','') @ item in
               if length t \<ge> 21504 - length used then
                 (if listed = 0 then Inl (too_large ''events response too large'') else Inr (used, listed, True))
               else events_loop wid pref after_sequence limit sequence (listed + 1) (used @ t) ls))"

definition event_lines :: "manager_env \<Rightarrow> bytes list" where
  "event_lines env = (case env_workspace_events env of None \<Rightarrow> [] | Some content \<Rightarrow> map cstr (fgets_lines 5496 content))"

text \<open>The process reference is compared with the process ids of the log as it was given.\<close>

definition events_list :: "manager_env \<Rightarrow> connection \<Rightarrow> json \<Rightarrow> manager \<Rightarrow> reply" where
  "events_list env conn params m =
     reply_of
       (rbind (or_reply (invalid ''invalid events list request'') (events_params params)) (\<lambda>(wref, pref, after_sequence, limit).
        rbind (events_access env conn m wref pref) (\<lambda>wid.
        rbind (events_loop wid (if pref = Some [] then None else pref) (unat after_sequence) (unat limit) 0 0
            ''{\"events\":['' (event_lines env)) (\<lambda>(used, listed, has_more).
        let ending = ''],\"count\":'' @ show_nat listed @ '',\"has_more\":'' @ bool_text has_more @ ''}'' in
        rbind (unless (length ending < 21504 - length used) (too_large ''events response too large'')) (\<lambda>_.
          Inr (ApiSuccess (used @ ending)))))))"

section \<open>manager.reconcile and manager.shutdown\<close>

definition manager_reconcile :: "manager_env \<Rightarrow> manager \<Rightarrow> reply \<times> manager" where
  "manager_reconcile env m =
     (case reconcile_process_records env m of
        (Inl e, m') \<Rightarrow> (io_failed ''failed to reconcile processes'' e, m')
      | (Inr _, m') \<Rightarrow> (ApiSuccess ''{}'', m'))"

record shutdown_target =
  st_process :: process_record
  st_terminal :: bool

text \<open>\<open>strtol\<close> of a whole text: \<open>None\<close> for what the checks after it reject.\<close>

definition process_group :: "bytes \<Rightarrow> int option" where
  "process_group s =
     (let (neg, digits) = sign_split s in
      if digits = [] \<or> \<not> list_all is_digit digits then None
      else
        let n = (if neg then - int (dec_value digits) else int (dec_value digits)) in
        if n \<le> 0 \<or> n \<ge> 2 ^ 63 then None else Some n)"

definition kill_process_group_from_metadata :: "manager_env \<Rightarrow> bytes \<Rightarrow> nat \<Rightarrow> manager \<Rightarrow> unit result \<times> manager" where
  "kill_process_group_from_metadata env pid sig m =
     (case rbind (controller_state_path env pid) (\<lambda>dir. rbind (path_of (dir @ ''/metadata'')) (\<lambda>_. read_metadata_field env pid ''pgid'' 64)) of
        Inl e \<Rightarrow> (Inl e, m)
      | Inr v \<Rightarrow>
          (case process_group v of
             None \<Rightarrow> (Inl EINVAL, m)
           | Some pgid \<Rightarrow>
               (let m' = m\<lparr>mg_killed := mg_killed m @ [(sint (word_of_int pgid :: 32 word), sig)]\<rparr> in
                case env_kill env (length (mg_killed m)) of
                  None \<Rightarrow> (Inr (), m')
                | Some e \<Rightarrow> (if e = ESRCH then Inr () else Inl e, m'))))"

definition shutdown_target_signal :: "manager_env \<Rightarrow> shutdown_target \<Rightarrow> nat \<Rightarrow> manager \<Rightarrow> unit result \<times> manager" where
  "shutdown_target_signal env t sig m =
     (case signal_controller env m (st_process t) sig of
        (Inr _, m') \<Rightarrow> (Inr (), m')
      | (Inl _, m') \<Rightarrow> kill_process_group_from_metadata env (pr_process_id (st_process t)) sig m')"

definition SHUTDOWN_TARGET_SIZE :: nat where "SHUTDOWN_TARGET_SIZE = 29136"

text \<open>The array is doubled, from 16 on, whenever it is full.\<close>

fun collect_shutdown_targets ::
    "manager_env \<Rightarrow> nat \<Rightarrow> shutdown_target list \<Rightarrow> process_record list \<Rightarrow> manager \<Rightarrow> shutdown_target list result \<times> manager" where
  "collect_shutdown_targets env capacity targets [] m = (Inr targets, m)"
| "collect_shutdown_targets env capacity targets (p # ps) m =
     (let (q, m') = refresh_observed_process_state env m p in
      if process_is_terminal_state (pr_state q) then collect_shutdown_targets env capacity targets ps m'
      else
        let new_capacity = (if length targets = capacity then (if capacity = 0 then 16 else capacity * 2) else capacity) in
        if length targets = capacity \<and> \<not> env_alloc env (of_nat (new_capacity * SHUTDOWN_TARGET_SIZE)) then (Inl ENOMEM, m')
        else collect_shutdown_targets env new_capacity (targets @ [\<lparr>st_process = q, st_terminal = False\<rparr>]) ps m')"

fun refresh_shutdown_targets :: "manager_env \<Rightarrow> shutdown_target list \<Rightarrow> manager \<Rightarrow> shutdown_target list \<times> manager" where
  "refresh_shutdown_targets env [] m = ([], m)"
| "refresh_shutdown_targets env (t # ts) m =
     (if st_terminal t then (let (ts', m') = refresh_shutdown_targets env ts m in (t # ts', m'))
      else
        let (s, m1) = process_observed_state env m (st_process t);
            t' = (if process_is_terminal_state s then \<lparr>st_process = (st_process t)\<lparr>pr_state := store 32 s\<rparr>, st_terminal = True\<rparr> else t);
            (ts', m2) = refresh_shutdown_targets env ts m1 in
        (t' # ts', m2))"

definition terminal_count :: "shutdown_target list \<Rightarrow> nat" where
  "terminal_count ts = length (filter st_terminal ts)"

text \<open>The targets are looked at every 50 ms; \<open>rounds\<close> is how often there is time for it.\<close>

fun wait_for_shutdown_targets ::
    "manager_env \<Rightarrow> nat \<Rightarrow> shutdown_target list \<Rightarrow> manager \<Rightarrow> shutdown_target list \<times> manager" where
  "wait_for_shutdown_targets env rounds ts m =
     (let (ts', m') = refresh_shutdown_targets env ts m in
      if terminal_count ts' < length ts' \<and> rounds > 0 then wait_for_shutdown_targets env (rounds - 1) ts' m' else (ts', m'))"

declare wait_for_shutdown_targets.simps [simp del]

fun signal_targets ::
    "manager_env \<Rightarrow> nat \<Rightarrow> bool \<Rightarrow> shutdown_target list \<Rightarrow> manager \<Rightarrow> nat \<times> manager" where
  "signal_targets env sig alive_only [] m = (0, m)"
| "signal_targets env sig alive_only (t # ts) m =
     (if alive_only \<and> st_terminal t then signal_targets env sig alive_only ts m
      else
        let (r, m1) = shutdown_target_signal env t sig m; (n, m2) = signal_targets env sig alive_only ts m1 in
        (case r of Inl _ \<Rightarrow> Suc n | Inr _ \<Rightarrow> n, m2))"

text \<open>The numbers of targets, of those stopped and of the failures.\<close>

definition stop_managed_processes_for_shutdown :: "manager_env \<Rightarrow> manager \<Rightarrow> (nat \<times> nat \<times> nat) result \<times> manager" where
  "stop_managed_processes_for_shutdown env m =
     (case collect_shutdown_targets env 0 [] (process_records (processes_tsv (mg_files m))) m of
        (Inl e, m') \<Rightarrow> (Inl e, m')
      | (Inr ts, m1) \<Rightarrow>
          (let (failed1, m2) = signal_targets env SIGTERM False ts m1;
               (ts1, m3) = wait_for_shutdown_targets env 40 ts m2;
               (failed2, ts2, m4) =
                 (if terminal_count ts1 < length ts1 then
                    (let (f, n1) = signal_targets env SIGKILL True ts1 m3; (us, n2) = wait_for_shutdown_targets env 40 ts1 n1
                     in (f, us, n2))
                  else (0, ts1, m3));
               stopped = terminal_count ts2 in
           (Inr (length ts, stopped, failed1 + failed2 + (length ts - stopped)), snd (reconcile_process_records env m4))))"

definition manager_shutdown :: "manager_env \<Rightarrow> json \<Rightarrow> manager \<Rightarrow> reply \<times> manager" where
  "manager_shutdown env params m =
     (case or_reply (invalid ''invalid shutdown request'') (cubicle_json_get_optional_bool params ''stop_managed_processes'') of
        Inl r \<Rightarrow> (r, m)
      | Inr stop \<Rightarrow>
          (let wanted = (stop = Some True) in
           case (if wanted then stop_managed_processes_for_shutdown env m else (Inr (0, 0, 0), m)) of
             (Inl e, m') \<Rightarrow> (io_failed ''failed to stop managed processes'' e, m')
           | (Inr (targets, stopped, failed), m') \<Rightarrow>
               (case fit 160 (''{\"stop_managed_processes\":'' @ bool_text wanted @ '',\"target_count\":'' @ show_nat targets
                      @ '',\"stopped_count\":'' @ show_nat stopped @ '',\"failed_count\":'' @ show_nat failed @ ''}'') of
                  Inl e \<Rightarrow> ApiError CUBICLE_ERR_INTERNAL ''failed to encode shutdown result'' False (Some errno_unset)
                | Inr s \<Rightarrow> ApiSuccess s, m'\<lparr>mg_shutdown := True\<rparr>)))"

section \<open>What an attachment may do\<close>

definition proxy_request :: "bytes \<Rightarrow> bytes \<Rightarrow> bytes \<Rightarrow> json \<Rightarrow> json" where
  "proxy_request pref grant_id meth controller_params =
     JObj [(''process_id'', JStr pref), (''grant_id'', JStr grant_id), (''token'', JStr (''local:'' @ grant_id @ '':'' @ pref)),
       (''channels'', JUint CUBICLE_CHANNEL_STDOUT), (''mode'', JStr ''observer''), (''method'', JStr meth),
       (''params'', controller_params)]"

text \<open>
  The capability that \<open>attachment.proxy\<close> asks for depends on the mode and the channels of the request,
  not on the method, and any grant id is good: a client that may only observe a process can
  have \<open>controller.write\<close> sent to its controller without a grant for it.
\<close>

lemma observer_may_write:
  assumes "is_cstr pref" "length pref < 128" "is_cstr grant_id" "length grant_id < 33"
    and "the_process (mg_files m) pref None = Inr p"
    and "connection_has_workspace_capability env (mg_files m) (pr_workspace_id p) conn CUBICLE_CAP_PROCESS_OBSERVE"
  shows "proxy_checks env conn (proxy_request pref grant_id ''controller.write'' (JObj ms)) m
    = Inr (p, ''controller.write'', JObj ms)"
proof -
  let ?r = "proxy_request pref grant_id ''controller.write'' (JObj ms)"
  have t: "is_cstr (''local:'' @ grant_id @ '':'' @ pref)" using assms(1,3) by (simp add: is_cstr_def)
  have "param_string ?r ''process_id'' 128 = Inr pref" "param_string ?r ''grant_id'' 33 = Inr grant_id"
    "param_string ?r ''token'' 512 = Inr (''local:'' @ grant_id @ '':'' @ pref)"
    "cubicle_json_get_required_u64 ?r ''channels'' = Inr CUBICLE_CHANNEL_STDOUT"
    "param_string ?r ''mode'' 32 = Inr ''observer''" "param_string ?r ''method'' 128 = Inr ''controller.write''"
    "cubicle_json_get_required_object ?r ''params'' = Inr (JObj ms)"
    using assms(1-4) t cstr_id [OF assms(1)] cstr_id [OF assms(3)] cstr_id [OF t]
    by (simp_all add: proxy_request_def param_string_def cubicle_json_get_required_string_def required_field_def
        find_object_member_def checked_string_def cubicle_json_get_required_u64_def cubicle_json_get_required_object_def cstr_def)
  moreover have "channels_valid CUBICLE_CHANNEL_STDOUT" by (simp add: channels_valid_def all_channels_def channel_defs)
  moreover have "attachment_capability ''observer'' CUBICLE_CHANNEL_STDOUT = CUBICLE_CAP_PROCESS_OBSERVE"
    by (simp add: attachment_capability_def channel_defs)
  ultimately show ?thesis
    using assms by (simp add: proxy_checks_def attachment_mode_valid_def attachment_methods_def fit_def unless_def)
qed

end
