(* ===== verification/Manager_Session.thy ===== *)
theory Manager_Session
  imports Manager_Access
begin

text \<open>
  Sessions of the manager (\<open>src/src/manager/main.c\<close>, lines 4639 to 5342): the table of sessions,
  the challenge that a client signs with its key, resuming a session with its secret, and
  the requests that only report on the manager. Signatures, HMAC and random bytes come from
  the environment.
\<close>

unbundle bit_operations_syntax

section \<open>The table of sessions\<close>

definition CUBICLE_MANAGER_MAX_SESSIONS :: nat where
  "CUBICLE_MANAGER_MAX_SESSIONS = 128"

definition empty_session :: session_info where
  "empty_session = \<lparr>si_session_id = [], si_manager_id = [], si_client_key_id = [], si_protocol_major = 0,
     si_protocol_minor = 0, si_negotiated_capabilities = 0, si_authenticated_at_ms = 0, si_expires_at_ms = 0\<rparr>"

definition empty_record :: session_record where
  "empty_record = \<lparr>sr_active = False, sr_session = empty_session, sr_resume_secret = replicate 32 NUL,
     sr_peer_uid = 0, sr_peer_gid = 0, sr_manager_generation = 0, sr_client_public_key_hex = []\<rparr>"

definition session_matches :: "bytes \<Rightarrow> session_record \<Rightarrow> bool" where
  "session_matches sid r \<longleftrightarrow> sr_active r \<and> si_session_id (sr_session r) = sid"

definition find_session_unlocked :: "session_record list \<Rightarrow> bytes \<Rightarrow> session_record option" where
  "find_session_unlocked tbl sid = (if sid = [] then None else find (session_matches sid) tbl)"

definition active_session_count_unlocked :: "session_record list \<Rightarrow> nat" where
  "active_session_count_unlocked tbl = length (filter sr_active tbl)"

text \<open>The position of the first record with a property, and of the first oldest record.\<close>

fun index_of :: "('a \<Rightarrow> bool) \<Rightarrow> 'a list \<Rightarrow> nat option" where
  "index_of P [] = None"
| "index_of P (x # xs) = (if P x then Some 0 else map_option Suc (index_of P xs))"

fun oldest_from :: "session_record list \<Rightarrow> nat \<Rightarrow> nat \<Rightarrow> 64 word \<Rightarrow> nat" where
  "oldest_from [] i best t = best"
| "oldest_from (r # rs) i best t =
     (if si_authenticated_at_ms (sr_session r) < t then oldest_from rs (Suc i) i (si_authenticated_at_ms (sr_session r))
      else oldest_from rs (Suc i) best t)"

definition session_slot :: "session_record list \<Rightarrow> bytes \<Rightarrow> nat" where
  "session_slot tbl sid =
     (case (if sid = [] then None else index_of (session_matches sid) tbl) of
        Some i \<Rightarrow> i
      | None \<Rightarrow>
          (case index_of (\<lambda>r. \<not> sr_active r) tbl of
             Some i \<Rightarrow> i
           | None \<Rightarrow> oldest_from (tl tbl) 1 0 (si_authenticated_at_ms (sr_session (hd tbl)))))"

definition save_session_unlocked ::
    "session_record list \<Rightarrow> connection \<Rightarrow> 64 word \<Rightarrow> session_record list result" where
  "save_session_unlocked tbl conn generation =
     (if \<not> cn_authenticated conn then Inl EINVAL
      else Inr (tbl[session_slot tbl (si_session_id (cn_session conn)) :=
        \<lparr>sr_active = True, sr_session = cn_session conn, sr_resume_secret = cn_resume_secret conn,
         sr_peer_uid = cn_peer_uid conn, sr_peer_gid = cn_peer_gid conn, sr_manager_generation = generation,
         sr_client_public_key_hex = Registry.store 65 (cn_client_public_key_hex conn)\<rparr>]))"


section \<open>Creating a session\<close>

definition CUBICLE_API_CAPABILITIES :: "64 word" where
  "CUBICLE_API_CAPABILITIES = 2 OR 256 OR 512 OR 65536"

definition CUBICLE_PROTOCOL_CAP_AUTH_ED25519 :: "64 word" where
  "CUBICLE_PROTOCOL_CAP_AUTH_ED25519 = 1"

text \<open>
  The connection after the call, and whether it succeeded. A call that fails half-way leaves
  the fields it has already written.
\<close>

definition create_authenticated_session :: "manager_env \<Rightarrow> connection \<Rightarrow> bytes \<Rightarrow> unit result \<times> connection" where
  "create_authenticated_session env conn public_key =
     (let conn0 = conn\<lparr>cn_session := empty_session\<rparr> in
      case env_hex_id env 0 of
        Inl e \<Rightarrow> (Inl e, conn0)
      | Inr sid \<Rightarrow>
          (let conn1 = conn0\<lparr>cn_session := empty_session\<lparr>si_session_id := sid\<rparr>\<rparr> in
           case cubicle_auth_key_fingerprint (env_sha256 env) public_key of
             Inl e \<Rightarrow> (Inl e, conn1)
           | Inr (key_id, fingerprint) \<Rightarrow>
               (let conn2 = conn1\<lparr>cn_session := (cn_session conn1)\<lparr>si_client_key_id := key_id\<rparr>\<rparr> in
                case env_random env 0 32 of
                  Inl e \<Rightarrow> (Inl e, conn2)
                | Inr secret \<Rightarrow>
                    (let conn3 = conn2\<lparr>cn_resume_secret := secret,
                           cn_session := (cn_session conn2)\<lparr>si_manager_id := Registry.store 33 (env_identity_key_id env),
                             si_protocol_major := CUBICLE_PROTOCOL_MAJOR, si_protocol_minor := CUBICLE_PROTOCOL_MINOR,
                             si_negotiated_capabilities := CUBICLE_API_CAPABILITIES OR CUBICLE_PROTOCOL_CAP_AUTH_ED25519,
                             si_authenticated_at_ms := env_now_ms env,
                             si_expires_at_ms := env_now_ms env + 12 * 60 * 60 * 1000\<rparr>,
                           cn_authenticated := True\<rparr> in
                     case cubicle_auth_hex_encode public_key 65 of
                       Inl e \<Rightarrow> (Inl e, conn3)
                     | Inr hex \<Rightarrow> (Inr (), conn3\<lparr>cn_client_public_key_hex := hex\<rparr>)))))"

definition session_info_json :: "manager_env \<Rightarrow> session_info \<Rightarrow> bytes option \<Rightarrow> nat \<Rightarrow> bytes result" where
  "session_info_json env s secret n =
     rbind (case secret of
              None \<Rightarrow> Inr []
            | Some k \<Rightarrow>
                rbind (cubicle_auth_hex_encode k 65) (\<lambda>hex. fit 96 ('',\"resume_secret\":\"'' @ hex @ ''\"'')))
       (\<lambda>field.
         fit n
           (''{\"session_id\":\"'' @ si_session_id s @ ''\",\"manager_id\":\"'' @ si_manager_id s
            @ ''\",\"client_key_id\":\"'' @ si_client_key_id s
            @ ''\",\"protocol_major\":'' @ show_nat (unat (si_protocol_major s))
            @ '',\"protocol_minor\":'' @ show_nat (unat (si_protocol_minor s))
            @ '',\"negotiated_capabilities\":'' @ show_nat (unat (si_negotiated_capabilities s))
            @ '',\"authenticated_at_ms\":'' @ show_nat (unat (si_authenticated_at_ms s))
            @ '',\"expires_at_ms\":'' @ show_nat (unat (si_expires_at_ms s))
            @ '',\"manager_public_key\":\"'' @ env_identity_public_key_hex env @ ''\"'' @ field @ ''}''))"

section \<open>Requests\<close>

text \<open>The user and group a connection is bound to.\<close>

definition bound_uid :: "connection \<Rightarrow> 32 word" where
  "bound_uid conn = (if cn_has_peer_credentials conn then cn_peer_uid conn else 0)"

definition bound_gid :: "connection \<Rightarrow> 32 word" where
  "bound_gid conn = (if cn_has_peer_credentials conn then cn_peer_gid conn else 0)"

definition challenge_transcript :: "manager_env \<Rightarrow> connection \<Rightarrow> json \<Rightarrow> reply + auth_transcript" where
  "challenge_transcript env conn params =
     rbind (unless (cn_has_peer_credentials conn \<or> cn_is_tls conn)
       (ApiError CUBICLE_ERR_UNSUPPORTED ''authenticated bootstrap requires Unix peer credentials'' False None)) (\<lambda>_.
     rbind (or_reply (invalid ''invalid auth challenge request'')
       (rbind (param_string params ''client_public_key'' 65) (\<lambda>key.
        rbind (param_string params ''client_nonce'' 65) (\<lambda>nonce.
        rbind (param_optional_string params ''workspace'' 256) (\<lambda>wref.
          Inr (key, nonce, wref)))))) (\<lambda>(key, nonce, wref).
     or_reply (invalid ''invalid auth challenge material'')
       (rbind (cubicle_auth_hex_decode key 32) (\<lambda>client_key.
        rbind (cubicle_auth_hex_decode nonce 32) (\<lambda>client_nonce.
        rbind (env_random env 0 32) (\<lambda>manager_nonce.
        rbind (env_random env 1 16) (\<lambda>connection_id.
          Inr \<lparr>tr_protocol_major = CUBICLE_PROTOCOL_MAJOR, tr_protocol_minor = CUBICLE_PROTOCOL_MINOR,
               tr_manager_public_key = env_identity_public_key env, tr_client_public_key = client_key,
               tr_client_nonce = client_nonce, tr_manager_nonce = manager_nonce, tr_connection_id = connection_id,
               tr_capabilities = CUBICLE_API_CAPABILITIES OR CUBICLE_PROTOCOL_CAP_AUTH_ED25519,
               tr_manager_generation = env_started_at_ms env, tr_peer_uid = bound_uid conn, tr_peer_gid = bound_gid conn,
               tr_workspace_ref = (case wref of None \<Rightarrow> [] | Some w \<Rightarrow> Registry.store 256 w)\<rparr>)))))))"

definition auth_challenge :: "manager_env \<Rightarrow> connection \<Rightarrow> json \<Rightarrow> reply \<times> connection" where
  "auth_challenge env conn params =
     (case challenge_transcript env conn params of
        Inl r \<Rightarrow> (r, conn)
      | Inr t \<Rightarrow>
          (case
             rbind (cubicle_auth_hex_encode (tr_manager_nonce t) 65) (\<lambda>nonce.
             rbind (cubicle_auth_hex_encode (tr_connection_id t) 33) (\<lambda>cid. Inr (nonce, cid)))
           of
             Inl e \<Rightarrow> ApiError CUBICLE_ERR_INTERNAL ''failed to encode auth challenge'' False (Some e)
           | Inr (nonce, cid) \<Rightarrow>
               (case fit 21504
                  (''{\"manager_id\":\"'' @ env_identity_key_id env
                   @ ''\",\"manager_public_key\":\"'' @ env_identity_public_key_hex env
                   @ ''\",\"manager_nonce\":\"'' @ nonce @ ''\",\"connection_id\":\"'' @ cid
                   @ ''\",\"protocol_major\":'' @ show_nat (unat CUBICLE_PROTOCOL_MAJOR)
                   @ '',\"protocol_minor\":'' @ show_nat (unat CUBICLE_PROTOCOL_MINOR)
                   @ '',\"capabilities\":'' @ show_nat (unat (tr_capabilities t))
                   @ '',\"manager_generation\":'' @ show_nat (unat (tr_manager_generation t))
                   @ '',\"peer_uid\":'' @ show_nat (unat (tr_peer_uid t))
                   @ '',\"peer_gid\":'' @ show_nat (unat (tr_peer_gid t)) @ ''}'') of
                  Inl _ \<Rightarrow> ApiClose
                | Inr s \<Rightarrow> ApiSuccess s),
           conn\<lparr>cn_pending_auth := Some t\<rparr>))"

definition signature_valid :: "manager_env \<Rightarrow> auth_transcript \<Rightarrow> bytes \<Rightarrow> bool" where
  "signature_valid env t signature_hex =
     (case
        rbind (cubicle_auth_hex_decode signature_hex 64) (\<lambda>signature.
        rbind (cubicle_auth_encode_transcript t 512) (\<lambda>msg. Inr (signature, msg)))
      of
        Inl _ \<Rightarrow> False
      | Inr (signature, msg) \<Rightarrow> env_verify env (tr_client_public_key t) msg signature)"

definition auth_authenticate ::
    "manager_env \<Rightarrow> connection \<Rightarrow> json \<Rightarrow> session_record list \<Rightarrow> reply \<times> connection \<times> session_record list" where
  "auth_authenticate env conn params sessions =
     (case cn_pending_auth conn of
        None \<Rightarrow> (ApiError CUBICLE_ERR_INVALID_STATE ''auth challenge is required'' False None, conn, sessions)
      | Some t \<Rightarrow>
          (case param_string params ''signature'' 129 of
             Inl _ \<Rightarrow> (invalid ''missing auth signature'', conn, sessions)
           | Inr signature \<Rightarrow>
               if \<not> signature_valid env t signature
               then (denied ''invalid auth signature'', conn\<lparr>cn_pending_auth := None\<rparr>, sessions)
               else
                 (case create_authenticated_session env conn (tr_client_public_key t) of
                    (Inl e, conn') \<Rightarrow>
                      (ApiError CUBICLE_ERR_INTERNAL ''failed to create session'' False (Some e), conn', sessions)
                  | (Inr _, conn') \<Rightarrow>
                      (case save_session_unlocked sessions conn' (env_started_at_ms env) of
                         Inl e \<Rightarrow>
                           (ApiError CUBICLE_ERR_RESOURCE_LIMIT ''failed to save session'' False (Some e), conn', sessions)
                       | Inr sessions' \<Rightarrow>
                           (case session_info_json env (cn_session conn') (Some (cn_resume_secret conn')) 21504 of
                              Inl e \<Rightarrow> ApiError CUBICLE_ERR_INTERNAL ''failed to encode session'' False (Some e)
                            | Inr s \<Rightarrow> ApiSuccess s,
                            conn'\<lparr>cn_pending_auth := None\<rparr>, sessions')))))"

text \<open>The message that the authenticator of a resume request covers; the server's nonce is 0.\<close>

definition resume_message :: "manager_env \<Rightarrow> connection \<Rightarrow> bytes \<Rightarrow> bytes \<Rightarrow> bytes \<Rightarrow> auth_resume" where
  "resume_message env conn sid client_nonce connection_id =
     \<lparr>rs_manager_key_id = Registry.store 33 (env_identity_key_id env), rs_session_id = Registry.store 33 sid,
      rs_client_nonce = client_nonce, rs_server_nonce = replicate 32 NUL, rs_connection_id = connection_id,
      rs_manager_generation = env_started_at_ms env, rs_peer_uid = bound_uid conn, rs_peer_gid = bound_gid conn\<rparr>"

definition session_resumable :: "manager_env \<Rightarrow> connection \<Rightarrow> session_record \<Rightarrow> bool" where
  "session_resumable env conn r \<longleftrightarrow>
     sr_manager_generation r = env_started_at_ms env
     \<and> sr_peer_uid r = bound_uid conn \<and> sr_peer_gid r = bound_gid conn
     \<and> \<not> (si_expires_at_ms (sr_session r) > 0 \<and> si_expires_at_ms (sr_session r) < env_now_ms env)"

definition resume_authentic :: "manager_env \<Rightarrow> session_record \<Rightarrow> auth_resume \<Rightarrow> bytes \<Rightarrow> bool" where
  "resume_authentic env r msg authenticator_hex =
     (case
        rbind (cubicle_auth_encode_resume msg 512) (\<lambda>bs.
        rbind (env_hmac env (sr_resume_secret r) bs) (\<lambda>expected.
        rbind (cubicle_auth_hex_decode authenticator_hex 32) (\<lambda>received. Inr (expected, received))))
      of
        Inl _ \<Rightarrow> False
      | Inr (expected, received) \<Rightarrow> expected = received)"

text \<open>The checks of \<open>auth.resume\<close>, up to the record whose session is resumed.\<close>

definition resume_checks ::
    "manager_env \<Rightarrow> connection \<Rightarrow> json \<Rightarrow> session_record list \<Rightarrow> reply + session_record" where
  "resume_checks env conn params sessions =
     rbind (unless (cn_has_peer_credentials conn \<or> cn_is_tls conn)
       (ApiError CUBICLE_ERR_UNSUPPORTED ''session resume requires Unix peer credentials'' False None)) (\<lambda>_.
     rbind (or_reply (invalid ''invalid session resume request'')
       (rbind (param_string params ''session_id'' 33) (\<lambda>sid.
        rbind (param_string params ''client_nonce'' 65) (\<lambda>nonce.
        rbind (param_string params ''connection_id'' 33) (\<lambda>cid.
        rbind (param_string params ''authenticator'' 65) (\<lambda>authenticator.
          Inr (sid, nonce, cid, authenticator))))))) (\<lambda>(sid, nonce, cid, authenticator).
     rbind (case find_session_unlocked sessions sid of
              None \<Rightarrow> Inl (ApiError CUBICLE_ERR_SESSION_EXPIRED ''session cannot be resumed'' False None)
            | Some r \<Rightarrow>
                if session_resumable env conn r then Inr r
                else Inl (ApiError CUBICLE_ERR_SESSION_EXPIRED ''session cannot be resumed'' False None)) (\<lambda>r.
     rbind (or_reply (invalid ''invalid session resume material'')
       (rbind (cubicle_auth_hex_decode nonce 32) (\<lambda>client_nonce.
        rbind (cubicle_auth_hex_decode cid 16) (\<lambda>connection_id. Inr (client_nonce, connection_id)))))
       (\<lambda>(client_nonce, connection_id).
     if resume_authentic env r (resume_message env conn sid client_nonce connection_id) authenticator then Inr r
     else Inl (ApiError CUBICLE_ERR_AUTHENTICATION_FAILED ''invalid session resume authenticator'' False None)))))"

definition resumed_connection :: "connection \<Rightarrow> session_record \<Rightarrow> connection" where
  "resumed_connection conn r =
     conn\<lparr>cn_authenticated := True, cn_session := sr_session r, cn_resume_secret := sr_resume_secret r,
          cn_client_public_key_hex := Registry.store 65 (sr_client_public_key_hex r)\<rparr>"

definition auth_resume_request ::
    "manager_env \<Rightarrow> connection \<Rightarrow> json \<Rightarrow> session_record list \<Rightarrow> reply \<times> connection" where
  "auth_resume_request env conn params sessions =
     (case resume_checks env conn params sessions of
        Inl r \<Rightarrow> (r, conn)
      | Inr r \<Rightarrow>
          (case rbind (env_random env 0 32) (\<lambda>nonce. cubicle_auth_hex_encode nonce 65) of
             Inl e \<Rightarrow> ApiError CUBICLE_ERR_INTERNAL ''failed to create resume response'' False (Some e)
           | Inr nonce \<Rightarrow>
               (case session_info_json env (sr_session r) None 2048 of
                  Inl e \<Rightarrow> ApiError CUBICLE_ERR_INTERNAL ''failed to encode resumed session'' False (Some e)
                | Inr s \<Rightarrow>
                    if s = [] \<or> last s \<noteq> CHR ''}'' then ApiClose
                    else (case fit 2300 (butlast s @ '',\"server_nonce\":\"'' @ nonce @ ''\"}'') of
                            Inl _ \<Rightarrow> too_large ''session resume response too large''
                          | Inr result \<Rightarrow> ApiSuccess result)),
           resumed_connection conn r))"

definition session_local_bootstrap :: "manager_env \<Rightarrow> bytes \<Rightarrow> connection \<Rightarrow> reply" where
  "session_local_bootstrap env manager_id conn =
     (if cn_authenticated conn then
        (case session_info_json env (cn_session conn) None 1024 of Inl _ \<Rightarrow> ApiClose | Inr s \<Rightarrow> ApiSuccess s)
      else
        (case fit 1024
           (''{\"session_id\":\"local-session\",\"manager_id\":\"'' @ manager_id
            @ ''\",\"client_key_id\":\"local-bootstrap\",\"protocol_major\":'' @ show_nat (unat CUBICLE_PROTOCOL_MAJOR)
            @ '',\"protocol_minor\":'' @ show_nat (unat CUBICLE_PROTOCOL_MINOR)
            @ '',\"negotiated_capabilities\":'' @ show_nat (unat CUBICLE_API_CAPABILITIES)
            @ '',\"authenticated_at_ms\":'' @ show_nat (unat (env_now_ms env))
            @ '',\"expires_at_ms\":0,\"manager_public_key\":\"'' @ env_identity_public_key_hex env @ ''\"}'') of
           Inl _ \<Rightarrow> ApiClose | Inr s \<Rightarrow> ApiSuccess s))"

definition manager_ping :: "manager_env \<Rightarrow> bytes \<Rightarrow> reply" where
  "manager_ping env manager_id =
     (case fit 512
        (''{\"manager_id\":\"'' @ manager_id @ ''\",\"protocol_major\":'' @ show_nat (unat CUBICLE_PROTOCOL_MAJOR)
         @ '',\"protocol_minor\":'' @ show_nat (unat CUBICLE_PROTOCOL_MINOR)
         @ '',\"server_time_ms\":'' @ show_nat (unat (env_now_ms env))
         @ '',\"uptime_ms\":'' @ show_nat (unat (env_now_ms env - env_started_at_ms env)) @ ''}'') of
        Inl _ \<Rightarrow> ApiClose | Inr s \<Rightarrow> ApiSuccess s)"

definition manager_status :: "manager_env \<Rightarrow> bytes \<Rightarrow> manager \<Rightarrow> reply" where
  "manager_status env manager_id m =
     (case fit 1024
        (''{\"manager_id\":\"'' @ manager_id @ ''\",\"protocol_major\":'' @ show_nat (unat CUBICLE_PROTOCOL_MAJOR)
         @ '',\"protocol_minor\":'' @ show_nat (unat CUBICLE_PROTOCOL_MINOR)
         @ '',\"capabilities\":'' @ show_nat (unat CUBICLE_API_CAPABILITIES)
         @ '',\"started_at_ms\":'' @ show_nat (unat (env_started_at_ms env))
         @ '',\"server_time_ms\":'' @ show_nat (unat (env_now_ms env))
         @ '',\"workspace_count\":'' @ show_nat (count_workspaces (mg_files m))
         @ '',\"process_count\":'' @ show_nat (count_processes (mg_files m))
         @ '',\"controller_count\":'' @ show_nat (count_processes (mg_files m))
         @ '',\"active_client_sessions\":'' @ show_nat (active_session_count_unlocked (mg_sessions m)) @ ''}'') of
        Inl _ \<Rightarrow> ApiClose | Inr s \<Rightarrow> ApiSuccess s)"

section \<open>Saving a session\<close>

definition sessions_ok :: "session_record list \<Rightarrow> bool" where
  "sessions_ok tbl \<longleftrightarrow> length tbl = CUBICLE_MANAGER_MAX_SESSIONS
     \<and> (\<forall>i < length tbl. \<forall>j < length tbl. sr_active (tbl ! i) \<longrightarrow> sr_active (tbl ! j) \<longrightarrow>
          si_session_id (sr_session (tbl ! i)) = si_session_id (sr_session (tbl ! j)) \<longrightarrow> i = j)"

lemma index_of_Some: "index_of P xs = Some i \<Longrightarrow> i < length xs \<and> P (xs ! i)"
  by (induction xs arbitrary: i) (auto split: if_splits)

lemma index_of_None: "index_of P xs = None \<longleftrightarrow> (\<forall>x \<in> set xs. \<not> P x)"
  by (induction xs) auto

lemma find_nth: "find P xs = Some x \<Longrightarrow> \<exists>i < length xs. xs ! i = x \<and> P x"
  using find_Some in_set_conv_nth by metis

lemma find_unique:
  assumes "i < length xs" "P (xs ! i)" "\<And>j. j < length xs \<Longrightarrow> P (xs ! j) \<Longrightarrow> j = i"
  shows "find P xs = Some (xs ! i)"
proof (cases "find P xs")
  case None
  then show ?thesis using assms(1,2) by (metis find_None nth_mem)
next
  case (Some x)
  then show ?thesis using find_nth [OF Some] assms(3) by auto
qed

text \<open>The oldest record: \<open>best\<close> is the oldest of those before \<open>i\<close>.\<close>

lemma oldest_from_bound: "best < i \<Longrightarrow> oldest_from rs i best t < i + length rs"
proof (induction rs arbitrary: i best t)
  case (Cons r rs)
  then show ?case
    using Cons.IH [of i "Suc i"] Cons.IH [of best "Suc i" t] by simp
qed simp

lemma oldest_from_min:
  assumes "best < i" "\<And>j. j < i \<Longrightarrow> age best \<le> age j" "age best = t"
    and "\<And>j. j < length rs \<Longrightarrow> age (i + j) = si_authenticated_at_ms (sr_session (rs ! j))"
  shows "\<forall>j < i + length rs. age (oldest_from rs i best t) \<le> age j"
  using assms
proof (induction rs arbitrary: i best t)
  case (Cons r rs)
  have r: "age i = si_authenticated_at_ms (sr_session r)" using Cons.prems(4) [of 0] by simp
  have rest: "\<And>j. j < length rs \<Longrightarrow> age (Suc i + j) = si_authenticated_at_ms (sr_session (rs ! j))"
    using Cons.prems(4) [of "Suc j" for j] by simp
  show ?case
  proof (cases "age i < t")
    case True
    have "\<And>j. j < Suc i \<Longrightarrow> age i \<le> age j"
      using True Cons.prems(2,3) by (metis less_Suc_eq less_imp_le order_refl order_trans)
    then show ?thesis
      using Cons.IH [of i "Suc i" "age i"] rest True r by simp
  next
    case False
    then have "\<And>j. j < Suc i \<Longrightarrow> age best \<le> age j"
      using Cons.prems(2,3) by (metis less_Suc_eq linorder_not_less)
    then show ?thesis
      using Cons.IH [of best "Suc i" t] rest False r Cons.prems(1,3) by simp
  qed
qed simp

lemma session_slot_bound: "tbl \<noteq> [] \<Longrightarrow> session_slot tbl sid < length tbl"
proof -
  assume "tbl \<noteq> []"
  then have "oldest_from (tl tbl) 1 0 t < length tbl" for t
    using oldest_from_bound [of 0 1 "tl tbl" t] by (cases tbl) simp_all
  then show ?thesis
    using index_of_Some [of "session_matches sid" tbl] index_of_Some [of "\<lambda>r. \<not> sr_active r" tbl]
    by (auto simp: session_slot_def split: option.splits)
qed

text \<open>A slot holds the session itself, is free, or is the oldest of a full table.\<close>

lemma session_slot_cases:
  assumes "tbl \<noteq> []" "sid \<noteq> []"
  shows "session_matches sid (tbl ! session_slot tbl sid)
    \<or> (find_session_unlocked tbl sid = None \<and> \<not> sr_active (tbl ! session_slot tbl sid))
    \<or> (find_session_unlocked tbl sid = None \<and> (\<forall>q \<in> set tbl. sr_active q \<and>
        si_authenticated_at_ms (sr_session (tbl ! session_slot tbl sid)) \<le> si_authenticated_at_ms (sr_session q)))"
proof (cases "index_of (session_matches sid) tbl")
  case (Some i)
  then show ?thesis using assms index_of_Some [OF Some] by (simp add: session_slot_def)
next
  case None
  then have none: "find_session_unlocked tbl sid = None"
    by (simp add: find_session_unlocked_def find_None index_of_None)
  show ?thesis
  proof (cases "index_of (\<lambda>r. \<not> sr_active r) tbl")
    case (Some i)
    then show ?thesis using none None assms index_of_Some [OF Some] by (simp add: session_slot_def)
  next
    case full: None
    let ?age = "\<lambda>j. si_authenticated_at_ms (sr_session (tbl ! j))"
    have slot: "session_slot tbl sid = oldest_from (tl tbl) 1 0 (?age 0)"
      using None full assms by (simp add: session_slot_def hd_conv_nth)
    have "\<forall>j < 1 + length (tl tbl). ?age (oldest_from (tl tbl) 1 0 (?age 0)) \<le> ?age j"
      by (rule oldest_from_min) (auto simp: nth_tl)
    then have "\<forall>q \<in> set tbl. ?age (session_slot tbl sid) \<le> si_authenticated_at_ms (sr_session q)"
      using assms(1) by (auto simp: slot in_set_conv_nth)
    then show ?thesis using none full by (auto simp: index_of_None)
  qed
qed

lemma find_session_update:
  assumes "sessions_ok tbl" "i < length tbl" "sr_active new" "si_session_id (sr_session new) = sid" "sid \<noteq> []"
    and "session_matches sid (tbl ! i) \<or> find_session_unlocked tbl sid = None"
  shows "sessions_ok (tbl[i := new])" "find_session_unlocked (tbl[i := new]) sid = Some new"
    "s \<noteq> sid \<Longrightarrow> \<not> session_matches s (tbl ! i) \<Longrightarrow> find_session_unlocked (tbl[i := new]) s = find_session_unlocked tbl s"
    "s \<noteq> sid \<Longrightarrow> session_matches s (tbl ! i) \<Longrightarrow> s \<noteq> [] \<Longrightarrow>
       find_session_unlocked (tbl[i := new]) s = None \<and> find_session_unlocked tbl s = Some (tbl ! i)"
proof -
  have other: "\<not> session_matches sid (tbl ! j)" if "j < length tbl" "j \<noteq> i" for j
  proof (cases "session_matches sid (tbl ! i)")
    case True
    then show ?thesis using assms(1,2) that by (auto simp: sessions_ok_def session_matches_def)
  next
    case False
    then show ?thesis using assms(5,6) that by (auto simp: find_session_unlocked_def find_None)
  qed
  show "sessions_ok (tbl[i := new])"
    unfolding sessions_ok_def
  proof (intro conjI allI impI)
    fix a b
    assume ab: "a < length (tbl[i := new])" "b < length (tbl[i := new])" "sr_active (tbl[i := new] ! a)"
      "sr_active (tbl[i := new] ! b)"
      "si_session_id (sr_session (tbl[i := new] ! a)) = si_session_id (sr_session (tbl[i := new] ! b))"
    then show "a = b"
      using assms(1-4) other [of a] other [of b]
      by (cases "a = i"; cases "b = i") (auto simp: session_matches_def sessions_ok_def)
  qed (use assms(1) in \<open>simp add: sessions_ok_def\<close>)
  have "find (session_matches sid) (tbl[i := new]) = Some (tbl[i := new] ! i)"
    using assms(2-4) other
    by (intro find_unique) (auto simp: session_matches_def nth_list_update split: if_splits)
  then show "find_session_unlocked (tbl[i := new]) sid = Some new"
    using assms(2,5) by (simp add: find_session_unlocked_def)
  have new: "s \<noteq> sid \<Longrightarrow> \<not> session_matches s new" for s
    using assms(4) by (auto simp: session_matches_def)
  have upd: "find P (tbl[i := new]) = find P tbl" if "\<not> P new" "\<not> P (tbl ! i)" for P
    using that assms(2) by (induction tbl arbitrary: i) (auto split: nat.split)
  show "s \<noteq> sid \<Longrightarrow> \<not> session_matches s (tbl ! i) \<Longrightarrow> find_session_unlocked (tbl[i := new]) s = find_session_unlocked tbl s"
    using upd new by (simp add: find_session_unlocked_def)
  assume s: "s \<noteq> sid" "session_matches s (tbl ! i)" "s \<noteq> []"
  have uniq: "j < length tbl \<Longrightarrow> session_matches s (tbl ! j) \<Longrightarrow> j = i" for j
    using s(2) assms(1,2) by (auto simp: sessions_ok_def session_matches_def)
  have "find (session_matches s) tbl = Some (tbl ! i)"
    by (rule find_unique [where i = i and xs = tbl and P = "session_matches s"]) (fact assms(2) s(2) | erule (1) uniq)+
  moreover have "\<forall>x \<in> set (tbl[i := new]). \<not> session_matches s x"
  proof
    fix x
    assume "x \<in> set (tbl[i := new])"
    then obtain j where j: "j < length tbl" "x = tbl[i := new] ! j"
      by (metis in_set_conv_nth length_list_update)
    show "\<not> session_matches s x"
    proof (cases "j = i")
      case True
      then show ?thesis using j new [OF s(1)] by simp
    next
      case False
      then have "x = tbl ! j" using j by simp
      then show ?thesis using False j(1) uniq by blast
    qed
  qed
  ultimately show "find_session_unlocked (tbl[i := new]) s = None \<and> find_session_unlocked tbl s = Some (tbl ! i)"
    using s(3) by (simp add: find_session_unlocked_def find_None)
qed


text \<open>C32. (\<open>save_session_unlocked\<close>, \<open>find_session_unlocked\<close>.) A saved session is found again with its secret,
  and the table keeps at most one record for a session. Every other session stays, except
  that when all 128 records are in use by other sessions the oldest one is replaced.\<close>

theorem session_saved:
  assumes "sessions_ok tbl" "cn_authenticated conn" "si_session_id (cn_session conn) = sid" "sid \<noteq> []"
  shows "\<exists>tbl' r. save_session_unlocked tbl conn generation = Inr tbl' \<and> sessions_ok tbl'
    \<and> find_session_unlocked tbl' sid = Some r \<and> sr_session r = cn_session conn
    \<and> sr_resume_secret r = cn_resume_secret conn \<and> sr_manager_generation r = generation
    \<and> (\<forall>s. s \<noteq> sid \<longrightarrow> find_session_unlocked tbl' s = find_session_unlocked tbl s
        \<or> (find_session_unlocked tbl' s = None \<and> find_session_unlocked tbl sid = None
           \<and> (\<exists>old. find_session_unlocked tbl s = Some old
               \<and> (\<forall>q \<in> set tbl. sr_active q \<and>
                    si_authenticated_at_ms (sr_session old) \<le> si_authenticated_at_ms (sr_session q)))))"
proof -
  let ?i = "session_slot tbl sid"
  obtain new where save: "save_session_unlocked tbl conn generation = Inr (tbl[?i := new])"
    and new: "sr_active new" "sr_session new = cn_session conn" "sr_resume_secret new = cn_resume_secret conn"
      "sr_manager_generation new = generation"
    using assms(2,3) by (simp add: save_session_unlocked_def)
  have ne: "tbl \<noteq> []" using assms(1) by (auto simp: sessions_ok_def CUBICLE_MANAGER_MAX_SESSIONS_def)
  have i: "?i < length tbl" by (rule session_slot_bound [OF ne])
  note cases = session_slot_cases [OF ne assms(4)]
  have upd: "session_matches sid (tbl ! ?i) \<or> find_session_unlocked tbl sid = None" using cases by auto
  have id: "si_session_id (sr_session new) = sid" using new(2) assms(3) by simp
  note u = find_session_update [OF assms(1) i new(1) id assms(4) upd]
  have "find_session_unlocked (tbl[?i := new]) s = find_session_unlocked tbl s
      \<or> (find_session_unlocked (tbl[?i := new]) s = None \<and> find_session_unlocked tbl sid = None
         \<and> (\<exists>old. find_session_unlocked tbl s = Some old
             \<and> (\<forall>q \<in> set tbl. sr_active q \<and>
                  si_authenticated_at_ms (sr_session old) \<le> si_authenticated_at_ms (sr_session q))))"
    if s: "s \<noteq> sid" for s
  proof (cases "session_matches s (tbl ! ?i) \<and> s \<noteq> []")
    case True
    then have "\<not> session_matches sid (tbl ! ?i)" "sr_active (tbl ! ?i)"
      using s by (auto simp: session_matches_def)
    then show ?thesis using cases u(4) [OF s] True by auto
  next
    case False
    then show ?thesis using u(3) [OF s] by (auto simp: find_session_unlocked_def)
  qed
  then show ?thesis using save u(1,2) new by blast
qed

theorem session_saved_witness:
  "\<exists>tbl' r. save_session_unlocked (replicate 128 empty_record) example_connection 1 = Inr tbl'
    \<and> find_session_unlocked tbl' ''s'' = Some r \<and> sr_session r = example_session"
proof -
  have "sessions_ok (replicate 128 empty_record)"
    by (simp add: sessions_ok_def CUBICLE_MANAGER_MAX_SESSIONS_def empty_record_def)
  moreover have "cn_authenticated example_connection" "si_session_id (cn_session example_connection) = ''s''"
    by (simp_all add: example_connection_def example_session_def)
  moreover have "''s'' \<noteq> []" by simp
  ultimately show ?thesis
    using session_saved [of "replicate 128 empty_record" example_connection "''s''" 1]
    by (auto simp: example_connection_def)
qed

section \<open>Who is authenticated\<close>

text \<open>
  The system: the table of sessions, shared by the connections, and the connections. A step
  opens a connection or handles one of the three requests that change a connection. The
  manager's identity, its start time, the hash and the check of signatures are the same in
  all steps; everything else the environment may choose afresh.
\<close>

definition same_manager :: "manager_env \<Rightarrow> manager_env \<Rightarrow> bool" where
  "same_manager env env' \<longleftrightarrow>
     env_identity_public_key env' = env_identity_public_key env \<and> env_started_at_ms env' = env_started_at_ms env
     \<and> env_sha256 env' = env_sha256 env \<and> env_verify env' = env_verify env"

definition new_connection :: "bool \<Rightarrow> bool \<Rightarrow> 32 word \<Rightarrow> 32 word \<Rightarrow> connection" where
  "new_connection has_credentials is_tls uid gid =
     \<lparr>cn_has_peer_credentials = has_credentials, cn_is_tls = is_tls,
      cn_peer_uid = (if has_credentials then uid else 0), cn_peer_gid = (if has_credentials then gid else 0),
      cn_pending_auth = None, cn_authenticated = False, cn_session = empty_session,
      cn_resume_secret = replicate 32 NUL, cn_client_public_key_hex = [], cn_links = manager_controller_cache_init\<rparr>"

inductive auth_reachable :: "manager_env \<Rightarrow> session_record list \<Rightarrow> (nat \<Rightarrow> connection option) \<Rightarrow> bool" for env where
  start: "auth_reachable env (replicate CUBICLE_MANAGER_MAX_SESSIONS empty_record) (\<lambda>_. None)"
| accept: "auth_reachable env tbl conns \<Longrightarrow>
    auth_reachable env tbl (conns(i \<mapsto> new_connection has_credentials is_tls uid gid))"
| challenge: "auth_reachable env tbl conns \<Longrightarrow> conns i = Some conn \<Longrightarrow> same_manager env env' \<Longrightarrow>
    auth_challenge env' conn params = (r, conn') \<Longrightarrow> auth_reachable env tbl (conns(i \<mapsto> conn'))"
| authenticate: "auth_reachable env tbl conns \<Longrightarrow> conns i = Some conn \<Longrightarrow> same_manager env env' \<Longrightarrow>
    auth_authenticate env' conn params tbl = (r, conn', tbl') \<Longrightarrow> auth_reachable env tbl' (conns(i \<mapsto> conn'))"
| resume: "auth_reachable env tbl conns \<Longrightarrow> conns i = Some conn \<Longrightarrow> same_manager env env' \<Longrightarrow>
    auth_resume_request env' conn params tbl = (r, conn') \<Longrightarrow> auth_reachable env tbl (conns(i \<mapsto> conn'))"

text \<open>A key that signed a transcript made by this manager in this run, for the given user.\<close>

definition key_proved :: "manager_env \<Rightarrow> bytes \<Rightarrow> bool" where
  "key_proved env key_id \<longleftrightarrow>
     (\<exists>t msg signature fingerprint.
        cubicle_auth_encode_transcript t 512 = Inr msg
        \<and> env_verify env (tr_client_public_key t) msg signature
        \<and> tr_manager_public_key t = env_identity_public_key env
        \<and> tr_manager_generation t = env_started_at_ms env
        \<and> cubicle_auth_key_fingerprint (env_sha256 env) (tr_client_public_key t) = Inr (key_id, fingerprint))"

definition session_proved :: "manager_env \<Rightarrow> session_info \<Rightarrow> bool" where
  "session_proved env s \<longleftrightarrow> si_client_key_id s = [] \<or> key_proved env (si_client_key_id s)"

definition pending_ours :: "manager_env \<Rightarrow> connection \<Rightarrow> bool" where
  "pending_ours env conn \<longleftrightarrow>
     (case cn_pending_auth conn of
        None \<Rightarrow> True
      | Some t \<Rightarrow> tr_manager_public_key t = env_identity_public_key env
          \<and> tr_manager_generation t = env_started_at_ms env)"

definition auth_invariant :: "manager_env \<Rightarrow> session_record list \<Rightarrow> (nat \<Rightarrow> connection option) \<Rightarrow> bool" where
  "auth_invariant env tbl conns \<longleftrightarrow>
     list_all (\<lambda>r. session_proved env (sr_session r)) tbl
     \<and> (\<forall>i conn. conns i = Some conn \<longrightarrow> session_proved env (cn_session conn) \<and> pending_ours env conn)"

lemma empty_session_proved [simp]: "session_proved env empty_session"
  by (simp add: session_proved_def empty_session_def)

lemma challenge_invariant:
  assumes "auth_challenge env' conn params = (r, conn')" "same_manager env env'" "pending_ours env conn"
  shows "cn_session conn' = cn_session conn \<and> pending_ours env conn'"
proof (cases "challenge_transcript env' conn params")
  case (Inl r')
  then show ?thesis using assms by (simp add: auth_challenge_def)
next
  case (Inr t)
  then have "tr_manager_public_key t = env_identity_public_key env'" "tr_manager_generation t = env_started_at_ms env'"
    by (auto simp: challenge_transcript_def rbind_eq_Inr)
  moreover have "conn' = conn\<lparr>cn_pending_auth := Some t\<rparr>"
    using assms(1) Inr by (simp add: auth_challenge_def)
  ultimately show ?thesis using assms(2) by (simp add: same_manager_def pending_ours_def)
qed

lemma created_session:
  assumes "create_authenticated_session env conn key = (res, conn')"
  shows "(si_client_key_id (cn_session conn') = [] \<or>
      (\<exists>fp. cubicle_auth_key_fingerprint (env_sha256 env) key = Inr (si_client_key_id (cn_session conn'), fp)))
    \<and> cn_pending_auth conn' = cn_pending_auth conn"
  using assms by (auto simp: create_authenticated_session_def Let_def empty_session_def split: sum.splits)

lemma authenticate_invariant:
  assumes step: "auth_authenticate env' conn params tbl = (r, conn', tbl')" and same: "same_manager env env'"
    and inv: "session_proved env (cn_session conn)" "pending_ours env conn"
      "list_all (\<lambda>r. session_proved env (sr_session r)) tbl"
  shows "session_proved env (cn_session conn') \<and> pending_ours env conn'
    \<and> list_all (\<lambda>r. session_proved env (sr_session r)) tbl'"
proof -
  have unchanged: ?thesis if "cn_session conn' = cn_session conn" "pending_ours env conn'" "tbl' = tbl"
    using that inv by simp
  show ?thesis
  proof (cases "cn_pending_auth conn")
    case None
    then show ?thesis using step inv by (simp add: auth_authenticate_def)
  next
    case (Some t)
    show ?thesis
    proof (cases "param_string params ''signature'' 129")
      case (Inl e)
      then show ?thesis using step Some inv by (simp add: auth_authenticate_def)
    next
      case (Inr signature)
      show ?thesis
      proof (cases "signature_valid env' t signature")
        case False
        then show ?thesis using step Some Inr inv by (auto simp: auth_authenticate_def pending_ours_def)
      next
        case True
        then have proved: "cubicle_auth_key_fingerprint (env_sha256 env') (tr_client_public_key t) = Inr (k, fp) \<Longrightarrow> key_proved env k" for k fp
          using same inv(2) Some unfolding signature_valid_def key_proved_def pending_ours_def same_manager_def
          by (auto simp: rbind_eq_Inr split: sum.splits prod.splits)
        obtain res conn1 where c: "create_authenticated_session env' conn (tr_client_public_key t) = (res, conn1)"
          by (cases "create_authenticated_session env' conn (tr_client_public_key t)")
        have s1: "session_proved env (cn_session conn1)" "pending_ours env conn1"
          using created_session [OF c] proved inv(2) by (auto simp: session_proved_def pending_ours_def)
        have tbl1: "save_session_unlocked tbl conn1 g = Inr tbl1 \<Longrightarrow>
            list_all (\<lambda>r. session_proved env (sr_session r)) tbl1" for g tbl1
          using inv(3) s1 by (auto simp: save_session_unlocked_def list_all_iff dest: set_update_subset_insert [THEN subsetD] split: if_splits)
        show ?thesis
          using step Some Inr True c s1 inv(3) tbl1
          by (auto simp: auth_authenticate_def pending_ours_def split: sum.splits)
      qed
    qed
  qed
qed

lemma resume_invariant:
  assumes "auth_resume_request env' conn params tbl = (r, conn')" "pending_ours env conn"
    and "session_proved env (cn_session conn)" "list_all (\<lambda>r. session_proved env (sr_session r)) tbl"
  shows "session_proved env (cn_session conn') \<and> pending_ours env conn'"
proof (cases "resume_checks env' conn params tbl")
  case (Inl r')
  then show ?thesis using assms by (simp add: auth_resume_request_def)
next
  case (Inr rec)
  then have "rec \<in> set tbl"
    by (auto simp: resume_checks_def rbind_eq_Inr find_session_unlocked_def split: option.splits if_splits dest: find_Some)
  moreover have "conn' = resumed_connection conn rec"
    using assms(1) Inr by (simp add: auth_resume_request_def)
  ultimately show ?thesis
    using assms(2,4) by (auto simp: resumed_connection_def pending_ours_def list_all_iff)
qed

lemma auth_reachable_invariant: "auth_reachable env tbl conns \<Longrightarrow> auth_invariant env tbl conns"
proof (induction rule: auth_reachable.induct)
  case start
  then show ?case by (simp add: auth_invariant_def list_all_iff empty_record_def)
next
  case (accept tbl conns i has_credentials is_tls uid gid)
  then show ?case by (simp add: auth_invariant_def new_connection_def pending_ours_def)
next
  case (challenge tbl conns i conn env' params r conn')
  then show ?case using challenge_invariant [of env' conn params r conn' env] by (auto simp: auth_invariant_def)
next
  case (authenticate tbl conns i conn env' params r conn' tbl')
  then show ?case using authenticate_invariant [of env' conn params tbl r conn' tbl' env]
    by (auto simp: auth_invariant_def)
next
  case (resume tbl conns i conn env' params r conn')
  then show ?case using resume_invariant [of env' conn params tbl r conn' env] by (auto simp: auth_invariant_def)
qed

text \<open>C3. (\<open>auth.challenge\<close>, \<open>auth.authenticate\<close>, \<open>auth.resume\<close>, \<open>connection_has_workspace_capability\<close>.) In every
  reachable state, a connection that does not belong to the manager's user has a
  capability in a workspace only if its key signed a transcript made by this manager in
  this run and the manager's or the workspace's key file grants the key that capability;
  sessions that were resumed are no exception.\<close>

theorem capability_needs_signature:
  assumes "auth_reachable env tbl conns" "conns i = Some conn" "\<not> connection_is_manager_owner env' conn"
    and "connection_has_workspace_capability env' files wid conn required"
  shows "key_proved env (si_client_key_id (cn_session conn))
    \<and> (\<exists>granted. (key_grant (manager_keys_tsv files) None (si_client_key_id (cn_session conn)) = Some granted
          \<or> key_grant (workspace_keys_tsv files) (Some wid) (si_client_key_id (cn_session conn)) = Some granted)
        \<and> granted AND required = required)"
  using auth_reachable_invariant [OF assms(1)] assms(2-4)
  by (auto simp: auth_invariant_def connection_has_workspace_capability_def connection_has_key_capability_grant
      session_proved_def)

lemma hex_decode_zeros: "hex_decode_loop (replicate (2 * n) (CHR ''0'')) = Inr (replicate n NUL)"
  by (induction n) (simp_all add: hex_value_def char_of_def)

definition example_key_id :: bytes where
  "example_key_id = take 32 (concat (map hex2 (replicate 32 (CHR ''A''))))"

lemma example_key_id_facts: "field_ok 33 example_key_id" "example_key_id \<noteq> []"
proof -
  have "length (concat (map hex2 (replicate 32 (CHR ''A'')))) = 64"
    by (simp only: length_hex_text length_replicate)
  then have "length example_key_id = 32" unfolding example_key_id_def by (simp only: length_take)
  moreover have "plain_field example_key_id"
    unfolding example_key_id_def by (rule plain_field_take [OF plain_field_hex])
  ultimately show "field_ok 33 example_key_id" "example_key_id \<noteq> []"
    by (auto simp: field_ok_def)
qed

definition challenge_params :: json where
  "challenge_params = JObj [(''client_public_key'', JStr (replicate 64 (CHR ''0''))), (''client_nonce'', JStr (replicate 64 (CHR ''0'')))]"

definition signature_params :: json where
  "signature_params = JObj [(''signature'', JStr (replicate 128 (CHR ''0'')))]"

lemma is_cstr_zeros: "is_cstr (replicate n (CHR ''0''))"
  by (simp add: is_cstr_def)

lemma example_params:
  "param_string challenge_params ''client_public_key'' 65 = Inr (replicate 64 (CHR ''0''))"
  "param_string challenge_params ''client_nonce'' 65 = Inr (replicate 64 (CHR ''0''))"
  "param_optional_string challenge_params ''workspace'' 256 = Inr None"
  "param_string signature_params ''signature'' 129 = Inr (replicate 128 (CHR ''0''))"
  by (simp_all add: param_string_def param_optional_string_def cubicle_json_get_required_string_def
      cubicle_json_get_optional_string_def required_field_def optional_field_def find_object_member_def checked_string_def
      challenge_params_def signature_params_def cstr_id is_cstr_zeros)

lemma example_challenge:
  "\<exists>r t. auth_challenge example_env (new_connection True False 1001 1001) challenge_params =
     (r, (new_connection True False 1001 1001)\<lparr>cn_pending_auth := Some t\<rparr>)
   \<and> transcript_ok t \<and> tr_client_public_key t = replicate 32 NUL"
proof -
  have d: "cubicle_auth_hex_decode (replicate 64 (CHR ''0'')) 32 = Inr (replicate 32 NUL)"
    using hex_decode_zeros [of 32] by (simp add: cubicle_auth_hex_decode_def)
  obtain t where t: "challenge_transcript example_env (new_connection True False 1001 1001) challenge_params = Inr t"
    "transcript_ok t" "tr_client_public_key t = replicate 32 NUL"
    by (simp add: challenge_transcript_def example_params d new_connection_def transcript_ok_def example_env_def
       )
  then show ?thesis by (auto simp: auth_challenge_def)
qed

lemma create_succeeds:
  assumes "env_hex_id env 0 = Inr sid" "cubicle_auth_key_fingerprint (env_sha256 env) key = Inr (k, fp)"
    "env_random env 0 32 = Inr secret" "length key = 32"
  shows "\<exists>conn'. create_authenticated_session env conn key = (Inr (), conn') \<and> cn_authenticated conn'
    \<and> si_client_key_id (cn_session conn') = k \<and> cn_peer_uid conn' = cn_peer_uid conn"
  using assms by (simp add: create_authenticated_session_def cubicle_auth_hex_encode_def)

lemma example_reachable:
  "\<exists>tbl conns conn. auth_reachable example_env tbl conns \<and> conns 0 = Some conn \<and> cn_authenticated conn
     \<and> si_client_key_id (cn_session conn) = example_key_id \<and> cn_peer_uid conn = 1001"
proof -
  let ?c = "new_connection True False 1001 1001"
  have same: "same_manager example_env example_env" by (simp add: same_manager_def)
  have first: "auth_reachable example_env (replicate CUBICLE_MANAGER_MAX_SESSIONS empty_record) ((\<lambda>_. None)(0 \<mapsto> ?c))"
    by (rule auth_reachable.accept [OF auth_reachable.start])
  obtain r t where t: "auth_challenge example_env ?c challenge_params = (r, ?c\<lparr>cn_pending_auth := Some t\<rparr>)"
    "transcript_ok t" "tr_client_public_key t = replicate 32 NUL"
    using example_challenge by blast
  have reach: "auth_reachable example_env (replicate CUBICLE_MANAGER_MAX_SESSIONS empty_record)
      ((\<lambda>_. None)(0 \<mapsto> ?c, 0 \<mapsto> ?c\<lparr>cn_pending_auth := Some t\<rparr>))"
    by (rule auth_reachable.challenge [OF first _ same t(1)]) simp
  have "cubicle_auth_encode_transcript t 512 = Inr (transcript_bytes t)"
    using encode_transcript [OF t(2)] length_transcript_bytes [OF t(2)] by simp
  moreover have "cubicle_auth_hex_decode (replicate 128 (CHR ''0'')) 64 = Inr (replicate 64 NUL)"
    using hex_decode_zeros [of 64] by (simp add: cubicle_auth_hex_decode_def)
  ultimately have valid: "signature_valid example_env t (replicate 128 (CHR ''0''))"
    by (simp add: signature_valid_def example_env_def)
  have fp: "\<exists>fp. cubicle_auth_key_fingerprint (env_sha256 example_env) (replicate 32 NUL) = Inr (example_key_id, fp)"
    by (simp add: cubicle_auth_key_fingerprint_def cubicle_auth_hex_encode_def example_env_def example_key_id_def
       )
  obtain conn where conn: "create_authenticated_session example_env (?c\<lparr>cn_pending_auth := Some t\<rparr>) (replicate 32 NUL) = (Inr (), conn)"
    "cn_authenticated conn" "si_client_key_id (cn_session conn) = example_key_id" "cn_peer_uid conn = 1001"
  proof -
    obtain fp' where fp': "cubicle_auth_key_fingerprint (env_sha256 example_env) (replicate 32 NUL) = Inr (example_key_id, fp')"
      using fp by blast
    have "env_hex_id example_env 0 = Inr ''id''" "env_random example_env 0 32 = Inr (replicate 32 (CHR ''R''))"
      by (simp_all add: example_env_def)
    from create_succeeds [OF this(1) fp' this(2), of "?c\<lparr>cn_pending_auth := Some t\<rparr>"] that show ?thesis
      by (auto simp: new_connection_def)
  qed
  then obtain r2 tbl where a: "auth_authenticate example_env (?c\<lparr>cn_pending_auth := Some t\<rparr>) signature_params
      (replicate CUBICLE_MANAGER_MAX_SESSIONS empty_record) = (r2, conn\<lparr>cn_pending_auth := None\<rparr>, tbl)"
    by (simp add: auth_authenticate_def example_params valid t(3) save_session_unlocked_def)
  have "auth_reachable example_env tbl (((\<lambda>_. None)(0 \<mapsto> ?c, 0 \<mapsto> ?c\<lparr>cn_pending_auth := Some t\<rparr>))(0 \<mapsto> conn\<lparr>cn_pending_auth := None\<rparr>))"
    by (rule auth_reachable.authenticate [OF reach _ same a]) simp
  then show ?thesis using conn(2-4) 
    by (intro exI [of _ tbl] exI [of _ "_(0 \<mapsto> conn\<lparr>cn_pending_auth := None\<rparr>)"] exI [of _ "conn\<lparr>cn_pending_auth := None\<rparr>"]) simp
qed

theorem capability_needs_signature_witness:
  "key_proved example_env example_key_id
    \<and> (\<exists>granted. (key_grant None None example_key_id = Some granted
          \<or> key_grant (Some (key_line (example_key ''w1'' example_key_id 16))) (Some ''w1'') example_key_id = Some granted)
        \<and> granted AND 16 = 16)"
proof -
  obtain tbl conns conn where c: "auth_reachable example_env tbl conns" "conns 0 = Some conn" "cn_authenticated conn"
    "si_client_key_id (cn_session conn) = example_key_id" "cn_peer_uid conn = 1001"
    using example_reachable by blast
  let ?files = "\<lparr>workspaces_tsv = None, processes_tsv = None, manager_keys_tsv = None,
    workspace_keys_tsv = Some (key_line (example_key ''w1'' example_key_id 16)), macros_tsv = None, cursors_tsv = None\<rparr>"
  have "list_all stored_key_ok [example_key ''w1'' example_key_id 16]"
    using example_key_ok example_key_id_facts example_names(1) by simp
  then have keys: "key_records (Some (key_line (example_key ''w1'' example_key_id 16))) = [example_key ''w1'' example_key_id 16]"
    using key_records_printed [of "[example_key ''w1'' example_key_id 16]"] by simp
  have "key_matches (Some ''w1'') example_key_id (example_key ''w1'' example_key_id 16)"
    "kr_capabilities (example_key ''w1'' example_key_id 16) = 16"
    by (simp_all add: key_matches_def example_key_def)
  then have has: "connection_has_workspace_capability example_env ?files ''w1'' conn 16"
    using c example_key_id_facts(2)
    by (simp add: connection_has_workspace_capability_def connection_has_key_capability_def keys)
  have "\<not> connection_is_manager_owner example_env conn"
    by (simp add: connection_is_manager_owner_def connection_is_same_uid_def c(5) example_env_def)
  from capability_needs_signature [OF c(1,2) this has] show ?thesis by (simp add: c(4))
qed


section \<open>Resuming twice\<close>


definition resume_params :: json where
  "resume_params = JObj [(''session_id'', JStr ''s''), (''client_nonce'', JStr (replicate 64 (CHR ''0''))),
     (''connection_id'', JStr (replicate 32 (CHR ''0''))), (''authenticator'', JStr (concat (map hex2 (replicate 32 (CHR ''H'')))))]"

definition example_record :: session_record where
  "example_record = \<lparr>sr_active = True, sr_session = example_session, sr_resume_secret = replicate 32 NUL,
     sr_peer_uid = 1001, sr_peer_gid = 1001, sr_manager_generation = 1, sr_client_public_key_hex = []\<rparr>"


end
