(* ===== verification/Manager_Daemon.thy ===== *)
theory Manager_Daemon
  imports Manager_Attach Manager_Session
begin

text \<open>
  The manager's server (\<open>src/src/manager/main.c\<close>): one request on a connection
  (\<open>handle_manager_client\<close>), from the frame to the reply that is written, and the loop over the
  requests of a connection (\<open>handle_manager_connection\<close>).
\<close>

section \<open>The methods\<close>

text \<open>
  The reply, the connection and the manager afterwards; \<open>None\<close> for a \<open>process.wait\<close> that waits
  forever.
\<close>

type_synonym handled = "(reply \<times> connection \<times> manager) option"

definition only_reply :: "connection \<Rightarrow> manager \<Rightarrow> reply \<Rightarrow> handled" where
  "only_reply conn m r = Some (r, conn, m)"

definition with_manager :: "connection \<Rightarrow> reply \<times> manager \<Rightarrow> handled" where
  "with_manager conn = (\<lambda>(r, m). Some (r, conn, m))"

definition with_connection :: "manager \<Rightarrow> reply \<times> connection \<Rightarrow> handled" where
  "with_connection m = (\<lambda>(r, conn). Some (r, conn, m))"

definition manager_dispatch :: "manager_env \<Rightarrow> bytes \<Rightarrow> bytes \<Rightarrow> json \<Rightarrow> connection \<Rightarrow> manager \<Rightarrow> handled" where
  "manager_dispatch env mid meth params conn m =
     (if meth = ''auth.challenge'' then with_connection m (auth_challenge env conn params)
      else if meth = ''auth.authenticate'' then
        (case auth_authenticate env conn params (mg_sessions m) of (r, c, ss) \<Rightarrow> Some (r, c, m\<lparr>mg_sessions := ss\<rparr>))
      else if meth = ''auth.resume'' then with_connection m (auth_resume_request env conn params (mg_sessions m))
      else if meth = ''session.local_bootstrap'' then only_reply conn m (session_local_bootstrap env mid conn)
      else if meth = ''manager.ping'' then only_reply conn m (manager_ping env mid)
      else if meth = ''manager.status'' then only_reply conn m (manager_status env mid m)
      else if meth = ''manager.shutdown'' then with_manager conn (manager_shutdown env params m)
      else if meth = ''manager.reconcile'' then with_manager conn (manager_reconcile env m)
      else if meth = ''workspace.create'' then with_manager conn (workspace_create env mid conn params m)
      else if meth = ''workspace.get'' then only_reply conn m (workspace_get env mid conn params m)
      else if meth = ''workspace.list'' then only_reply conn m (workspace_list env mid conn m)
      else if meth = ''workspace.macro.list'' then only_reply conn m (workspace_macro_list env conn params m)
      else if meth = ''workspace.macro.save'' then with_manager conn (workspace_macro_save env conn params m)
      else if meth = ''workspace.macro.delete'' then with_manager conn (workspace_macro_update False env conn params m)
      else if meth = ''workspace.macro.reorder'' then with_manager conn (workspace_macro_update True env conn params m)
      else if meth = ''workspace.rename'' then with_manager conn (workspace_rename env conn params m)
      else if meth = ''workspace.stop'' then with_manager conn (workspace_lifecycle False env conn params m)
      else if meth = ''workspace.delete'' then with_manager conn (workspace_lifecycle True env conn params m)
      else if meth = ''process.get'' then with_manager conn (process_get env mid conn params m)
      else if meth = ''process.list'' then with_manager conn (process_list env mid conn params m)
      else if meth = ''process.start'' then with_manager conn (process_start env mid conn params m)
      else if meth = ''process.signal'' then with_manager conn (process_signal SignalNumber env conn params m)
      else if meth = ''process.terminate'' then with_manager conn (process_signal Terminate env conn params m)
      else if meth = ''process.kill'' then with_manager conn (process_signal Kill env conn params m)
      else if meth = ''process.wait'' then Option.bind (process_wait env mid conn params m) (with_manager conn)
      else if meth = ''process.update'' then with_manager conn (process_update_request env mid conn params m)
      else if meth = ''process.save'' then with_manager conn (process_save True env mid conn params m)
      else if meth = ''process.unsave'' then with_manager conn (process_save False env mid conn params m)
      else if meth = ''process.remove'' then with_manager conn (process_remove env conn params m)
      else if meth = ''manager.cleanup'' then with_manager conn (manager_cleanup env conn params m)
      else if meth = ''manager.key.add'' then with_manager conn (manager_key_add env conn params m)
      else if meth = ''manager.key.list'' then only_reply conn m (manager_key_list env conn m)
      else if meth = ''manager.key.update'' then with_manager conn (manager_key_update env conn params m)
      else if meth = ''manager.key.revoke'' then with_manager conn (manager_key_revoke env conn params m)
      else if meth = ''workspace.key.add'' then with_manager conn (workspace_key_add env conn params m)
      else if meth = ''workspace.key.list'' then only_reply conn m (workspace_key_list env conn params m)
      else if meth = ''workspace.key.update'' then with_manager conn (workspace_key_update env conn params m)
      else if meth = ''workspace.key.revoke'' then with_manager conn (workspace_key_revoke env conn params m)
      else if meth = ''attachment.proxy'' then with_connection m (attachment_proxy env conn params m)
      else if meth = ''attachment.request'' then only_reply conn m (attachment_request env mid conn params m)
      else if meth = ''events.subscribe'' then only_reply conn m (events_subscribe env conn params m)
      else if meth = ''events.list'' then only_reply conn m (events_list env conn params m)
      else if meth = ''process.read_output'' then only_reply conn m (process_read_output env conn params m)
      else only_reply conn m (ApiError CUBICLE_ERR_UNSUPPORTED ''method is not implemented'' False None))"

section \<open>Replies\<close>

text \<open>The text of a reply and the limit of its frame; an error ends the connection.\<close>

definition manager_api_error :: "bytes \<Rightarrow> cubicle_error_code \<Rightarrow> bytes \<Rightarrow> bool \<Rightarrow> int \<Rightarrow> (bytes \<times> nat) result" where
  "manager_api_error rid code msg retry sys =
     rbind (cubicle_rpc_error 2048 rid code msg retry sys) (\<lambda>s. Inr (s, CUBICLE_API_MAX_FRAME))"

definition manager_api_success :: "manager_env \<Rightarrow> bytes \<Rightarrow> bytes \<Rightarrow> (bytes \<times> nat) result" where
  "manager_api_success env rid result =
     rbind (cubicle_rpc_success (env_rd env) 131072 rid result) (\<lambda>s. Inr (s, CUBICLE_API_MAX_FRAME))"

definition manager_api_success_large :: "manager_env \<Rightarrow> bytes \<Rightarrow> bytes \<Rightarrow> (bytes \<times> nat) result" where
  "manager_api_success_large env rid result =
     (let response_size = length result + length rid + 256 in
      if response_size > CUBICLE_CONTROLLER_PROXY_MAX_FRAME
      then manager_api_error rid CUBICLE_ERR_RESOURCE_LIMIT ''response too large'' False 0
      else if \<not> env_alloc env (of_nat response_size)
      then manager_api_error rid CUBICLE_ERR_INTERNAL ''failed to allocate response'' False (errno_number ENOMEM)
      else case cubicle_rpc_success (env_rd env) response_size rid result of
        Inl e \<Rightarrow> manager_api_error rid CUBICLE_ERR_RESOURCE_LIMIT ''response too large'' False (errno_number e)
      | Inr s \<Rightarrow> Inr (s, CUBICLE_CONTROLLER_PROXY_MAX_FRAME))"

fun reply_text :: "manager_env \<Rightarrow> bytes \<Rightarrow> reply \<Rightarrow> (bytes \<times> nat) result" where
  "reply_text env rid (ApiSuccess result) = manager_api_success env rid result"
| "reply_text env rid (ApiSuccessLarge result) = manager_api_success_large env rid result"
| "reply_text env rid (ApiError code msg retry e) =
     manager_api_error rid code msg retry (case e of None \<Rightarrow> 0 | Some n \<Rightarrow> errno_number n)"
| "reply_text env rid (ApiRelayed e) =
     manager_api_error rid (err_code e) (err_message e) (err_retryable e) (err_system_errno e)"
| "reply_text env rid ApiClose = Inl errno_unset"

section \<open>A request\<close>

text \<open>
  What the request in a frame leads to: the request id that the reply carries, and the reply.
  The frame is read as a C string.
\<close>

definition handle_request :: "manager_env \<Rightarrow> bytes \<Rightarrow> connection \<Rightarrow> manager \<Rightarrow> (bytes \<times> reply \<times> connection \<times> manager) option" where
  "handle_request env request conn m =
     (case cubicle_rpc_decode_request (env_rd env) (Some (cstr request)) of
        Inl _ \<Rightarrow> Some ([], ApiError CUBICLE_ERR_PROTOCOL ''invalid request envelope'' False None, conn, m)
      | Inr envelope \<Rightarrow>
          (let rid = store 64 (req_request_id envelope); meth = store 128 (req_method envelope) in
           case env_manager_id env of
             Inl e \<Rightarrow> Some (rid, ApiError CUBICLE_ERR_INTERNAL ''failed to read manager id'' False (Some e), conn, m)
           | Inr mid \<Rightarrow> map_option (\<lambda>x. (rid, x)) (manager_dispatch env mid meth (req_params envelope) conn m)))"

text \<open>
  One iteration of the loop on streams of a kind: the bytes written, whether the connection goes
  on, and the state afterwards.
\<close>

definition handle_manager_client ::
    "('s \<Rightarrow> nat \<Rightarrow> 's reading) \<Rightarrow> ('w \<Rightarrow> bytes \<Rightarrow> bytes \<times> unit result \<times> 'w) \<Rightarrow> manager_env
      \<Rightarrow> 's \<Rightarrow> 'w \<Rightarrow> connection \<Rightarrow> manager \<Rightarrow> (bytes \<times> unit result \<times> 's \<times> 'w \<times> connection \<times> manager) option" where
  "handle_manager_client read_all write_all env s w conn m =
     (case read_api_frame read_all s 8192 of
        None \<Rightarrow> None
      | Some (Inl e, s') \<Rightarrow> Some ([], Inl e, s', w, conn, m)
      | Some (Inr request, s') \<Rightarrow>
          (case handle_request env request conn m of
             None \<Rightarrow> None
           | Some (rid, reply, conn', m') \<Rightarrow>
               (case reply_text env rid reply of
                  Inl e \<Rightarrow> Some ([], Inl e, s', w, conn', m')
                | Inr (response, limit) \<Rightarrow>
                    (case write_api_frame_with_limit write_all w response limit of
                       (written, r, w') \<Rightarrow> Some (written, r, s', w', conn', m')))))"

text \<open>
  The loop of \<open>handle_manager_connection\<close>. The environment of a request is the one for its number.
  The result is \<open>None\<close> while the client is silent or a wait goes on forever.
\<close>

partial_function (option) handle_manager_connection ::
    "('s \<Rightarrow> nat \<Rightarrow> 's reading) \<Rightarrow> ('w \<Rightarrow> bytes \<Rightarrow> bytes \<times> unit result \<times> 'w) \<Rightarrow> (nat \<Rightarrow> manager_env)
      \<Rightarrow> nat \<Rightarrow> 's \<Rightarrow> 'w \<Rightarrow> connection \<Rightarrow> manager \<Rightarrow> (bytes \<times> unit result \<times> connection \<times> manager) option" where
  "handle_manager_connection read_all write_all envs i s w conn m =
     (if mg_shutdown m then Some ([], Inr (), conn\<lparr>cn_links := manager_controller_cache_close (cn_links conn)\<rparr>, m)
      else case handle_manager_client read_all write_all (envs i) s w conn m of
        None \<Rightarrow> None
      | Some (written, Inl e, s', w', conn', m') \<Rightarrow>
          Some (written, if e = ECONNRESET then Inr () else Inl e,
            conn'\<lparr>cn_links := manager_controller_cache_close (cn_links conn')\<rparr>, m')
      | Some (written, Inr _, s', w', conn', m') \<Rightarrow>
          Option.bind (handle_manager_connection read_all write_all envs (Suc i) s' w' conn' m')
            (\<lambda>(written', rest). Some (written @ written', rest)))"

section \<open>Clients without a key\<close>

text \<open>
  A client that is not the user the manager runs as and that has authenticated with no key that is
  in a key file and not revoked.
\<close>

definition stranger :: "manager_env \<Rightarrow> manager_files \<Rightarrow> connection \<Rightarrow> bool" where
  "stranger env files conn \<longleftrightarrow> \<not> connection_is_manager_owner env conn
     \<and> (\<forall>c. \<not> connection_has_key_capability (manager_keys_tsv files) None conn c)
     \<and> (\<forall>w c. \<not> connection_has_key_capability (workspace_keys_tsv files) (Some w) conn c)"

lemma stranger_denied:
  assumes "stranger env files conn"
  shows "\<not> connection_has_workspace_capability env files w conn c" "\<not> connection_has_manager_key_capability env files conn c"
    "\<not> connection_is_manager_owner env conn"
  using assms by (simp_all add: stranger_def connection_has_workspace_capability_def connection_has_manager_key_capability_def)

text \<open>A reply that holds nothing of what the manager keeps: an error or an empty list.\<close>

fun refused :: "reply \<Rightarrow> bool" where
  "refused (ApiSuccess s) \<longleftrightarrow> s = ''{\"workspaces\":['' @ counted_end 0 \<or> s = ''{\"processes\":['' @ counted_end 0"
| "refused (ApiError code msg retry e) \<longleftrightarrow> True"
| "refused _ \<longleftrightarrow> False"

definition only_errors :: "reply + 'a \<Rightarrow> bool" where
  "only_errors x \<longleftrightarrow> (\<forall>r. x = Inl r \<longrightarrow> refused r)"

definition blocked :: "reply + 'a \<Rightarrow> bool" where
  "blocked x \<longleftrightarrow> (\<exists>r. x = Inl r \<and> refused r)"

lemma refused_replies [simp]:
  "refused (invalid s)" "refused (denied s)" "refused (not_found s)" "refused (io_failed s e)" "refused (too_large s)"
  by (simp_all add: invalid_def denied_def not_found_def io_failed_def too_large_def)

lemma only_errors_simps [simp]:
  "only_errors (Inr x)" "only_errors (Inl r) \<longleftrightarrow> refused r"
  "only_errors (unless b r) \<longleftrightarrow> b \<or> refused r"
  "refused r \<Longrightarrow> only_errors (or_reply r x)"
  "refused r \<Longrightarrow> only_errors (some_or r opt)"
  "only_errors (lock_state env)"
  by (auto simp: only_errors_def unless_def or_reply_def some_or_def lock_state_def split: sum.splits option.splits)

lemma only_errors_lookup [simp]:
  "only_errors (the_process files pref wid)" "only_errors (workspace_filter files wref)"
  "refused a \<Longrightarrow> refused b \<Longrightarrow> only_errors (found_or a b l)"
  by (auto simp: only_errors_def the_process_def found_or_def workspace_filter_def some_or_def rbind_def
      split: lookup.splits option.splits sum.splits)

lemma blocked_simps [simp]: "blocked (Inl r) \<longleftrightarrow> refused r" "\<not> blocked (Inr x)"
  by (simp_all add: blocked_def)

lemma blocked_rbind:
  assumes "only_errors x" "\<And>y. x = Inr y \<Longrightarrow> blocked (f y)"
  shows "blocked (rbind x f)"
  using assms by (cases x) (auto simp: only_errors_def blocked_def)

lemma only_errors_case [simp]:
  "only_errors (case x of Inl e \<Rightarrow> Inl (g e) | Inr y \<Rightarrow> Inr y) \<longleftrightarrow> (\<forall>e. x = Inl e \<longrightarrow> refused (g e))"
  by (auto simp: only_errors_def split: sum.splits)

lemma unless_False [simp]: "unless False r = Inl r" "unless True r = Inr ()" by (simp_all add: unless_def)

lemma refused_reply_of: "blocked x \<Longrightarrow> refused (reply_of x)"
  by (auto simp: blocked_def reply_of_def)

lemmas check_defs =
  workspace_create_checks_def workspace_rename_checks_def workspace_macro_save_checks_def workspace_macro_update_checks_def
  lifecycle_checks_def process_start_checks_def signal_access_def process_wait_checks_def process_update_checks_def
  process_save_checks_def process_remove_checks_def cleanup_checks_def read_output_checks_def
  workspace_key_add_checks_def proxy_checks_def attachment_request_checks_def

lemma stranger_checks:
  assumes "stranger env (mg_files m) conn"
  shows "blocked (workspace_create_checks env conn params m)" "blocked (workspace_rename_checks env conn params m)"
    "blocked (workspace_macro_save_checks env conn params m)" "blocked (workspace_macro_update_checks reorder env conn params m)"
    "blocked (lifecycle_checks delete env conn params m)" "blocked (process_start_checks env conn params m)"
    "blocked (signal_access env conn params m)" "blocked (process_wait_checks env conn params m)"
    "blocked (process_update_checks env conn params m)" "blocked (process_save_checks saved env conn params m)"
    "blocked (process_remove_checks env conn params m)"
    "blocked (read_output_checks env conn params m)" "blocked (workspace_key_add_checks env conn params m)"
    "blocked (proxy_checks env conn params m)" "blocked (attachment_request_checks env conn params m)"
  by (simp_all only: check_defs)
    (intro blocked_rbind | simp add: stranger_denied [OF assms] split_beta | (rule conjI impI)+)+

lemma stranger_cleanup:
  assumes "stranger env (mg_files m) conn"
  shows "blocked (cleanup_checks env conn params m)"
  unfolding cleanup_checks_def
  by (intro blocked_rbind) (auto simp: stranger_denied [OF assms] split: option.splits)

lemma stranger_replies:
  assumes "stranger env (mg_files m) conn"
  shows "refused (workspace_get env mid conn params m)" "refused (workspace_macro_list env conn params m)"
    "refused (manager_key_list env conn m)" "refused (workspace_key_list env conn params m)"
    "refused (attachment_request env mid conn params m)" "refused (process_read_output env conn params m)"
proof -
  note d = stranger_denied [OF assms] and c = stranger_checks [OF assms]
  show "refused (workspace_get env mid conn params m)" "refused (workspace_macro_list env conn params m)"
    "refused (workspace_key_list env conn params m)"
    unfolding workspace_get_def workspace_macro_list_def workspace_key_list_def
    by (rule refused_reply_of; (intro blocked_rbind | simp add: d split_beta)+)+
  show "refused (manager_key_list env conn m)" by (simp add: manager_key_list_def d)
  show "refused (attachment_request env mid conn params m)" "refused (process_read_output env conn params m)"
    using c(12,15) [of params] by (auto simp: blocked_def attachment_request_def process_read_output_def reply_of_def)
qed

lemma blocked_case:
  "blocked c \<Longrightarrow> (case c of Inl r \<Rightarrow> (r, x) | Inr y \<Rightarrow> F y) = (r, x') \<Longrightarrow> refused r \<and> x' = x"
  by (auto simp: blocked_def)

lemma stranger_handlers:
  assumes "stranger env (mg_files m) conn"
  shows "workspace_create env mid conn params m = (r, m') \<Longrightarrow> refused r \<and> m' = m"
    "workspace_macro_save env conn params m = (r, m') \<Longrightarrow> refused r \<and> m' = m"
    "workspace_macro_update reorder env conn params m = (r, m') \<Longrightarrow> refused r \<and> m' = m"
    "workspace_rename env conn params m = (r, m') \<Longrightarrow> refused r \<and> m' = m"
    "workspace_lifecycle delete env conn params m = (r, m') \<Longrightarrow> refused r \<and> m' = m"
    "process_start env mid conn params m = (r, m') \<Longrightarrow> refused r \<and> m' = m"
    "process_signal req env conn params m = (r, m') \<Longrightarrow> refused r \<and> m' = m"
    "process_wait env mid conn params m = Some (r, m') \<Longrightarrow> refused r \<and> m' = m"
    "process_update_request env mid conn params m = (r, m') \<Longrightarrow> refused r \<and> m' = m"
    "process_save saved env mid conn params m = (r, m') \<Longrightarrow> refused r \<and> m' = m"
    "process_remove env conn params m = (r, m') \<Longrightarrow> refused r \<and> m' = m"
    "manager_cleanup env conn params m = (r, m') \<Longrightarrow> refused r \<and> m' = m"
    "workspace_key_add env conn params m = (r, m') \<Longrightarrow> refused r \<and> m' = m"
    "attachment_proxy env conn params m = (r, conn') \<Longrightarrow> refused r \<and> conn' = conn"
  subgoal unfolding workspace_create_def using stranger_checks(1) [OF assms] by (rule blocked_case)
  subgoal unfolding workspace_macro_save_def using stranger_checks(3) [OF assms] by (rule blocked_case)
  subgoal unfolding workspace_macro_update_def using stranger_checks(4) [OF assms] by (rule blocked_case)
  subgoal unfolding workspace_rename_def using stranger_checks(2) [OF assms] by (rule blocked_case)
  subgoal unfolding workspace_lifecycle_def using stranger_checks(5) [OF assms] by (rule blocked_case)
  subgoal unfolding process_start_def using stranger_checks(6) [OF assms] by (rule blocked_case)
  subgoal using stranger_checks(7) [OF assms, of params] by (auto simp: process_signal_def blocked_def)
  subgoal using stranger_checks(8) [OF assms, of params] by (auto simp: process_wait_def blocked_def)
  subgoal unfolding process_update_request_def apply_process_update_def using stranger_checks(9) [OF assms] by (rule blocked_case)
  subgoal unfolding process_save_def apply_process_update_def using stranger_checks(10) [OF assms] by (rule blocked_case)
  subgoal unfolding process_remove_def using stranger_checks(11) [OF assms] by (rule blocked_case)
  subgoal unfolding manager_cleanup_def using stranger_cleanup [OF assms] by (rule blocked_case)
  subgoal unfolding workspace_key_add_def using stranger_checks(13) [OF assms] by (rule blocked_case)
  subgoal unfolding attachment_proxy_def using stranger_checks(14) [OF assms] by (rule blocked_case)
  done

lemma stranger_key_handlers:
  assumes "stranger env (mg_files m) conn"
  shows "manager_key_add env conn params m = (r, m') \<Longrightarrow> refused r \<and> m' = m"
    "manager_key_update env conn params m = (r, m') \<Longrightarrow> refused r \<and> m' = m"
    "manager_key_revoke env conn params m = (r, m') \<Longrightarrow> refused r \<and> m' = m"
    "workspace_key_update env conn params m = (r, m') \<Longrightarrow> refused r \<and> m' = m"
    "workspace_key_revoke env conn params m = (r, m') \<Longrightarrow> refused r \<and> m' = m"
  unfolding manager_key_add_def manager_key_update_def manager_key_revoke_def workspace_key_update_def workspace_key_revoke_def
  by (erule blocked_case [rotated]; (intro blocked_rbind | simp add: stranger_denied [OF assms] split_beta)+)+

lemma stranger_lists:
  assumes "stranger env (mg_files m) conn"
  shows "refused (workspace_list env mid conn m)"
    and "process_list env mid conn params m = (r, m') \<Longrightarrow> refused r \<and> m' = m"
    and "process_get env mid conn params m = (r, m') \<Longrightarrow> refused r \<and> sends m m'"
proof -
  note d = stranger_denied [OF assms]
  show "refused (workspace_list env mid conn m)"
    by (simp add: workspace_list_def d items_of_def map_filter_simps list_reply_def)
  have loop: "process_list_loop env mid conn wid used n ps m = (Some (used, n), m)" for wid used n ps
    by (induction ps) (simp_all add: d)
  show "refused r \<and> m' = m" if "process_list env mid conn params m = (r, m')"
    using that by (auto simp: process_list_def loop rbind_def or_reply_def workspace_filter_def some_or_def
        split: sum.splits option.splits if_splits)
  show "refused r \<and> sends m m'" if "process_get env mid conn params m = (r, m')"
  proof (cases "process_get_checks params m")
    case (Inl q)
    moreover have "only_errors (process_get_checks params m)"
      unfolding process_get_checks_def
      by (auto simp: only_errors_def rbind_def or_reply_def found_or_def workspace_filter_def some_or_def
          split: sum.splits option.splits lookup.splits if_splits)
    ultimately show ?thesis using that by (auto simp: process_get_def only_errors_def)
  next
    case (Inr p)
    then show ?thesis using that by (auto simp: process_get_def d reply_of_def split: prod.splits dest: refresh_sends)
  qed
qed

text \<open>What reconciling and shutting down may change: the process records, and what is sent and killed.\<close>

definition stops :: "manager \<Rightarrow> manager \<Rightarrow> bool" where
  "stops m m' \<longleftrightarrow> (\<exists>f cs ks b. m' = m\<lparr>mg_files := (mg_files m)\<lparr>processes_tsv := f\<rparr>, mg_shutdown := b,
     mg_sent := mg_sent m @ cs, mg_killed := mg_killed m @ ks\<rparr>)"

lemma stops_refl [simp, intro]: "stops m m"
  unfolding stops_def by (rule exI [of _ "processes_tsv (mg_files m)"], rule exI [of _ "[]"], rule exI [of _ "[]"], rule exI [of _ "mg_shutdown m"]) simp

lemma stops_trans [trans]: "stops a b \<Longrightarrow> stops b c \<Longrightarrow> stops a c"
  unfolding stops_def by fastforce

lemma sends_stops: "sends m m' \<Longrightarrow> stops m m'"
  unfolding sends_def stops_def
  by (elim exE, rule exI [of _ "processes_tsv (mg_files m)"], rule exI, rule exI [of _ "[]"], rule exI [of _ "mg_shutdown m"]) simp

lemma with_processes_stops: "stops m (with_processes m f)"
  unfolding stops_def with_processes_def by (rule exI [of _ f], rule exI [of _ "[]"], rule exI [of _ "[]"], rule exI [of _ "mg_shutdown m"]) simp

lemma apply_updates_stops: "apply_updates env i us m = (r, m') \<Longrightarrow> stops m m'"
proof (induction us arbitrary: i m)
  case (Cons u us)
  obtain pid s where u: "u = (pid, s)" by (rule prod.exhaust)
  obtain res f where rw: "rewrite_process_records (env_rewrite env i) (processes_tsv (mg_files m)) pid (Some (state_update s)) False = (res, f)"
    by (rule prod.exhaust)
  show ?case
  proof (cases res)
    case (Inl e)
    then have "m' = with_processes m f" using Cons.prems rw u by simp
    then show ?thesis using with_processes_stops by simp
  next
    case (Inr x)
    then have "apply_updates env (Suc i) us (with_processes m f) = (r, m')" using Cons.prems rw u by simp
    then show ?thesis using Cons.IH stops_trans [OF with_processes_stops] by blast
  qed
qed simp

lemma reconcile_stops: "reconcile_process_records env m = (r, m') \<Longrightarrow> stops m m'"
  unfolding reconcile_process_records_def
  by (auto split: option.splits prod.splits dest!: collect_sends sends_stops apply_updates_stops intro: stops_trans)

lemma kill_stops: "kill_process_group_from_metadata env pid sig m = (r, m') \<Longrightarrow> stops m m'"
proof -
  have "stops m (m\<lparr>mg_killed := mg_killed m @ ks\<rparr>)" for ks
    unfolding stops_def by (rule exI [of _ "processes_tsv (mg_files m)"], rule exI [of _ "[]"], rule exI [of _ ks], rule exI [of _ "mg_shutdown m"]) simp
  then show "kill_process_group_from_metadata env pid sig m = (r, m') \<Longrightarrow> stops m m'"
    unfolding kill_process_group_from_metadata_def by (auto simp: Let_def split: sum.splits option.splits if_splits)
qed

lemma target_signal_stops: "shutdown_target_signal env t sig m = (r, m') \<Longrightarrow> stops m m'"
  unfolding shutdown_target_signal_def
  by (auto split: prod.splits sum.splits dest!: signal_sends sends_stops kill_stops intro: stops_trans)

lemma collect_targets_stops: "collect_shutdown_targets env c ts ps m = (r, m') \<Longrightarrow> stops m m'"
proof (induction env c ts ps m rule: collect_shutdown_targets.induct)
  case (2 env c ts p ps m)
  obtain q m1 where q: "refresh_observed_process_state env m p = (q, m1)" by (rule prod.exhaust)
  have "stops m m1" using q refresh_sends sends_stops by blast
  moreover have "stops m1 m'" using 2 q by (auto simp: Let_def split: if_splits)
  ultimately show ?case by (rule stops_trans)
qed auto

lemma refresh_targets_stops: "refresh_shutdown_targets env ts m = (us, m') \<Longrightarrow> stops m m'"
proof (induction ts arbitrary: m us)
  case (Cons t ts)
  show ?case
  proof (cases "st_terminal t")
    case True
    then show ?thesis using Cons by (auto split: prod.splits)
  next
    case False
    obtain s m1 where s: "process_observed_state env m (st_process t) = (s, m1)" by (rule prod.exhaust)
    obtain vs m2 where v: "refresh_shutdown_targets env ts m1 = (vs, m2)" by (rule prod.exhaust)
    have "stops m m1" using s observed_sends sends_stops by blast
    moreover have "m' = m2" using Cons.prems False s v by auto
    ultimately show ?thesis using Cons.IH v stops_trans by blast
  qed
qed simp

lemma wait_targets_stops: "wait_for_shutdown_targets env n ts m = (us, m') \<Longrightarrow> stops m m'"
proof (induction n arbitrary: ts m)
  case 0
  then show ?case by (auto simp: wait_for_shutdown_targets.simps split: prod.splits if_splits dest: refresh_targets_stops)
next
  case (Suc n)
  obtain vs m1 where v: "refresh_shutdown_targets env ts m = (vs, m1)" by (rule prod.exhaust)
  then have "m1 = m' \<or> wait_for_shutdown_targets env n vs m1 = (us, m')"
    using Suc.prems by (subst (asm) wait_for_shutdown_targets.simps) (auto split: if_splits)
  then show ?case using refresh_targets_stops [OF v] Suc.IH stops_trans by blast
qed

lemma signal_targets_stops: "signal_targets env sig a ts m = (n, m') \<Longrightarrow> stops m m'"
proof (induction ts arbitrary: m n m')
  case (Cons t ts)
  obtain r m1 where r: "shutdown_target_signal env t sig m = (r, m1)" by (rule prod.exhaust)
  obtain k m2 where k: "signal_targets env sig a ts m1 = (k, m2)" by (rule prod.exhaust)
  show ?case
    using Cons.prems r k Cons.IH [OF k] Cons.IH [of m] target_signal_stops [OF r] stops_trans
    by (cases "a \<and> st_terminal t") auto
qed simp

lemma stop_managed_stops: "stop_managed_processes_for_shutdown env m = (r, m') \<Longrightarrow> stops m m'"
proof -
  assume r: "stop_managed_processes_for_shutdown env m = (r, m')"
  obtain c m1 where c: "collect_shutdown_targets env 0 [] (process_records (processes_tsv (mg_files m))) m = (c, m1)" by (rule prod.exhaust)
  show ?thesis
  proof (cases c)
    case (Inl e)
    then show ?thesis using r c collect_targets_stops [OF c] by (simp add: stop_managed_processes_for_shutdown_def)
  next
    case (Inr ts)
    obtain f1 m2 where f1: "signal_targets env SIGTERM False ts m1 = (f1, m2)" by (rule prod.exhaust)
    obtain ts1 m3 where w1: "wait_for_shutdown_targets env 40 ts m2 = (ts1, m3)" by (rule prod.exhaust)
    obtain f2 n1 where f2: "signal_targets env SIGKILL True ts1 m3 = (f2, n1)" by (rule prod.exhaust)
    obtain us n2 where w2: "wait_for_shutdown_targets env 40 ts1 n1 = (us, n2)" by (rule prod.exhaust)
    have "stops m m3" using collect_targets_stops [OF c] signal_targets_stops [OF f1] wait_targets_stops [OF w1] stops_trans by blast
    moreover have "stops m3 n2" using signal_targets_stops [OF f2] wait_targets_stops [OF w2] stops_trans by blast
    moreover have "stops m3 (snd (reconcile_process_records env m3))" "stops n2 (snd (reconcile_process_records env n2))"
      using reconcile_stops by (metis prod.collapse)+
    moreover have "m' = snd (reconcile_process_records env (if terminal_count ts1 < length ts1 then n2 else m3))"
      using r c Inr f1 w1 f2 w2 by (auto simp: stop_managed_processes_for_shutdown_def Let_def)
    ultimately show ?thesis using stops_trans by presburger
  qed
qed

lemma shutdown_stops: "manager_shutdown env params m = (r, m') \<Longrightarrow> stops m m'"
proof -
  have "stops m (m\<lparr>mg_shutdown := True\<rparr>)" for m
    unfolding stops_def by (rule exI [of _ "processes_tsv (mg_files m)"], rule exI [of _ "[]"], rule exI [of _ "[]"], rule exI [of _ True]) simp
  then show "manager_shutdown env params m = (r, m') \<Longrightarrow> stops m m'"
    unfolding manager_shutdown_def
    by (auto simp: Let_def split: sum.splits prod.splits if_splits dest!: stop_managed_stops intro: stops_trans)
qed

lemma manager_reconcile_stops: "manager_reconcile env m = (r, m') \<Longrightarrow> stops m m'"
  unfolding manager_reconcile_def by (auto split: prod.splits sum.splits dest: reconcile_stops)

definition public_methods :: "bytes list" where
  "public_methods =
     [''auth.challenge'', ''auth.authenticate'', ''auth.resume'', ''session.local_bootstrap'', ''manager.ping'',
      ''manager.status'', ''manager.shutdown'', ''manager.reconcile'', ''events.subscribe'', ''events.list'']"

text \<open>What a method gives a client: nothing, or no more than the public methods give.\<close>

definition given_nothing :: "connection \<Rightarrow> manager \<Rightarrow> handled \<Rightarrow> bool" where
  "given_nothing conn m h \<longleftrightarrow> (\<forall>r conn' m'. h = Some (r, conn', m') \<longrightarrow> refused r \<and> conn' = conn \<and> sends m m')"

lemma given_nothing_if:
  "(c \<Longrightarrow> given_nothing conn m a) \<Longrightarrow> given_nothing conn m b \<Longrightarrow> given_nothing conn m (if c then a else b)"
  by simp

lemma given_nothing_simps:
  "given_nothing conn m (only_reply conn m r) \<longleftrightarrow> refused r"
  "given_nothing conn m (with_manager conn p) \<longleftrightarrow> (\<forall>r m'. p = (r, m') \<longrightarrow> refused r \<and> sends m m')"
  "given_nothing conn m (with_connection m q) \<longleftrightarrow> (\<forall>r conn'. q = (r, conn') \<longrightarrow> refused r \<and> conn' = conn)"
  "given_nothing conn m (Option.bind w (with_manager conn)) \<longleftrightarrow> (\<forall>r m'. w = Some (r, m') \<longrightarrow> refused r \<and> sends m m')"
  by (auto simp: given_nothing_def only_reply_def with_manager_def with_connection_def bind_eq_Some_conv split: prod.splits)

lemma stranger_given_nothing:
  assumes s: "stranger env (mg_files m) conn" and np: "meth \<notin> set public_methods"
  shows "given_nothing conn m (manager_dispatch env mid meth params conn m)"
proof -
  have public: "given_nothing conn m x" if "meth = p" "p \<in> set public_methods" for p x using np that by simp
  note replies = stranger_replies [OF s] stranger_lists(1) [OF s]
    and handlers = stranger_lists(2,3) [OF s] stranger_handlers [OF s] stranger_key_handlers [OF s]
  show ?thesis
    unfolding manager_dispatch_def
    by (intro given_nothing_if)
      ((erule public, (simp add: public_methods_def; fail))
        | (fastforce simp: given_nothing_simps replies dest: handlers))+
qed

lemma authenticate_links: "auth_authenticate env conn params ss = (r, conn', ss') \<Longrightarrow> cn_links conn' = cn_links conn"
proof -
  have create: "cn_links conn' = cn_links conn" if "create_authenticated_session env conn k = (r', conn')" for k r' conn'
    using that by (auto simp: create_authenticated_session_def Let_def split: sum.splits prod.splits)
  show "auth_authenticate env conn params ss = (r, conn', ss') \<Longrightarrow> cn_links conn' = cn_links conn"
    unfolding auth_authenticate_def
    by (auto split: option.splits sum.splits if_splits prod.splits dest: create)
qed

lemma challenge_links: "auth_challenge env conn params = (r, conn') \<Longrightarrow> cn_links conn' = cn_links conn"
  by (auto simp: auth_challenge_def split: sum.splits)

lemma resume_links: "auth_resume_request env conn params ss = (r, conn') \<Longrightarrow> cn_links conn' = cn_links conn"
  by (auto simp: auth_resume_request_def resumed_connection_def split: sum.splits)

lemma stops_facts:
  assumes "stops m m'"
  shows "\<exists>f. mg_files m' = (mg_files m)\<lparr>processes_tsv := f\<rparr>" "mg_launched m' = mg_launched m" "mg_removed m' = mg_removed m"
  using assms by (auto simp: stops_def)

lemma public_dispatch_simps:
  "manager_dispatch env mid ''auth.challenge'' params conn m = with_connection m (auth_challenge env conn params)"
  "manager_dispatch env mid ''auth.authenticate'' params conn m =
     (case auth_authenticate env conn params (mg_sessions m) of (r, c, ss) \<Rightarrow> Some (r, c, m\<lparr>mg_sessions := ss\<rparr>))"
  "manager_dispatch env mid ''auth.resume'' params conn m = with_connection m (auth_resume_request env conn params (mg_sessions m))"
  "manager_dispatch env mid ''session.local_bootstrap'' params conn m = only_reply conn m (session_local_bootstrap env mid conn)"
  "manager_dispatch env mid ''manager.ping'' params conn m = only_reply conn m (manager_ping env mid)"
  "manager_dispatch env mid ''manager.status'' params conn m = only_reply conn m (manager_status env mid m)"
  "manager_dispatch env mid ''manager.shutdown'' params conn m = with_manager conn (manager_shutdown env params m)"
  "manager_dispatch env mid ''manager.reconcile'' params conn m = with_manager conn (manager_reconcile env m)"
  "manager_dispatch env mid ''events.subscribe'' params conn m = only_reply conn m (events_subscribe env conn params m)"
  "manager_dispatch env mid ''events.list'' params conn m = only_reply conn m (events_list env conn params m)"
  by (simp_all add: manager_dispatch_def)

definition confined :: "bytes \<Rightarrow> connection \<Rightarrow> manager \<Rightarrow> handled \<Rightarrow> bool" where
  "confined meth conn m h \<longleftrightarrow> (\<forall>r conn' m'. h = Some (r, conn', m') \<longrightarrow>
     (meth \<notin> {''manager.shutdown'', ''manager.reconcile''} \<longrightarrow> mg_files m' = mg_files m)
     \<and> (\<exists>f. mg_files m' = (mg_files m)\<lparr>processes_tsv := f\<rparr>)
     \<and> mg_launched m' = mg_launched m \<and> mg_removed m' = mg_removed m \<and> cn_links conn' = cn_links conn)"

lemma confined_same: "\<exists>f. x = x\<lparr>processes_tsv := f\<rparr>" for x :: manager_files
  by (rule exI [of _ "processes_tsv x"]) simp

lemma confined_only_reply: "confined meth conn m (only_reply conn m r)"
  by (simp add: confined_def only_reply_def confined_same)

lemma confined_with_connection:
  "(\<And>r conn'. q = (r, conn') \<Longrightarrow> cn_links conn' = cn_links conn) \<Longrightarrow> confined meth conn m (with_connection m q)"
  by (cases q) (simp add: confined_def with_connection_def confined_same)

lemma confined_with_manager:
  "(\<And>r m'. p = (r, m') \<Longrightarrow> stops m m') \<Longrightarrow> meth \<in> {''manager.shutdown'', ''manager.reconcile''}
    \<Longrightarrow> confined meth conn m (with_manager conn p)"
  using stops_facts [of m "snd p"] by (cases p) (simp add: confined_def with_manager_def)

lemma public_dispatch:
  assumes "meth \<in> set public_methods"
  shows "confined meth conn m (manager_dispatch env mid meth params conn m)"
proof -
  have a: "confined x conn m (case auth_authenticate env conn params ss of (r, c, ss) \<Rightarrow> Some (r, c, m\<lparr>mg_sessions := ss\<rparr>))" for x ss
    using authenticate_links [of env conn params ss]
    by (cases "auth_authenticate env conn params ss") (simp add: confined_def confined_same)
  from assms show ?thesis
    unfolding public_methods_def
    by (simp only: list.set insert_iff empty_iff simp_thms, elim disjE)
      (simp only: public_dispatch_simps confined_only_reply, (rule confined_with_connection confined_with_manager a; auto
        dest: challenge_links resume_links shutdown_stops manager_reconcile_stops)?)+
qed



end
