(* ===== verification/Terminal_Model.thy ===== *)
theory Terminal_Model
  imports Utf8
begin

text \<open>
  The terminal behind a process's screen (\<open>src/src/common/terminal_model.c\<close>): a wrapper around
  libvterm, which is a parameter. A call of libvterm may call back into the wrapper, and what
  a callback returns may change how the call goes on: a call is a tree of callbacks. A write
  outside an array is the value \<open>None\<close>.
\<close>

unbundle bit_operations_syntax

abbreviation ESC :: char where "ESC \<equiv> CHR 0x1B"

section \<open>libvterm\<close>

datatype color_kind = ColorIndexed "8 word" | ColorRgb "8 word" "8 word" "8 word"

record vterm_color =
  vc_kind :: color_kind
  vc_default_fg :: bool
  vc_default_bg :: bool

record screen_cell =
  sc_chars :: "32 word list"
  sc_bold :: bool
  sc_underline :: nat
  sc_italic :: bool
  sc_blink :: bool
  sc_reverse :: bool
  sc_conceal :: bool
  sc_strike :: bool
  sc_fg :: vterm_color
  sc_bg :: vterm_color

text \<open>
  The callbacks, with the arguments the wrapper reads. \<open>SetTermProp\<close> has a value when the
  property is the visibility of the cursor; \<open>Output\<close> is what the terminal answers.
\<close>

datatype callback =
    Damage int int
  | MoveRect
  | MoveCursor bool
  | SetTermProp "bool option"
  | Bell
  | Resize int int
  | PushLine int "screen_cell list option"
  | PopLine int
  | ClearLines
  | Output bytes

datatype callback_reply = Returned bool | Popped "screen_cell list"

datatype 'v vterm_run = Finished nat 'v | Invoke callback "callback_reply \<Rightarrow> 'v vterm_run"

record 'v vterm =
  vt_new :: "nat \<Rightarrow> nat \<Rightarrow> 'v option"
  vt_configure :: "'v \<Rightarrow> 'v"
  vt_reset :: "'v \<Rightarrow> 'v vterm_run"
  vt_set_size :: "nat \<Rightarrow> nat \<Rightarrow> 'v \<Rightarrow> 'v vterm_run"
  vt_input_write :: "bytes \<Rightarrow> 'v \<Rightarrow> 'v vterm_run"
  vt_flush_damage :: "'v \<Rightarrow> 'v vterm_run"
  vt_get_cell :: "nat \<Rightarrow> nat \<Rightarrow> 'v \<Rightarrow> screen_cell option"
  vt_cursorpos :: "'v \<Rightarrow> int \<times> int"

section \<open>The model's state\<close>

record terminal_cell =
  ct_text :: bytes
  ct_sgr :: bytes

text \<open>\<open>cells\<close> is \<open>None\<close> for a slot whose pointer is NULL.\<close>

record scrollback_line =
  sl_cols :: nat
  sl_cells :: "terminal_cell list option"

record 'v terminal_model =
  tm_term :: 'v
  tm_rows :: nat
  tm_cols :: nat
  tm_cursor_visible :: bool
  tm_application_cursor :: bool
  tm_input_tail :: bytes
  tm_dirty_rows :: "bool list"
  tm_response :: bytes
  tm_scrollback :: "(int \<times> screen_cell list) list"
  tm_scrollback_capacity :: nat
  tm_captured :: "scrollback_line list"
  tm_captured_head :: nat
  tm_captured_count :: nat
  tm_capture_limit :: nat

definition empty_line :: scrollback_line where
  "empty_line = \<lparr>sl_cols = 0, sl_cells = None\<rparr>"

section \<open>Cells\<close>

definition utf8_bytes :: "32 word \<Rightarrow> bytes" where
  "utf8_bytes cp =
     (if cp < 0x80 then [char_of (unat cp)]
      else if cp < 0x800 then [char_of (unat (0xc0 OR drop_bit 6 cp)), char_of (unat (0x80 OR (cp AND 0x3f)))]
      else if cp < 0x10000 then
        [char_of (unat (0xe0 OR drop_bit 12 cp)), char_of (unat (0x80 OR (drop_bit 6 cp AND 0x3f))),
         char_of (unat (0x80 OR (cp AND 0x3f)))]
      else if cp \<le> 0x10ffff then
        [char_of (unat (0xf0 OR drop_bit 18 cp)), char_of (unat (0x80 OR (drop_bit 12 cp AND 0x3f))),
         char_of (unat (0x80 OR (drop_bit 6 cp AND 0x3f))), char_of (unat (0x80 OR (cp AND 0x3f)))]
      else [])"

definition append_utf8 :: "nat \<Rightarrow> bytes \<Rightarrow> 32 word \<Rightarrow> bytes" where
  "append_utf8 capacity used cp =
     (if cp = 0 then used
      else if length used + length (utf8_bytes cp) < capacity then used @ utf8_bytes cp else used)"

text \<open>\<open>VTERM_MAX_CHARS_PER_CELL\<close> is 6; a cell's list of characters has this length.\<close>

definition cell_text_from_vterm :: "screen_cell \<Rightarrow> bytes" where
  "cell_text_from_vterm source =
     (let t = foldl (append_utf8 32) [] (sc_chars source) in if t = [] then '' '' else t)"

definition append_sgr :: "nat \<Rightarrow> bytes \<Rightarrow> bytes \<Rightarrow> bytes result" where
  "append_sgr capacity used t = (if length t \<ge> capacity - length used then Inl ENOSPC else Inr (used @ t))"

definition append_sgr_number :: "bool \<Rightarrow> nat \<Rightarrow> bytes \<Rightarrow> bytes result" where
  "append_sgr_number wanted n used = (if wanted then append_sgr 96 used ('';'' @ show_nat n) else Inr used)"

definition append_sgr_color :: "bytes \<Rightarrow> vterm_color \<Rightarrow> bytes \<Rightarrow> bytes result" where
  "append_sgr_color prefix color used =
     (case vc_kind color of
        ColorIndexed idx \<Rightarrow> append_sgr 96 used (prefix @ ''5;'' @ show_nat (unat idx))
      | ColorRgb r g b \<Rightarrow>
          append_sgr 96 used (prefix @ ''2;'' @ show_nat (unat r) @ '';'' @ show_nat (unat g) @ '';'' @ show_nat (unat b)))"

definition cell_sgr_from_vterm :: "screen_cell \<Rightarrow> bytes result" where
  "cell_sgr_from_vterm source =
     (if \<not> sc_bold source \<and> sc_underline source = 0 \<and> \<not> sc_italic source \<and> \<not> sc_blink source \<and> \<not> sc_reverse source
         \<and> \<not> sc_conceal source \<and> \<not> sc_strike source \<and> vc_default_fg (sc_fg source) \<and> vc_default_bg (sc_bg source)
      then Inr []
      else
        rbind (append_sgr 96 [] (ESC # ''[0'')) (\<lambda>u.
        rbind (append_sgr_number (sc_bold source) 1 u) (\<lambda>u.
        rbind (append_sgr_number (sc_italic source) 3 u) (\<lambda>u.
        rbind (append_sgr_number (sc_underline source \<noteq> 0) 4 u) (\<lambda>u.
        rbind (append_sgr_number (sc_blink source) 5 u) (\<lambda>u.
        rbind (append_sgr_number (sc_reverse source) 7 u) (\<lambda>u.
        rbind (append_sgr_number (sc_conceal source) 8 u) (\<lambda>u.
        rbind (append_sgr_number (sc_strike source) 9 u) (\<lambda>u.
        rbind (if vc_default_fg (sc_fg source) then Inr u else append_sgr_color '';38;'' (sc_fg source) u) (\<lambda>u.
        rbind (if vc_default_bg (sc_bg source) then Inr u else append_sgr_color '';48;'' (sc_bg source) u) (\<lambda>u.
        if length u + 1 \<ge> 96 then Inl ENOSPC else Inr (u @ ''m''))))))))))))"

definition terminal_cell_of :: "screen_cell \<Rightarrow> terminal_cell result" where
  "terminal_cell_of source =
     rbind (cell_sgr_from_vterm source) (\<lambda>sgr. Inr \<lparr>ct_text = cell_text_from_vterm source, ct_sgr = sgr\<rparr>)"

fun terminal_cells_of :: "screen_cell list \<Rightarrow> terminal_cell list result" where
  "terminal_cells_of [] = Inr []"
| "terminal_cells_of (c # cs) = rbind (terminal_cell_of c) (\<lambda>t. rbind (terminal_cells_of cs) (\<lambda>ts. Inr (t # ts)))"

section \<open>Scrollback\<close>

definition clear_scrollback :: "'v terminal_model \<Rightarrow> 'v terminal_model" where
  "clear_scrollback m = m\<lparr>tm_scrollback := [], tm_scrollback_capacity := 0\<rparr>"

text \<open>The slots of the ring from the head on, \<open>n\<close> of them.\<close>

definition ring_slots :: "'v terminal_model \<Rightarrow> nat \<Rightarrow> nat list" where
  "ring_slots m n = map (\<lambda>i. (tm_captured_head m + i) mod length (tm_captured m)) [0..<n]"

definition empty_slots :: "nat list \<Rightarrow> scrollback_line list \<Rightarrow> scrollback_line list" where
  "empty_slots slots ring = foldl (\<lambda>r i. r[i := empty_line]) ring slots"

definition clear_captured_scrollback :: "'v terminal_model \<Rightarrow> 'v terminal_model" where
  "clear_captured_scrollback m =
     m\<lparr>tm_captured := empty_slots (ring_slots m (tm_captured_count m)) (tm_captured m),
       tm_captured_head := 0, tm_captured_count := 0\<rparr>"

definition free_captured_scrollback :: "'v terminal_model \<Rightarrow> 'v terminal_model" where
  "free_captured_scrollback m = (clear_captured_scrollback m)\<lparr>tm_captured := [], tm_capture_limit := 0\<rparr>"

text \<open>\<open>alloc n\<close>: an array of \<open>n\<close> elements can be had. The array of the ring has its capacity as length.\<close>

definition capture_scrollback_line ::
    "(nat \<Rightarrow> bool) \<Rightarrow> int \<Rightarrow> screen_cell list option \<Rightarrow> 'v terminal_model \<Rightarrow> bool \<times> 'v terminal_model" where
  "capture_scrollback_line alloc cols cells m =
     (if tm_capture_limit m = 0 \<or> cols \<le> 0 \<or> cells = None then (True, m)
      else if length (tm_captured m) = 0 then (False, m)
      else if \<not> alloc (nat cols) then (False, m)
      else case terminal_cells_of (take (nat cols) (the cells)) of
        Inl _ \<Rightarrow> (False, m)
      | Inr copy \<Rightarrow>
          (let line = \<lparr>sl_cols = nat cols, sl_cells = Some copy\<rparr>; n = length (tm_captured m) in
           if tm_captured_count m = n then
             (True, m\<lparr>tm_captured := (tm_captured m)[tm_captured_head m := line],
                tm_captured_head := (tm_captured_head m + 1) mod n\<rparr>)
           else
             (True, m\<lparr>tm_captured := (tm_captured m)[(tm_captured_head m + tm_captured_count m) mod n := line],
                tm_captured_count := tm_captured_count m + 1\<rparr>)))"

definition save_scrollback_line ::
    "(nat \<Rightarrow> bool) \<Rightarrow> int \<Rightarrow> screen_cell list option \<Rightarrow> 'v terminal_model \<Rightarrow> bool \<times> 'v terminal_model" where
  "save_scrollback_line alloc cols cells m =
     (if cols \<le> 0 \<or> cells = None \<or> \<not> alloc (nat cols) then (False, m)
      else
        let full = (length (tm_scrollback m) = tm_scrollback_capacity m);
            capacity = (if \<not> full then tm_scrollback_capacity m
                        else if tm_scrollback_capacity m = 0 then 64 else tm_scrollback_capacity m * 2) in
        if full \<and> \<not> alloc capacity then (False, m)
        else (True, m\<lparr>tm_scrollback := tm_scrollback m @ [(cols, take (nat cols) (the cells))], tm_scrollback_capacity := capacity\<rparr>))"

text \<open>Lines of another width are dropped from the end until one of the width is found.\<close>

definition restore_scrollback_line :: "int \<Rightarrow> 'v terminal_model \<Rightarrow> screen_cell list option \<times> 'v terminal_model" where
  "restore_scrollback_line cols m =
     (if cols \<le> 0 then (None, m)
      else
        case dropWhile (\<lambda>l. fst l \<noteq> cols) (rev (tm_scrollback m)) of
          [] \<Rightarrow> (None, m\<lparr>tm_scrollback := []\<rparr>)
        | l # ls \<Rightarrow> (Some (snd l), m\<lparr>tm_scrollback := rev ls\<rparr>))"

section \<open>The callbacks\<close>

text \<open>\<open>dirty_rows\<close> has 1000 elements. The rows that \<open>track_damage\<close> marks, and the failure to do so.\<close>

definition mark_rows :: "nat \<Rightarrow> nat \<Rightarrow> bool list \<Rightarrow> bool list option" where
  "mark_rows start end dirty =
     (if start < end \<and> end > length dirty then None
      else Some (map (\<lambda>i. start \<le> i \<and> i < end \<or> dirty ! i) [0..<length dirty]))"

definition track_damage :: "int \<Rightarrow> int \<Rightarrow> 'v terminal_model \<Rightarrow> 'v terminal_model option" where
  "track_damage start_row end_row m =
     map_option (\<lambda>d. m\<lparr>tm_dirty_rows := d\<rparr>)
       (mark_rows (nat start_row) (nat (min end_row (int (tm_rows m)))) (tm_dirty_rows m))"

definition capture_response :: "bytes \<Rightarrow> 'v terminal_model \<Rightarrow> 'v terminal_model" where
  "capture_response data m = m\<lparr>tm_response := tm_response m @ take (4096 - length (tm_response m)) data\<rparr>"

fun handle_callback ::
    "(nat \<Rightarrow> bool) \<Rightarrow> callback \<Rightarrow> 'v terminal_model \<Rightarrow> (callback_reply \<times> 'v terminal_model) option" where
  "handle_callback alloc (Damage start_row end_row) m = map_option (Pair (Returned True)) (track_damage start_row end_row m)"
| "handle_callback alloc MoveRect m = Some (Returned True, m)"
| "handle_callback alloc (MoveCursor visible) m = Some (Returned True, m\<lparr>tm_cursor_visible := visible\<rparr>)"
| "handle_callback alloc (SetTermProp v) m =
     Some (Returned True, case v of None \<Rightarrow> m | Some visible \<Rightarrow> m\<lparr>tm_cursor_visible := visible\<rparr>)"
| "handle_callback alloc Bell m = Some (Returned True, m)"
| "handle_callback alloc (Resize rows cols) m =
     Some (Returned True, m\<lparr>tm_rows := nat (rows mod 2 ^ 32), tm_cols := nat (cols mod 2 ^ 32)\<rparr>)"
| "handle_callback alloc (PushLine cols cells) m =
     (let (saved, m1) = save_scrollback_line alloc cols cells m; (captured, m2) = capture_scrollback_line alloc cols cells m1 in
      Some (Returned (saved \<and> captured), m2))"
| "handle_callback alloc (PopLine cols) m =
     (case restore_scrollback_line cols m of
        (None, m') \<Rightarrow> Some (Returned False, m')
      | (Some cells, m') \<Rightarrow> Some (Popped cells, m'))"
| "handle_callback alloc ClearLines m = Some (Returned True, clear_scrollback m)"
| "handle_callback alloc (Output data) m = Some (Returned True, capture_response data m)"

primrec call_vterm :: "(nat \<Rightarrow> bool) \<Rightarrow> 'v vterm_run \<Rightarrow> 'v terminal_model \<Rightarrow> (nat \<times> 'v terminal_model) option" where
  "call_vterm alloc (Finished n v) m = Some (n, m\<lparr>tm_term := v\<rparr>)"
| "call_vterm alloc (Invoke c k) m =
     (case handle_callback alloc c m of None \<Rightarrow> None | Some (r, m') \<Rightarrow> call_vterm alloc (k r) m')"

section \<open>The mode of the cursor keys\<close>

text \<open>
  The parameters of a sequence \<open>ESC [ ?\<close> up to its final byte: the new mode when it sets or resets
  mode 1. Numbers wrap at 32 bits.
\<close>

fun mode_scan :: "bytes \<Rightarrow> 32 word \<Rightarrow> bool \<Rightarrow> bool \<Rightarrow> bool option" where
  "mode_scan [] n have_digits has_mode_one = None"
| "mode_scan (c # cs) n have_digits has_mode_one =
     (if is_digit c then mode_scan cs (n * 10 + of_nat (byte c - 48)) True has_mode_one
      else if c = CHR '';'' then mode_scan cs 0 False (has_mode_one \<or> have_digits \<and> n = 1)
      else if c = CHR ''h'' \<or> c = CHR ''l'' then
        (if has_mode_one \<or> have_digits \<and> n = 1 then Some (c = CHR ''h'') else None)
      else if 0x40 \<le> byte c \<and> byte c \<le> 0x7e then None
      else mode_scan cs n have_digits has_mode_one)"

definition mode_at :: "bytes \<Rightarrow> bool option" where
  "mode_at s = (if length s \<ge> 5 \<and> take 3 s = ESC # ''[?'' then mode_scan (drop 3 s) 0 False False else None)"

fun scan_modes :: "bool \<Rightarrow> bytes \<Rightarrow> bool" where
  "scan_modes mode [] = mode"
| "scan_modes mode (c # cs) = scan_modes (case mode_at (c # cs) of None \<Rightarrow> mode | Some b \<Rightarrow> b) cs"

definition last_bytes :: "nat \<Rightarrow> bytes \<Rightarrow> bytes" where
  "last_bytes n s = drop (length s - n) s"

definition track_application_cursor_mode :: "bytes \<Rightarrow> 'v terminal_model \<Rightarrow> 'v terminal_model" where
  "track_application_cursor_mode data m =
     (let buffer = tm_input_tail m @ last_bytes 4096 data in
      m\<lparr>tm_application_cursor := scan_modes (tm_application_cursor m) buffer, tm_input_tail := last_bytes 16 buffer\<rparr>)"

section \<open>The operations\<close>

definition terminal_size_ok :: "nat \<Rightarrow> nat \<Rightarrow> bool" where
  "terminal_size_ok rows cols \<longleftrightarrow> rows \<noteq> 0 \<and> cols \<noteq> 0 \<and> rows \<le> 1000 \<and> cols \<le> 1000"

text \<open>\<open>Some (Inl e)\<close> is a return of -1.\<close>

definition cubicle_terminal_model_create ::
    "'v vterm \<Rightarrow> (nat \<Rightarrow> bool) \<Rightarrow> nat \<Rightarrow> nat \<Rightarrow> ('v terminal_model) result option" where
  "cubicle_terminal_model_create V alloc rows cols =
     (if \<not> terminal_size_ok rows cols then Some (Inl EINVAL)
      else if \<not> alloc 1 then Some (Inl ENOMEM)
      else case vt_new V rows cols of
        None \<Rightarrow> Some (Inl ENOMEM)
      | Some v \<Rightarrow>
          (let v' = vt_configure V v;
               m = \<lparr>tm_term = v', tm_rows = rows, tm_cols = cols, tm_cursor_visible = True, tm_application_cursor = False,
                    tm_input_tail = [], tm_dirty_rows = replicate 1000 False, tm_response = [], tm_scrollback = [],
                    tm_scrollback_capacity = 0, tm_captured = [], tm_captured_head = 0, tm_captured_count = 0,
                    tm_capture_limit = 0\<rparr> in
           case call_vterm alloc (vt_reset V v') m of
             None \<Rightarrow> None
           | Some (_, m') \<Rightarrow>
               map_option (\<lambda>d. Inr (m'\<lparr>tm_dirty_rows := d\<rparr>)) (mark_rows 0 rows (tm_dirty_rows m'))))"

definition cubicle_terminal_model_resize ::
    "'v vterm \<Rightarrow> (nat \<Rightarrow> bool) \<Rightarrow> nat \<Rightarrow> nat \<Rightarrow> 'v terminal_model \<Rightarrow> (unit result \<times> 'v terminal_model) option" where
  "cubicle_terminal_model_resize V alloc rows cols m =
     (if \<not> terminal_size_ok rows cols then Some (Inl EINVAL, m)
      else case call_vterm alloc (vt_set_size V rows cols (tm_term m)) m of
        None \<Rightarrow> None
      | Some (_, m1) \<Rightarrow>
          (let m2 = m1\<lparr>tm_rows := rows, tm_cols := cols\<rparr> in
           case call_vterm alloc (vt_flush_damage V (tm_term m2)) m2 of
             None \<Rightarrow> None
           | Some (_, m3) \<Rightarrow>
               map_option (\<lambda>d. (Inr (), m3\<lparr>tm_dirty_rows := d\<rparr>)) (mark_rows 0 rows (tm_dirty_rows m3))))"

text \<open>libvterm takes a part of the input at a time; a part it does not take is dropped.\<close>

function feed_loop ::
    "'v vterm \<Rightarrow> (nat \<Rightarrow> bool) \<Rightarrow> bytes \<Rightarrow> 'v terminal_model \<Rightarrow> 'v terminal_model option" where
  "feed_loop V alloc data m =
     (if data = [] then Some m
      else case call_vterm alloc (vt_input_write V data (tm_term m)) m of
        None \<Rightarrow> None
      | Some (written, m') \<Rightarrow>
          if written = 0 then Some m'
          else if written > length data then None
          else feed_loop V alloc (drop written data) m')"
  by pat_completeness auto
termination
  by (relation "measure (\<lambda>(V, alloc, data, m). length data)") auto

declare feed_loop.simps [simp del]

definition cubicle_terminal_model_feed ::
    "'v vterm \<Rightarrow> (nat \<Rightarrow> bool) \<Rightarrow> bytes \<Rightarrow> 'v terminal_model \<Rightarrow> 'v terminal_model option" where
  "cubicle_terminal_model_feed V alloc data m =
     (case feed_loop V alloc data (track_application_cursor_mode data m) of
        None \<Rightarrow> None
      | Some m' \<Rightarrow> map_option snd (call_vterm alloc (vt_flush_damage V (tm_term m')) m'))"

definition cubicle_terminal_model_set_scrollback_capture_limit ::
    "(nat \<Rightarrow> bool) \<Rightarrow> nat \<Rightarrow> 'v terminal_model \<Rightarrow> unit result \<times> 'v terminal_model" where
  "cubicle_terminal_model_set_scrollback_capture_limit alloc line_limit m =
     (if line_limit = 0 then (Inr (), free_captured_scrollback m)
      else if \<not> alloc line_limit then (Inl ENOMEM, m)
      else (Inr (), (free_captured_scrollback m)\<lparr>tm_captured := replicate line_limit empty_line, tm_capture_limit := line_limit\<rparr>))"

definition cubicle_terminal_model_take_scrollback ::
    "(nat \<Rightarrow> bool) \<Rightarrow> 'v terminal_model \<Rightarrow> scrollback_line list result \<times> 'v terminal_model" where
  "cubicle_terminal_model_take_scrollback alloc m =
     (if tm_captured_count m = 0 then (Inr [], m)
      else if \<not> alloc (tm_captured_count m) then (Inl ENOMEM, m)
      else
        let slots = ring_slots m (tm_captured_count m) in
        (Inr (map (\<lambda>i. tm_captured m ! i) slots),
         m\<lparr>tm_captured := empty_slots slots (tm_captured m), tm_captured_head := 0, tm_captured_count := 0\<rparr>))"

definition cubicle_terminal_model_get_dirty_rows :: "nat \<Rightarrow> 'v terminal_model \<Rightarrow> bool list result" where
  "cubicle_terminal_model_get_dirty_rows row_count m =
     (if row_count < tm_rows m then Inl EINVAL else Inr (take (tm_rows m) (tm_dirty_rows m)))"

definition cubicle_terminal_model_clear_dirty_rows :: "'v terminal_model \<Rightarrow> 'v terminal_model" where
  "cubicle_terminal_model_clear_dirty_rows m = m\<lparr>tm_dirty_rows := replicate 1000 False\<rparr>"

definition cubicle_terminal_model_take_response :: "nat \<Rightarrow> 'v terminal_model \<Rightarrow> bytes result \<times> 'v terminal_model" where
  "cubicle_terminal_model_take_response buffer_size m =
     (if buffer_size = 0 then (Inl EINVAL, m)
      else (Inr (take buffer_size (tm_response m)), m\<lparr>tm_response := drop buffer_size (tm_response m)\<rparr>))"

datatype terminal_key = KeyUp | KeyDown | KeyLeft | KeyRight

fun key_final :: "terminal_key \<Rightarrow> char" where
  "key_final KeyUp = CHR ''A''"
| "key_final KeyDown = CHR ''B''"
| "key_final KeyRight = CHR ''C''"
| "key_final KeyLeft = CHR ''D''"

definition cubicle_terminal_model_encode_key :: "terminal_key \<Rightarrow> nat \<Rightarrow> 'v terminal_model \<Rightarrow> bytes result" where
  "cubicle_terminal_model_encode_key key buffer_size m =
     (if buffer_size = 0 then Inl EINVAL
      else if buffer_size < 3 then Inl ENOSPC
      else Inr [ESC, if tm_application_cursor m then CHR ''O'' else CHR ''['', key_final key])"

section \<open>Snapshots\<close>

record terminal_snapshot =
  ts_rows :: nat
  ts_cols :: nat
  ts_cursor_row :: nat
  ts_cursor_col :: nat
  ts_cursor_visible :: bool
  ts_application_cursor :: bool
  ts_offset :: "64 word"
  ts_cells :: "terminal_cell list"

definition snapshot_cell :: "'v vterm \<Rightarrow> 'v \<Rightarrow> nat \<Rightarrow> nat \<Rightarrow> terminal_cell result" where
  "snapshot_cell V v row col =
     (case vt_get_cell V row col v of
        None \<Rightarrow> Inr \<lparr>ct_text = '' '', ct_sgr = []\<rparr>
      | Some c \<Rightarrow> terminal_cell_of c)"

fun collect_cells :: "('a \<Rightarrow> terminal_cell result) \<Rightarrow> 'a list \<Rightarrow> terminal_cell list result" where
  "collect_cells f [] = Inr []"
| "collect_cells f (x # xs) = rbind (f x) (\<lambda>t. rbind (collect_cells f xs) (\<lambda>ts. Inr (t # ts)))"

definition grid :: "nat \<Rightarrow> nat \<Rightarrow> (nat \<times> nat) list" where
  "grid rows cols = [(r, c). r \<leftarrow> [0..<rows], c \<leftarrow> [0..<cols]]"

definition cubicle_terminal_model_snapshot ::
    "'v vterm \<Rightarrow> (nat \<Rightarrow> bool) \<Rightarrow> 64 word \<Rightarrow> 'v terminal_model \<Rightarrow> terminal_snapshot result" where
  "cubicle_terminal_model_snapshot V alloc offset m =
     (if \<not> alloc (tm_rows m * tm_cols m) then Inl ENOMEM
      else
        rbind (collect_cells (\<lambda>(r, c). snapshot_cell V (tm_term m) r c) (grid (tm_rows m) (tm_cols m))) (\<lambda>cells.
        Inr \<lparr>ts_rows = tm_rows m, ts_cols = tm_cols m, ts_cursor_row = nat (fst (vt_cursorpos V (tm_term m))),
             ts_cursor_col = nat (snd (vt_cursorpos V (tm_term m))), ts_cursor_visible = tm_cursor_visible m,
             ts_application_cursor = tm_application_cursor m, ts_offset = offset, ts_cells = cells\<rparr>))"

text \<open>
  The sequences that restore a snapshot, each fed on its own: every row from its first column, with
  the attributes where they change, and the position of the cursor.
\<close>

fun restore_cells :: "bytes \<Rightarrow> terminal_cell list \<Rightarrow> bytes list \<times> bytes" where
  "restore_cells active [] = ([], active)"
| "restore_cells active (c # cs) =
     (let sgr = (if active \<noteq> ct_sgr c then [if ct_sgr c = [] then ESC # ''[0m'' else ct_sgr c] else []);
          (rest, active') = restore_cells (ct_sgr c) cs in
      (sgr @ [if ct_text c = [] then '' '' else ct_text c] @ rest, active'))"

fun restore_rows :: "nat \<Rightarrow> nat \<Rightarrow> bytes \<Rightarrow> nat \<Rightarrow> terminal_cell list \<Rightarrow> bytes list" where
  "restore_rows 0 row active cols cells = []"
| "restore_rows (Suc n) row active cols cells =
     (let (line, active') = restore_cells active (take cols cells) in
      [ESC # ''['' @ show_nat (row + 1) @ '';1H''] @ line @ restore_rows n (row + 1) active' cols (drop cols cells))"

definition restore_sequences :: "terminal_snapshot \<Rightarrow> bytes list" where
  "restore_sequences s =
     restore_rows (ts_rows s) 0 [] (ts_cols s) (ts_cells s)
     @ [ESC # ''['' @ show_nat ((ts_cursor_row s + 1) mod 2 ^ 32) @ '';'' @ show_nat ((ts_cursor_col s + 1) mod 2 ^ 32) @ ''H'']
     @ (if ts_application_cursor s then [ESC # ''[?1h''] else [])"

fun feed_all ::
    "'v vterm \<Rightarrow> (nat \<Rightarrow> bool) \<Rightarrow> bytes list \<Rightarrow> 'v terminal_model \<Rightarrow> 'v terminal_model option" where
  "feed_all V alloc [] m = Some m"
| "feed_all V alloc (s # ss) m =
     (case cubicle_terminal_model_feed V alloc s m of None \<Rightarrow> None | Some m' \<Rightarrow> feed_all V alloc ss m')"

text \<open>Loading reads a cell for every place of the screen; the cells must be there.\<close>

definition cubicle_terminal_model_load_snapshot ::
    "'v vterm \<Rightarrow> (nat \<Rightarrow> bool) \<Rightarrow> terminal_snapshot \<Rightarrow> 'v terminal_model \<Rightarrow> (unit result \<times> 'v terminal_model) option" where
  "cubicle_terminal_model_load_snapshot V alloc s m =
     (if \<not> terminal_size_ok (ts_rows s) (ts_cols s) then Some (Inl EINVAL, m)
      else if length (ts_cells s) < ts_rows s * ts_cols s then None
      else case cubicle_terminal_model_resize V alloc (ts_rows s) (ts_cols s) (clear_captured_scrollback (clear_scrollback m)) of
        None \<Rightarrow> None
      | Some (Inl e, m1) \<Rightarrow> Some (Inl e, m1)
      | Some (Inr _, m1) \<Rightarrow>
          (case call_vterm alloc (vt_reset V (tm_term m1)) m1 of
             None \<Rightarrow> None
           | Some (_, m2) \<Rightarrow>
               (case feed_all V alloc (restore_sequences s) m2 of
                  None \<Rightarrow> None
                | Some m3 \<Rightarrow>
                    map_option (\<lambda>d. (Inr (), m3\<lparr>tm_cursor_visible := ts_cursor_visible s, tm_dirty_rows := d\<rparr>))
                      (mark_rows 0 (tm_rows m3) (tm_dirty_rows m3)))))"

section \<open>Cells fit their buffers\<close>

lemma length_utf8_bytes: "length (utf8_bytes cp) \<le> 4"
  by (simp add: utf8_bytes_def)

lemma append_utf8_foldl:
  "length used + 4 * length cps < capacity \<Longrightarrow>
    foldl (append_utf8 capacity) used cps = used @ concat (map (\<lambda>cp. if cp = 0 then [] else utf8_bytes cp) cps)"
proof (induction cps arbitrary: used)
  case (Cons cp cps)
  have "length used + length (utf8_bytes cp) < capacity" using Cons.prems length_utf8_bytes [of cp] by simp
  then show ?case using Cons.IH [of "append_utf8 capacity used cp"] Cons.prems length_utf8_bytes [of cp]
    by (auto simp: append_utf8_def)
qed simp

definition screen_cell_ok :: "screen_cell \<Rightarrow> bool" where
  "screen_cell_ok c \<longleftrightarrow> length (sc_chars c) = 6"

definition terminal_cell_ok :: "terminal_cell \<Rightarrow> bool" where
  "terminal_cell_ok c \<longleftrightarrow> ct_text c \<noteq> [] \<and> length (ct_text c) < 32 \<and> length (ct_sgr c) < 96"

lemma cell_text_ok:
  assumes "screen_cell_ok c"
  shows "cell_text_from_vterm c \<noteq> []" "length (cell_text_from_vterm c) < 32"
proof -
  have "length (concat (map (\<lambda>cp. if cp = 0 then [] else utf8_bytes cp) cps)) \<le> 4 * length cps" for cps
  proof (induction cps)
    case (Cons cp cps)
    then show ?case using length_utf8_bytes [of cp] by auto
  qed simp
  from this [of "sc_chars c"] show "cell_text_from_vterm c \<noteq> []" "length (cell_text_from_vterm c) < 32"
    using assms append_utf8_foldl [of "[]" "sc_chars c" 32] by (auto simp: cell_text_from_vterm_def screen_cell_ok_def Let_def)
qed

text \<open>A step of building a sequence succeeds and leaves at most a number of bytes.\<close>

definition within :: "nat \<Rightarrow> bytes result \<Rightarrow> bool" where
  "within n x \<longleftrightarrow> (\<exists>u. x = Inr u \<and> length u \<le> n)"

lemma within_rbind: "within n x \<Longrightarrow> (\<And>u. length u \<le> n \<Longrightarrow> within k (f u)) \<Longrightarrow> within k (rbind x f)"
  by (auto simp: within_def)

lemma within_append_sgr: "length u + length t < 96 \<Longrightarrow> length u + length t \<le> n \<Longrightarrow> within n (append_sgr 96 u t)"
  by (simp add: within_def append_sgr_def)

lemma within_number: "k < 10 \<Longrightarrow> length u \<le> l \<Longrightarrow> l < 94 \<Longrightarrow> within (l + 2) (append_sgr_number w k u)"
  using length_show_nat_le [of k 1]
  by (auto simp: append_sgr_number_def within_def append_sgr_def)

lemma length_show_byte: "length (show_nat (unat (w :: 8 word))) \<le> 3"
  using unsigned_less [of w, where 'a = nat] by (intro length_show_nat_le) simp_all

lemma within_color:
  assumes "length u \<le> l" "l < 79" "length prefix = 4"
  shows "within (l + 17) (append_sgr_color prefix color u)"
proof (cases "vc_kind color")
  case (ColorIndexed i)
  then show ?thesis
    using assms length_show_byte [of i] by (simp add: append_sgr_color_def within_append_sgr)
next
  case (ColorRgb r g b)
  then show ?thesis
    using assms length_show_byte [of r] length_show_byte [of g] length_show_byte [of b]
    by (simp add: append_sgr_color_def within_append_sgr)
qed

lemma cell_sgr_ok: "within 52 (cell_sgr_from_vterm c)"
proof -
  let ?color = "\<lambda>d p col u. if d then Inr u else append_sgr_color p col u"
  have c1: "length u \<le> 17 \<Longrightarrow> within 34 (?color d '';38;'' col u)" for d col u
    using within_color [of u 17 "'';38;''" col] by (simp add: within_def)
  have c2: "length u \<le> 34 \<Longrightarrow> within 51 (?color d '';48;'' col u)" for d col u
    using within_color [of u 34 "'';48;''" col] by (simp add: within_def)
  have e: "length u \<le> 51 \<Longrightarrow> within 52 (if length u + 1 \<ge> 96 then Inl ENOSPC else Inr (u @ ''m''))" for u :: bytes
    by (simp add: within_def)
  have s: "within 3 (append_sgr 96 [] (ESC # ''[0''))" by (simp add: within_append_sgr)
  have n: "length u \<le> l \<Longrightarrow> k < 10 \<Longrightarrow> l < 94 \<Longrightarrow> within (l + 2) (append_sgr_number w k u)" for u l k w
    by (rule within_number)
  note n3 = n [of _ 3, simplified] and n5 = n [of _ 5, simplified] and n7 = n [of _ 7, simplified] and n9 = n [of _ 9, simplified]
    and n11 = n [of _ 11, simplified] and n13 = n [of _ 13, simplified] and n15 = n [of _ 15, simplified]
  have "within 52
     (rbind (append_sgr 96 [] (ESC # ''[0'')) (\<lambda>u.
        rbind (append_sgr_number (sc_bold c) 1 u) (\<lambda>u.
        rbind (append_sgr_number (sc_italic c) 3 u) (\<lambda>u.
        rbind (append_sgr_number (sc_underline c \<noteq> 0) 4 u) (\<lambda>u.
        rbind (append_sgr_number (sc_blink c) 5 u) (\<lambda>u.
        rbind (append_sgr_number (sc_reverse c) 7 u) (\<lambda>u.
        rbind (append_sgr_number (sc_conceal c) 8 u) (\<lambda>u.
        rbind (append_sgr_number (sc_strike c) 9 u) (\<lambda>u.
        rbind (?color (vc_default_fg (sc_fg c)) '';38;'' (sc_fg c) u) (\<lambda>u.
        rbind (?color (vc_default_bg (sc_bg c)) '';48;'' (sc_bg c) u) (\<lambda>u.
        if length u + 1 \<ge> 96 then Inl ENOSPC else Inr (u @ ''m''))))))))))))"
    by (rule within_rbind [OF s], rule within_rbind [OF n3], assumption, simp, rule within_rbind [OF n5], assumption, simp,
      rule within_rbind [OF n7], assumption, simp, rule within_rbind [OF n9], assumption, simp,
      rule within_rbind [OF n11], assumption, simp, rule within_rbind [OF n13], assumption, simp,
      rule within_rbind [OF n15], assumption, simp, rule within_rbind [OF c1], assumption,
      rule within_rbind [OF c2], assumption, rule e)
  then show ?thesis by (simp only: cell_sgr_from_vterm_def) (simp add: within_def)
qed

lemma terminal_cell_of_ok: "screen_cell_ok c \<Longrightarrow> \<exists>t. terminal_cell_of c = Inr t \<and> terminal_cell_ok t"
  using cell_sgr_ok [of c] cell_text_ok [of c] by (auto simp: terminal_cell_of_def within_def terminal_cell_ok_def)

lemma terminal_cells_of_ok:
  "list_all screen_cell_ok cs \<Longrightarrow> \<exists>ts. terminal_cells_of cs = Inr ts \<and> list_all terminal_cell_ok ts \<and> length ts = length cs"
  using terminal_cell_of_ok by (induction cs) fastforce+

section \<open>The captured lines are a bounded queue\<close>

definition ring_ok :: "'v terminal_model \<Rightarrow> bool" where
  "ring_ok m \<longleftrightarrow> tm_captured_count m \<le> length (tm_captured m) \<and> tm_capture_limit m = length (tm_captured m)
     \<and> (if tm_captured m = [] then tm_captured_head m = 0 else tm_captured_head m < length (tm_captured m))"

definition captured_lines :: "'v terminal_model \<Rightarrow> scrollback_line list" where
  "captured_lines m = map (\<lambda>i. tm_captured m ! i) (ring_slots m (tm_captured_count m))"

definition last_lines :: "nat \<Rightarrow> scrollback_line list \<Rightarrow> scrollback_line list" where
  "last_lines n ls = drop (length ls - n) ls"

lemma length_captured_lines [simp]: "length (captured_lines m) = tm_captured_count m"
  by (simp add: captured_lines_def ring_slots_def)

lemma captured_lines_nth:
  "i < tm_captured_count m \<Longrightarrow> captured_lines m ! i = tm_captured m ! ((tm_captured_head m + i) mod length (tm_captured m))"
  by (simp add: captured_lines_def ring_slots_def)

lemma ring_slot_inj:
  fixes h i j n :: nat
  assumes "(h + i) mod n = (h + j) mod n" "i < n" "j < n"
  shows "i = j"
proof -
  have "i mod n = j mod n" using assms(1) by (simp add: mod_eq_nat1E nat_mod_eq_iff)
  then show ?thesis using assms(2,3) by simp
qed

lemma length_empty_slots [simp]: "length (empty_slots is r) = length r"
  unfolding empty_slots_def by (induction "is" arbitrary: r) auto

lemma empty_slots_Nil [simp]: "empty_slots is r = [] \<longleftrightarrow> r = []"
  using length_empty_slots [of "is" r] by (metis length_0_conv)

lemma last_lines_append: "last_lines n (last_lines n xs @ ys) = last_lines n (xs @ ys)"
  by (cases "length xs \<le> n") (simp_all add: last_lines_def add.commute)

text \<open>The line a push makes of the cells.\<close>

definition captured_line :: "int \<Rightarrow> screen_cell list \<Rightarrow> scrollback_line" where
  "captured_line cols cells =
     \<lparr>sl_cols = nat cols,
      sl_cells = (case terminal_cells_of (take (nat cols) cells) of Inl _ \<Rightarrow> None | Inr ts \<Rightarrow> Some ts)\<rparr>"

lemma ring_full:
  assumes "h < n" "length r = n" "i < n"
  shows "r[h := x] ! (((h + 1) mod n + i) mod n) = (if i = n - 1 then x else r ! ((h + Suc i) mod n))"
proof (cases "i = n - 1")
  case True
  have "((h + 1) mod n + i) mod n = (h + 1 + i) mod n" by (rule mod_add_left_eq)
  also have "\<dots> = h" using True assms by simp
  finally have "((h + 1) mod n + i) mod n = h" .
  then show ?thesis using True assms by simp
next
  case False
  have e: "((h + 1) mod n + i) mod n = (h + Suc i) mod n" by (simp add: mod_add_left_eq)
  have "Suc i < n" using False assms(3) by simp
  then have "(h + Suc i) mod n \<noteq> h" using ring_slot_inj [of h "Suc i" n 0] assms by auto
  then show ?thesis using False assms unfolding e by simp
qed

lemma ring_room:
  assumes "c < n" "length r = n" "i \<le> c"
  shows "r[(h + c) mod n := x] ! ((h + i) mod n) = (if i = c then x else r ! ((h + i) mod n))"
proof (cases "i = c")
  case False
  then have "(h + i) mod n \<noteq> (h + c) mod n" using ring_slot_inj [of h i n c] assms by auto
  then show ?thesis using False by simp
next
  case True
  moreover have "(h + c) mod n < length r" using assms by simp
  ultimately show ?thesis by (simp del: mod_less_divisor)
qed

lemma capture_refines:
  assumes "ring_ok m" "tm_capture_limit m > 0" "cols > 0" "alloc (nat cols)" "list_all screen_cell_ok cells"
  obtains m' where "capture_scrollback_line alloc cols (Some cells) m = (True, m')" "ring_ok m'"
    "captured_lines m' = last_lines (tm_capture_limit m) (captured_lines m @ [captured_line cols cells])"
    "tm_capture_limit m' = tm_capture_limit m"
proof -
  obtain ts where ts: "terminal_cells_of (take (nat cols) cells) = Inr ts"
    using terminal_cells_of_ok [of "take (nat cols) cells"] assms(5) by (auto simp: list_all_iff dest: in_set_takeD)
  let ?n = "length (tm_captured m)"
  let ?line = "captured_line cols cells"
  have l: "?line = \<lparr>sl_cols = nat cols, sl_cells = Some ts\<rparr>" by (simp add: captured_line_def ts)
  have n: "tm_capture_limit m = ?n" "tm_captured_head m < ?n" "tm_captured_count m \<le> ?n" "0 < ?n"
    using assms(1,2) by (auto simp: ring_ok_def split: if_splits)
  show thesis
  proof (cases "tm_captured_count m = ?n")
    case True
    let ?m = "m\<lparr>tm_captured := (tm_captured m)[tm_captured_head m := ?line], tm_captured_head := (tm_captured_head m + 1) mod ?n\<rparr>"
    have "captured_lines ?m ! i = (tl (captured_lines m) @ [?line]) ! i" if "i < ?n" for i
      using that True n ring_full [OF n(2) refl that, of ?line]
      by (simp add: captured_lines_nth nth_append nth_tl)
    then have "captured_lines ?m = tl (captured_lines m) @ [?line]" using True n by (intro nth_equalityI) auto
    moreover have "last_lines ?n (captured_lines m @ [?line]) = tl (captured_lines m) @ [?line]"
      using True n(4) by (cases "captured_lines m") (auto simp: last_lines_def simp flip: length_captured_lines)
    ultimately show thesis
      using that [of ?m] True assms n ts by (simp add: capture_scrollback_line_def l ring_ok_def split: if_splits)
  next
    case False
    let ?m = "m\<lparr>tm_captured := (tm_captured m)[(tm_captured_head m + tm_captured_count m) mod ?n := ?line],
                tm_captured_count := tm_captured_count m + 1\<rparr>"
    have c: "tm_captured_count m < ?n" using False n by simp
    have "captured_lines ?m ! i = (captured_lines m @ [?line]) ! i" if "i < tm_captured_count m + 1" for i
      using that c ring_room [OF c refl, of i "tm_captured_head m" ?line]
      by (cases "i = tm_captured_count m") (simp_all add: captured_lines_nth nth_append)
    then have "captured_lines ?m = captured_lines m @ [?line]" by (intro nth_equalityI) auto
    moreover have "last_lines ?n (captured_lines m @ [?line]) = captured_lines m @ [?line]"
      using c by (simp add: last_lines_def)
    ultimately show thesis
      using that [of ?m] False assms n ts by (simp add: capture_scrollback_line_def l ring_ok_def split: if_splits)
  qed
qed


text \<open>Pushing several lines, each of which must be taken.\<close>

fun capture_all ::
    "(nat \<Rightarrow> bool) \<Rightarrow> (int \<times> screen_cell list) list \<Rightarrow> 'v terminal_model \<Rightarrow> 'v terminal_model option" where
  "capture_all alloc [] m = Some m"
| "capture_all alloc ((cols, cells) # ls) m =
     (case capture_scrollback_line alloc cols (Some cells) m of
        (True, m') \<Rightarrow> capture_all alloc ls m'
      | (False, _) \<Rightarrow> None)"

lemma capture_all_refines:
  assumes "ring_ok m" "tm_capture_limit m > 0" "\<forall>n. alloc n"
    "list_all (\<lambda>(cols, cells). cols > 0 \<and> list_all screen_cell_ok cells) ls"
  shows "\<exists>m'. capture_all alloc ls m = Some m' \<and> ring_ok m' \<and> tm_capture_limit m' = tm_capture_limit m
     \<and> captured_lines m' = last_lines (tm_capture_limit m) (captured_lines m @ map (\<lambda>(cols, cells). captured_line cols cells) ls)"
  using assms(1,2,4)
proof (induction ls arbitrary: m)
  case Nil
  then show ?case by (simp add: last_lines_def ring_ok_def)
next
  case (Cons l ls)
  obtain cols cells where l: "l = (cols, cells)" by (cases l)
  obtain m1 where m1: "capture_scrollback_line alloc cols (Some cells) m = (True, m1)" "ring_ok m1"
    "captured_lines m1 = last_lines (tm_capture_limit m) (captured_lines m @ [captured_line cols cells])"
    "tm_capture_limit m1 = tm_capture_limit m"
    using capture_refines [of m cols alloc cells] Cons.prems assms(3) by (auto simp: l)
  show ?case using Cons.IH [of m1] m1 Cons.prems by (simp add: l last_lines_append)
qed

lemma take_scrollback_refines:
  assumes "ring_ok m" "alloc (tm_captured_count m)"
  shows "\<exists>m'. cubicle_terminal_model_take_scrollback alloc m = (Inr (captured_lines m), m') \<and> ring_ok m' \<and> captured_lines m' = []"
  using assms by (auto simp: cubicle_terminal_model_take_scrollback_def captured_lines_def ring_ok_def ring_slots_def Let_def
      split: if_splits)

text \<open>C10. The ring of captured lines implements a queue that keeps the last lines. After
  \<open>set_scrollback_capture_limit\<close> with a limit, whatever lines the screen pushes (each conversion of
  their cells fits its buffers), \<open>take_scrollback\<close> returns exactly the last of them up to the limit, oldest
  first, and leaves the ring empty; a line pushed after that is the one the next call returns.
\<close>

theorem scrollback_refines:
  assumes "\<forall>n. alloc n" "limit > 0"
    and "list_all (\<lambda>(cols, cells). cols > 0 \<and> list_all screen_cell_ok cells) ls"
    and "list_all (\<lambda>(cols, cells). cols > 0 \<and> list_all screen_cell_ok cells) ks"
  shows "\<exists>m1 m2 m3 m4. cubicle_terminal_model_set_scrollback_capture_limit alloc limit m = (Inr (), m1)
    \<and> capture_all alloc ls m1 = Some m2
    \<and> cubicle_terminal_model_take_scrollback alloc m2
        = (Inr (last_lines limit (map (\<lambda>(cols, cells). captured_line cols cells) ls)), m3)
    \<and> capture_all alloc ks m3 = Some m4
    \<and> fst (cubicle_terminal_model_take_scrollback alloc m4)
        = Inr (last_lines limit (map (\<lambda>(cols, cells). captured_line cols cells) ks))"
proof -
  let ?m1 = "(free_captured_scrollback m)\<lparr>tm_captured := replicate limit empty_line, tm_capture_limit := limit\<rparr>"
  have m1: "cubicle_terminal_model_set_scrollback_capture_limit alloc limit m = (Inr (), ?m1)"
    "ring_ok ?m1" "tm_capture_limit ?m1 = limit" "captured_lines ?m1 = []"
    using assms(1,2)
    by (simp_all add: cubicle_terminal_model_set_scrollback_capture_limit_def free_captured_scrollback_def
        clear_captured_scrollback_def ring_ok_def captured_lines_def ring_slots_def)
  obtain m2 where m2: "capture_all alloc ls ?m1 = Some m2" "ring_ok m2" "tm_capture_limit m2 = limit"
    "captured_lines m2 = last_lines limit (map (\<lambda>(cols, cells). captured_line cols cells) ls)"
    using capture_all_refines [of ?m1 alloc ls] m1 assms by auto
  obtain m3 where m3: "cubicle_terminal_model_take_scrollback alloc m2 = (Inr (captured_lines m2), m3)" "ring_ok m3"
    "captured_lines m3 = []"
    using take_scrollback_refines [of m2 alloc] m2 assms(1) by auto
  have "tm_capture_limit m3 = limit"
    using m3(1) m2(3) by (auto simp: cubicle_terminal_model_take_scrollback_def Let_def split: if_splits)
  then obtain m4 where m4: "capture_all alloc ks m3 = Some m4" "ring_ok m4"
    "captured_lines m4 = last_lines limit (map (\<lambda>(cols, cells). captured_line cols cells) ks)"
    using capture_all_refines [of m3 alloc ks] m3 assms by auto
  have "fst (cubicle_terminal_model_take_scrollback alloc m4) = Inr (captured_lines m4)"
    using take_scrollback_refines [of m4 alloc] m4 assms(1) by auto
  then show ?thesis using m1(1) m2(1) m3(1) m4(1) m2(4) m4(3) by auto
qed

section \<open>The laws of libvterm\<close>

text \<open>
  What the wrapper relies on, as libvterm documents it: a cell has six characters, a line has as many cells as
  columns, a size it reports is one a terminal can have here, and a write takes no more than it is given.
\<close>

fun callback_ok :: "callback \<Rightarrow> bool" where
  "callback_ok (Resize rows cols) \<longleftrightarrow> rows > 0 \<and> cols > 0 \<and> rows \<le> 1000 \<and> cols \<le> 1000"
| "callback_ok (PushLine cols (Some cells)) \<longleftrightarrow> list_all screen_cell_ok cells \<and> length cells = nat cols"
| "callback_ok _ \<longleftrightarrow> True"

primrec run_ok :: "nat \<Rightarrow> 'v vterm_run \<Rightarrow> bool" where
  "run_ok limit (Finished n v) \<longleftrightarrow> n \<le> limit"
| "run_ok limit (Invoke c k) \<longleftrightarrow> callback_ok c \<and> (\<forall>r. run_ok limit (k r))"

definition vterm_lawful :: "'v vterm \<Rightarrow> bool" where
  "vterm_lawful V \<longleftrightarrow>
     (\<forall>v. run_ok 0 (vt_reset V v)) \<and> (\<forall>v. run_ok 0 (vt_flush_damage V v))
     \<and> (\<forall>rows cols v. terminal_size_ok rows cols \<longrightarrow> run_ok 0 (vt_set_size V rows cols v))
     \<and> (\<forall>data v. run_ok (length data) (vt_input_write V data v))
     \<and> (\<forall>row col v c. vt_get_cell V row col v = Some c \<longrightarrow> screen_cell_ok c)"

section \<open>The state stays well-formed\<close>

definition line_ok :: "scrollback_line \<Rightarrow> bool" where
  "line_ok l \<longleftrightarrow> (case sl_cells l of None \<Rightarrow> sl_cols l = 0 | Some cs \<Rightarrow> length cs = sl_cols l \<and> list_all terminal_cell_ok cs)"

definition terminal_ok :: "'v terminal_model \<Rightarrow> bool" where
  "terminal_ok m \<longleftrightarrow> terminal_size_ok (tm_rows m) (tm_cols m) \<and> length (tm_dirty_rows m) = 1000
     \<and> length (tm_response m) \<le> 4096 \<and> length (tm_input_tail m) \<le> 16 \<and> ring_ok m \<and> list_all line_ok (tm_captured m)
     \<and> length (tm_scrollback m) \<le> tm_scrollback_capacity m"

lemma mark_rows_ok: "e \<le> length d \<Longrightarrow> \<exists>d'. mark_rows s e d = Some d' \<and> length d' = length d"
  by (simp add: mark_rows_def)

lemma empty_slots_ok: "list_all line_ok r \<Longrightarrow> list_all line_ok (empty_slots is r)"
  unfolding empty_slots_def
proof (induction "is" arbitrary: r)
  case (Cons i "is")
  have "line_ok empty_line" by (simp add: line_ok_def empty_line_def)
  then have "list_all line_ok (r[i := empty_line])"
    using Cons.prems set_update_subset_insert [of r i empty_line] by (auto simp: list_all_iff)
  then show ?case using Cons.IH by simp
qed simp

lemma captured_line_ok: "list_all screen_cell_ok cells \<Longrightarrow> length cells = nat cols \<Longrightarrow> line_ok (captured_line cols cells)"
  using terminal_cells_of_ok [of cells] by (auto simp: captured_line_def line_ok_def)

lemma capture_frame:
  assumes "capture_scrollback_line alloc cols (Some cells) m = (True, m')" "tm_capture_limit m \<noteq> 0" "cols > 0"
  shows "\<exists>i h n. m' = m\<lparr>tm_captured := (tm_captured m)[i := captured_line cols cells], tm_captured_head := h, tm_captured_count := n\<rparr>"
proof -
  obtain ts where ts: "terminal_cells_of (take (nat cols) cells) = Inr ts"
    using assms by (auto simp: capture_scrollback_line_def split: if_splits sum.splits)
  let ?n = "length (tm_captured m)"
  show ?thesis
  proof (cases "tm_captured_count m = ?n")
    case True
    then have "m' = m\<lparr>tm_captured := (tm_captured m)[tm_captured_head m := captured_line cols cells],
        tm_captured_head := (tm_captured_head m + 1) mod ?n, tm_captured_count := tm_captured_count m\<rparr>"
      using assms ts by (auto simp: capture_scrollback_line_def captured_line_def split: if_splits)
    then show ?thesis by blast
  next
    case False
    then have "m' = m\<lparr>tm_captured := (tm_captured m)[(tm_captured_head m + tm_captured_count m) mod ?n := captured_line cols cells],
        tm_captured_head := tm_captured_head m, tm_captured_count := tm_captured_count m + 1\<rparr>"
      using assms ts by (auto simp: capture_scrollback_line_def captured_line_def split: if_splits)
    then show ?thesis by blast
  qed
qed

lemma capture_ok:
  assumes "terminal_ok m" "callback_ok (PushLine cols cells)"
  shows "terminal_ok (snd (capture_scrollback_line alloc cols cells m))"
proof (cases "tm_capture_limit m = 0 \<or> cols \<le> 0 \<or> cells = None \<or> tm_captured m = [] \<or> \<not> alloc (nat cols)")
  case True
  then have "snd (capture_scrollback_line alloc cols cells m) = m" by (auto simp: capture_scrollback_line_def)
  then show ?thesis using assms(1) by simp
next
  case False
  then obtain cs where cs: "cells = Some cs" by auto
  have s: "list_all screen_cell_ok cs" "length cs = nat cols" using assms(2) by (simp_all add: cs)
  obtain m' where m': "capture_scrollback_line alloc cols cells m = (True, m')" "ring_ok m'"
    using capture_refines [of m cols alloc cs] False assms(1) s(1) by (auto simp: cs terminal_ok_def)
  obtain i h n where e: "m' = m\<lparr>tm_captured := (tm_captured m)[i := captured_line cols cs], tm_captured_head := h, tm_captured_count := n\<rparr>"
    using capture_frame [of alloc cols cs m m'] m'(1) False by (auto simp: cs)
  have "list_all line_ok (tm_captured m')"
    using captured_line_ok [OF s] assms(1) set_update_subset_insert [of "tm_captured m" i "captured_line cols cs"]
    by (auto simp: e list_all_iff terminal_ok_def)
  then show ?thesis using assms(1) m' by (simp add: terminal_ok_def) (simp add: e)
qed

lemma save_ok:
  assumes "terminal_ok m"
  shows "terminal_ok (snd (save_scrollback_line alloc cols cells m))"
  using assms by (auto simp: save_scrollback_line_def terminal_ok_def ring_ok_def Let_def)

lemma restore_ok:
  assumes "terminal_ok m"
  shows "terminal_ok (snd (restore_scrollback_line cols m))"
proof (cases "dropWhile (\<lambda>l. fst l \<noteq> cols) (rev (tm_scrollback m))")
  case Nil
  then show ?thesis using assms unfolding restore_scrollback_line_def Nil by (simp add: terminal_ok_def ring_ok_def)
next
  case (Cons l ls)
  have "length (l # ls) \<le> length (tm_scrollback m)"
    using length_dropWhile_le [of _ "rev (tm_scrollback m)"] unfolding Cons [symmetric] by simp
  then show ?thesis using assms unfolding restore_scrollback_line_def Cons by (simp add: terminal_ok_def ring_ok_def)
qed

lemma handle_callback_ok:
  assumes "terminal_ok m" "callback_ok c"
  shows "\<exists>r m'. handle_callback alloc c m = Some (r, m') \<and> terminal_ok m'"
proof (cases c)
  case (Damage s e)
  have "tm_rows m \<le> 1000" using assms(1) by (simp add: terminal_ok_def terminal_size_ok_def)
  then have "nat (min e (int (tm_rows m))) \<le> 1000" by linarith
  then obtain d where "mark_rows (nat s) (nat (min e (int (tm_rows m)))) (tm_dirty_rows m) = Some d" "length d = 1000"
    using mark_rows_ok [of "nat (min e (int (tm_rows m)))" "tm_dirty_rows m" "nat s"] assms(1)
    by (auto simp: terminal_ok_def)
  then show ?thesis using assms(1) by (simp add: Damage track_damage_def terminal_ok_def ring_ok_def)
next
  case (PushLine cols cells)
  have "terminal_ok (snd (capture_scrollback_line alloc cols cells (snd (save_scrollback_line alloc cols cells m))))"
    using capture_ok [OF save_ok [OF assms(1)]] assms(2) by (simp add: PushLine)
  then show ?thesis by (simp add: PushLine split_beta Let_def)
next
  case (PopLine cols)
  then show ?thesis using restore_ok [OF assms(1), of cols]
    by (cases "restore_scrollback_line cols m") (auto split: option.splits)
qed (use assms in \<open>auto simp: terminal_ok_def ring_ok_def terminal_size_ok_def clear_scrollback_def capture_response_def
       split: option.splits\<close>)

lemma call_vterm_ok:
  "run_ok n r \<Longrightarrow> terminal_ok m \<Longrightarrow> \<exists>k m'. call_vterm alloc r m = Some (k, m') \<and> k \<le> n \<and> terminal_ok m'"
proof (induction r arbitrary: m)
  case (Finished k v)
  then show ?case by (simp add: terminal_ok_def ring_ok_def)
next
  case (Invoke c f)
  obtain r m' where "handle_callback alloc c m = Some (r, m')" "terminal_ok m'"
    using handle_callback_ok [of m c alloc] Invoke.prems by auto
  then show ?case using Invoke.IH [of "f r" m'] Invoke.prems by simp
qed

lemma dirty_ok:
  assumes "terminal_ok m" "rows \<le> 1000"
  shows "\<exists>d. mark_rows 0 rows (tm_dirty_rows m) = Some d \<and> terminal_ok (m\<lparr>tm_dirty_rows := d\<rparr>)"
  using mark_rows_ok [of rows "tm_dirty_rows m" 0] assms by (auto simp: terminal_ok_def ring_ok_def)

lemma track_mode_ok: "terminal_ok m \<Longrightarrow> terminal_ok (track_application_cursor_mode data m)"
  by (auto simp: track_application_cursor_mode_def terminal_ok_def ring_ok_def Let_def last_bytes_def)

lemma feed_loop_ok:
  assumes "vterm_lawful V"
  shows "terminal_ok m \<Longrightarrow> \<exists>m'. feed_loop V alloc data m = Some m' \<and> terminal_ok m'"
proof (induction "length data" arbitrary: data m rule: less_induct)
  case less
  obtain k m1 where c: "call_vterm alloc (vt_input_write V data (tm_term m)) m = Some (k, m1)" "k \<le> length data" "terminal_ok m1"
    using call_vterm_ok [of "length data" "vt_input_write V data (tm_term m)" m alloc] assms less.prems
    by (auto simp: vterm_lawful_def)
  show ?case
  proof (cases "data = [] \<or> k = 0")
    case True
    then show ?thesis using c less.prems by (auto simp: feed_loop.simps [of V alloc data])
  next
    case False
    then have "length (drop k data) < length data" using c(2) by simp
    from less.hyps [OF this c(3)] show ?thesis using False c by (simp add: feed_loop.simps [of V alloc data])
  qed
qed

lemma feed_ok:
  assumes "vterm_lawful V" "terminal_ok m"
  shows "\<exists>m'. cubicle_terminal_model_feed V alloc data m = Some m' \<and> terminal_ok m'"
proof -
  obtain m1 where m1: "feed_loop V alloc data (track_application_cursor_mode data m) = Some m1" "terminal_ok m1"
    using feed_loop_ok [OF assms(1) track_mode_ok [OF assms(2)]] by blast
  moreover obtain k m2 where "call_vterm alloc (vt_flush_damage V (tm_term m1)) m1 = Some (k, m2)" "terminal_ok m2"
    using call_vterm_ok [of 0 "vt_flush_damage V (tm_term m1)" m1 alloc] assms(1) m1 by (auto simp: vterm_lawful_def)
  ultimately show ?thesis by (simp add: cubicle_terminal_model_feed_def)
qed

lemma feed_all_ok:
  assumes "vterm_lawful V"
  shows "terminal_ok m \<Longrightarrow> \<exists>m'. feed_all V alloc ss m = Some m' \<and> terminal_ok m'"
proof (induction ss arbitrary: m)
  case (Cons s ss)
  obtain m1 where "cubicle_terminal_model_feed V alloc s m = Some m1" "terminal_ok m1"
    using feed_ok [OF assms Cons.prems] by blast
  then show ?case using Cons.IH by simp
qed simp

lemma resize_ok:
  assumes "vterm_lawful V" "terminal_ok m"
  shows "\<exists>r m'. cubicle_terminal_model_resize V alloc rows cols m = Some (r, m') \<and> terminal_ok m'
    \<and> r = (if terminal_size_ok rows cols then Inr () else Inl EINVAL)"
proof (cases "terminal_size_ok rows cols")
  case False
  then show ?thesis using assms(2) by (simp add: cubicle_terminal_model_resize_def)
next
  case True
  obtain k m1 where m1: "call_vterm alloc (vt_set_size V rows cols (tm_term m)) m = Some (k, m1)" "terminal_ok m1"
    using call_vterm_ok [of 0 "vt_set_size V rows cols (tm_term m)" m alloc] assms True by (auto simp: vterm_lawful_def)
  let ?m2 = "m1\<lparr>tm_rows := rows, tm_cols := cols\<rparr>"
  have "terminal_ok ?m2" using m1(2) True by (simp add: terminal_ok_def ring_ok_def)
  then obtain k' m3 where m3: "call_vterm alloc (vt_flush_damage V (tm_term m1)) ?m2 = Some (k', m3)" "terminal_ok m3"
    using call_vterm_ok [of 0 "vt_flush_damage V (tm_term m1)" ?m2 alloc] assms by (auto simp: vterm_lawful_def)
  obtain d where "mark_rows 0 rows (tm_dirty_rows m3) = Some d" "terminal_ok (m3\<lparr>tm_dirty_rows := d\<rparr>)"
    using dirty_ok [OF m3(2), of rows] True by (auto simp: terminal_size_ok_def)
  then show ?thesis using True m1(1) m3(1) by (simp add: cubicle_terminal_model_resize_def)
qed

lemma clear_ok: "terminal_ok m \<Longrightarrow> terminal_ok (clear_captured_scrollback (clear_scrollback m))"
  using empty_slots_ok [of "tm_captured m"]
  by (simp add: clear_captured_scrollback_def clear_scrollback_def terminal_ok_def ring_ok_def)

lemma load_ok:
  assumes "vterm_lawful V" "terminal_ok m" "ts_rows s * ts_cols s \<le> length (ts_cells s)"
  shows "\<exists>r m'. cubicle_terminal_model_load_snapshot V alloc s m = Some (r, m') \<and> terminal_ok m'
    \<and> r = (if terminal_size_ok (ts_rows s) (ts_cols s) then Inr () else Inl EINVAL)"
proof (cases "terminal_size_ok (ts_rows s) (ts_cols s)")
  case False
  then show ?thesis using assms(2) by (simp add: cubicle_terminal_model_load_snapshot_def)
next
  case True
  obtain m1 where m1: "cubicle_terminal_model_resize V alloc (ts_rows s) (ts_cols s) (clear_captured_scrollback (clear_scrollback m))
      = Some (Inr (), m1)" "terminal_ok m1"
    using resize_ok [OF assms(1) clear_ok [OF assms(2)], of alloc "ts_rows s" "ts_cols s"] True by auto
  obtain k m2 where m2: "call_vterm alloc (vt_reset V (tm_term m1)) m1 = Some (k, m2)" "terminal_ok m2"
    using call_vterm_ok [of 0 "vt_reset V (tm_term m1)" m1 alloc] assms(1) m1(2) by (auto simp: vterm_lawful_def)
  obtain m3 where m3: "feed_all V alloc (restore_sequences s) m2 = Some m3" "terminal_ok m3"
    using feed_all_ok [OF assms(1) m2(2)] by blast
  obtain d where d: "mark_rows 0 (tm_rows m3) (tm_dirty_rows m3) = Some d" "terminal_ok (m3\<lparr>tm_dirty_rows := d\<rparr>)"
    using dirty_ok [OF m3(2), of "tm_rows m3"] m3(2) by (auto simp: terminal_ok_def terminal_size_ok_def)
  have "terminal_ok (m3\<lparr>tm_cursor_visible := ts_cursor_visible s, tm_dirty_rows := d\<rparr>)"
    using d(2) by (auto simp: terminal_ok_def ring_ok_def)
  then show ?thesis using True m1(1) m2(1) m3(1) d(1) assms(3) by (simp add: cubicle_terminal_model_load_snapshot_def)
qed

lemma create_ok:
  assumes "vterm_lawful V"
  shows "\<exists>r. cubicle_terminal_model_create V alloc rows cols = Some r
    \<and> (case r of Inl e \<Rightarrow> e = (if terminal_size_ok rows cols then ENOMEM else EINVAL) | Inr m \<Rightarrow> terminal_ok m)"
proof (cases "terminal_size_ok rows cols \<and> alloc 1 \<and> vt_new V rows cols \<noteq> None")
  case False
  then show ?thesis by (auto simp: cubicle_terminal_model_create_def)
next
  case True
  then obtain v where v: "vt_new V rows cols = Some v" by auto
  let ?m = "\<lparr>tm_term = vt_configure V v, tm_rows = rows, tm_cols = cols, tm_cursor_visible = True, tm_application_cursor = False,
    tm_input_tail = [], tm_dirty_rows = replicate 1000 False, tm_response = [], tm_scrollback = [],
    tm_scrollback_capacity = 0, tm_captured = [], tm_captured_head = 0, tm_captured_count = 0, tm_capture_limit = 0\<rparr>"
  have "terminal_ok ?m" using True by (simp add: terminal_ok_def ring_ok_def)
  then obtain k m1 where m1: "call_vterm alloc (vt_reset V (vt_configure V v)) ?m = Some (k, m1)" "terminal_ok m1"
    using call_vterm_ok [of 0 "vt_reset V (vt_configure V v)" ?m alloc] assms by (auto simp: vterm_lawful_def)
  obtain d where "mark_rows 0 rows (tm_dirty_rows m1) = Some d" "terminal_ok (m1\<lparr>tm_dirty_rows := d\<rparr>)"
    using dirty_ok [OF m1(2), of rows] True by (auto simp: terminal_size_ok_def)
  then show ?thesis using True m1(1) by (simp add: cubicle_terminal_model_create_def v)
qed

lemma collect_cells_ok:
  assumes "\<And>x. \<exists>t. f x = Inr t \<and> terminal_cell_ok t"
  shows "\<exists>ts. collect_cells f xs = Inr ts \<and> list_all terminal_cell_ok ts \<and> length ts = length xs"
proof (induction xs)
  case (Cons x xs)
  then show ?case using assms [of x] by auto
qed simp

lemma length_grid: "length (grid rows cols) = rows * cols"
  by (simp add: grid_def length_concat o_def sum_list_triv)

definition snapshot_ok :: "terminal_snapshot \<Rightarrow> bool" where
  "snapshot_ok s \<longleftrightarrow> terminal_size_ok (ts_rows s) (ts_cols s) \<and> length (ts_cells s) = ts_rows s * ts_cols s
     \<and> list_all terminal_cell_ok (ts_cells s)"

lemma snapshot_result_ok:
  assumes "vterm_lawful V" "terminal_ok m"
  shows "case cubicle_terminal_model_snapshot V alloc offset m of
    Inl e \<Rightarrow> e = ENOMEM \<and> \<not> alloc (tm_rows m * tm_cols m) | Inr s \<Rightarrow> snapshot_ok s"
proof -
  have "\<exists>t. snapshot_cell V (tm_term m) r c = Inr t \<and> terminal_cell_ok t" for r c
    using terminal_cell_of_ok assms(1)
    by (auto simp: snapshot_cell_def vterm_lawful_def terminal_cell_ok_def split: option.splits)
  then obtain ts where "collect_cells (\<lambda>(r, c). snapshot_cell V (tm_term m) r c) (grid (tm_rows m) (tm_cols m)) = Inr ts"
    "list_all terminal_cell_ok ts" "length ts = tm_rows m * tm_cols m"
    using collect_cells_ok [of "\<lambda>(r, c). snapshot_cell V (tm_term m) r c" "grid (tm_rows m) (tm_cols m)"]
    by (auto simp: length_grid)
  then show ?thesis using assms(2)
    by (simp add: cubicle_terminal_model_snapshot_def snapshot_ok_def terminal_ok_def)
qed

lemma limit_ok: "terminal_ok m \<Longrightarrow> terminal_ok (snd (cubicle_terminal_model_set_scrollback_capture_limit alloc limit m))"
  by (auto simp: cubicle_terminal_model_set_scrollback_capture_limit_def free_captured_scrollback_def clear_captured_scrollback_def
      terminal_ok_def ring_ok_def line_ok_def empty_line_def list_all_iff)

lemma take_scrollback_ok:
  "terminal_ok m \<Longrightarrow> terminal_ok (snd (cubicle_terminal_model_take_scrollback alloc m))"
  using empty_slots_ok [of "tm_captured m"]
  by (simp add: cubicle_terminal_model_take_scrollback_def terminal_ok_def ring_ok_def Let_def)

lemma take_response_ok: "terminal_ok m \<Longrightarrow> terminal_ok (snd (cubicle_terminal_model_take_response n m))"
  by (auto simp: cubicle_terminal_model_take_response_def terminal_ok_def ring_ok_def)

lemma clear_dirty_ok: "terminal_ok m \<Longrightarrow> terminal_ok (cubicle_terminal_model_clear_dirty_rows m)"
  by (auto simp: cubicle_terminal_model_clear_dirty_rows_def terminal_ok_def ring_ok_def)

text \<open>The operations on a terminal, and what each does to it; \<open>None\<close> when one writes outside its arrays.\<close>

datatype terminal_call =
    CallResize nat nat
  | CallFeed bytes
  | CallCaptureLimit nat
  | CallTakeScrollback
  | CallClearDirtyRows
  | CallTakeResponse nat
  | CallLoadSnapshot terminal_snapshot

fun terminal_step :: "'v vterm \<Rightarrow> (nat \<Rightarrow> bool) \<Rightarrow> terminal_call \<Rightarrow> 'v terminal_model \<Rightarrow> 'v terminal_model option" where
  "terminal_step V alloc (CallResize rows cols) m = map_option snd (cubicle_terminal_model_resize V alloc rows cols m)"
| "terminal_step V alloc (CallFeed data) m = cubicle_terminal_model_feed V alloc data m"
| "terminal_step V alloc (CallCaptureLimit n) m = Some (snd (cubicle_terminal_model_set_scrollback_capture_limit alloc n m))"
| "terminal_step V alloc CallTakeScrollback m = Some (snd (cubicle_terminal_model_take_scrollback alloc m))"
| "terminal_step V alloc CallClearDirtyRows m = Some (cubicle_terminal_model_clear_dirty_rows m)"
| "terminal_step V alloc (CallTakeResponse n) m = Some (snd (cubicle_terminal_model_take_response n m))"
| "terminal_step V alloc (CallLoadSnapshot s) m = map_option snd (cubicle_terminal_model_load_snapshot V alloc s m)"

fun terminal_calls :: "'v vterm \<Rightarrow> (nat \<Rightarrow> bool) \<Rightarrow> terminal_call list \<Rightarrow> 'v terminal_model \<Rightarrow> 'v terminal_model option" where
  "terminal_calls V alloc [] m = Some m"
| "terminal_calls V alloc (c # cs) m = Option.bind (terminal_step V alloc c m) (terminal_calls V alloc cs)"

text \<open>The caller of \<open>load_snapshot\<close> passes as many cells as it says.\<close>

fun terminal_call_ok :: "terminal_call \<Rightarrow> bool" where
  "terminal_call_ok (CallLoadSnapshot s) \<longleftrightarrow> length (ts_cells s) = ts_rows s * ts_cols s"
| "terminal_call_ok _ \<longleftrightarrow> True"

lemma terminal_step_ok:
  assumes "vterm_lawful V" "terminal_ok m" "terminal_call_ok c"
  shows "\<exists>m'. terminal_step V alloc c m = Some m' \<and> terminal_ok m'"
proof (cases c)
  case (CallResize rows cols)
  then show ?thesis using resize_ok [OF assms(1,2), of alloc rows cols] by auto
next
  case (CallLoadSnapshot s)
  then show ?thesis using load_ok [OF assms(1,2), of s alloc] assms(3) by auto
qed (use feed_ok [OF assms(1,2)] limit_ok [OF assms(2)] take_scrollback_ok [OF assms(2)] clear_dirty_ok [OF assms(2)]
      take_response_ok [OF assms(2)] in simp_all)

lemma terminal_calls_ok:
  assumes "vterm_lawful V"
  shows "terminal_ok m \<Longrightarrow> list_all terminal_call_ok cs \<Longrightarrow> \<exists>m'. terminal_calls V alloc cs m = Some m' \<and> terminal_ok m'"
proof (induction cs arbitrary: m)
  case (Cons c cs)
  obtain m1 where "terminal_step V alloc c m = Some m1" "terminal_ok m1" using terminal_step_ok [OF assms Cons.prems(1), of c alloc] Cons.prems(2) by auto
  then show ?case using Cons.IH Cons.prems(2) by simp
qed simp

text \<open>C13. The terminal is type safe. With a libvterm that keeps its laws, a terminal that was created is
  well-formed; from there any sequence of calls (output of any bytes, resizes, snapshots from another
  host, capture limits, reads) runs without a write outside an array and ends in a well-formed terminal: a size of 1 to 1000
  by 1 to 1000, at most 4096 bytes of answers, a sound ring, and every captured cell within its 32 and 96 bytes. A
  snapshot of it has a cell for every place of the screen, each within its buffers, and fails only when
  memory does.
\<close>

theorem terminal_model_safe:
  assumes "vterm_lawful V" "cubicle_terminal_model_create V alloc rows cols = Some (Inr m)"
    and "list_all terminal_call_ok calls"
  shows "\<exists>m'. terminal_calls V alloc calls m = Some m' \<and> terminal_ok m'
    \<and> (case cubicle_terminal_model_snapshot V alloc offset m' of
         Inl e \<Rightarrow> e = ENOMEM \<and> \<not> alloc (tm_rows m' * tm_cols m')
       | Inr s \<Rightarrow> snapshot_ok s)"
proof -
  have "terminal_ok m" using create_ok [OF assms(1), of alloc rows cols] assms(2) by auto
  then obtain m' where "terminal_calls V alloc calls m = Some m'" "terminal_ok m'"
    using terminal_calls_ok [OF assms(1) _ assms(3)] by blast
  then show ?thesis using snapshot_result_ok [OF assms(1)] by blast
qed

text \<open>A small terminal: it damages its first row on input, pushes a line on a newline and answers a bell.\<close>

definition blank_cell :: screen_cell where
  "blank_cell = \<lparr>sc_chars = [0x41, 0, 0, 0, 0, 0], sc_bold = True, sc_underline = 0, sc_italic = False, sc_blink = False,
     sc_reverse = False, sc_conceal = False, sc_strike = False,
     sc_fg = \<lparr>vc_kind = ColorIndexed 1, vc_default_fg = False, vc_default_bg = False\<rparr>,
     sc_bg = \<lparr>vc_kind = ColorIndexed 0, vc_default_fg = False, vc_default_bg = True\<rparr>\<rparr>"

definition small_vterm :: "unit vterm" where
  "small_vterm = \<lparr>vt_new = (\<lambda>_ _. Some ()), vt_configure = (\<lambda>v. v), vt_reset = (\<lambda>v. Finished 0 v),
     vt_set_size = (\<lambda>rows cols v. Invoke (Resize (int rows) (int cols)) (\<lambda>_. Finished 0 v)),
     vt_input_write = (\<lambda>data v.
       if data \<noteq> [] \<and> hd data = CHR 0x0A then Invoke (PushLine 1 (Some [blank_cell])) (\<lambda>_. Finished 1 v)
       else Invoke (Damage 0 1) (\<lambda>_. Finished (length data) v)),
     vt_flush_damage = (\<lambda>v. Finished 0 v), vt_get_cell = (\<lambda>_ _ _. Some blank_cell), vt_cursorpos = (\<lambda>_. (0, 0))\<rparr>"

definition small_terminal :: "unit terminal_model" where
  "small_terminal =
     \<lparr>tm_term = (), tm_rows = 1, tm_cols = 1, tm_cursor_visible = True, tm_application_cursor = False,
      tm_input_tail = [], tm_dirty_rows = True # replicate 999 False, tm_response = [], tm_scrollback = [],
      tm_scrollback_capacity = 0, tm_captured = [], tm_captured_head = 0, tm_captured_count = 0, tm_capture_limit = 0\<rparr>"

lemma small_vterm_lawful: "vterm_lawful small_vterm"
  by (auto simp: vterm_lawful_def small_vterm_def terminal_size_ok_def screen_cell_ok_def blank_cell_def Suc_le_eq)

lemma small_created: "\<exists>m. cubicle_terminal_model_create small_vterm (\<lambda>_. True) 24 80 = Some (Inr m)"
  by (simp add: cubicle_terminal_model_create_def small_vterm_def terminal_size_ok_def mark_rows_def)

theorem scrollback_refines_witness:
  "\<exists>m1 m2 m3 m4. cubicle_terminal_model_set_scrollback_capture_limit (\<lambda>_. True) 2 small_terminal = (Inr (), m1)
    \<and> capture_all (\<lambda>_. True) [(3, []), (1, [blank_cell]), (2, [])] m1 = Some m2
    \<and> cubicle_terminal_model_take_scrollback (\<lambda>_. True) m2 = (Inr [captured_line 1 [blank_cell], captured_line 2 []], m3)
    \<and> capture_all (\<lambda>_. True) [(1, [])] m3 = Some m4
    \<and> fst (cubicle_terminal_model_take_scrollback (\<lambda>_. True) m4) = Inr [captured_line 1 []]"
proof -
  have "screen_cell_ok blank_cell" by (simp add: screen_cell_ok_def blank_cell_def)
  then show ?thesis
    using scrollback_refines [of "\<lambda>_. True" 2 "[(3, []), (1, [blank_cell]), (2, [])]" "[(1, [])]" small_terminal]
    by (simp add: last_lines_def)
qed

theorem terminal_model_safe_witness:
  "\<exists>m m'. cubicle_terminal_model_create small_vterm (\<lambda>_. True) 24 80 = Some (Inr m)
    \<and> terminal_calls small_vterm (\<lambda>_. True) [CallCaptureLimit 2, CallFeed (CHR 0x0A # ''x''), CallResize 10 2000, CallTakeScrollback] m = Some m'
    \<and> terminal_ok m'"
proof -
  obtain m where m: "cubicle_terminal_model_create small_vterm (\<lambda>_. True) 24 80 = Some (Inr m)" using small_created by blast
  from terminal_model_safe [OF small_vterm_lawful m, of "[CallCaptureLimit 2, CallFeed (CHR 0x0A # ''x''), CallResize 10 2000, CallTakeScrollback]"]
  show ?thesis using m by auto
qed

section \<open>The mode of the cursor keys\<close>

lemma handle_callback_mode:
  "handle_callback alloc c m = Some (r, m') \<Longrightarrow>
    tm_application_cursor m' = tm_application_cursor m \<and> tm_input_tail m' = tm_input_tail m"
  by (cases c) (auto simp: track_damage_def save_scrollback_line_def capture_scrollback_line_def restore_scrollback_line_def
      clear_scrollback_def capture_response_def Let_def split: option.splits if_splits sum.splits list.splits prod.splits)

lemma call_vterm_mode:
  "call_vterm alloc r m = Some (k, m') \<Longrightarrow>
    tm_application_cursor m' = tm_application_cursor m \<and> tm_input_tail m' = tm_input_tail m"
proof (induction r arbitrary: m)
  case (Invoke c f)
  then obtain x m1 where "handle_callback alloc c m = Some (x, m1)" "call_vterm alloc (f x) m1 = Some (k, m')"
    by (auto split: option.splits)
  then show ?case using Invoke.IH [of "f x" m1] handle_callback_mode [of alloc c m x m1] by simp
qed auto

lemma feed_loop_mode:
  "feed_loop V alloc data m = Some m' \<Longrightarrow>
    tm_application_cursor m' = tm_application_cursor m \<and> tm_input_tail m' = tm_input_tail m"
proof (induction V alloc data m rule: feed_loop.induct)
  case (1 V alloc data m)
  note run = "1.prems" [unfolded feed_loop.simps [of V alloc data m]]
  show ?case
  proof (cases "data = []")
    case False
    then obtain k m1 where c: "call_vterm alloc (vt_input_write V data (tm_term m)) m = Some (k, m1)"
      using run by (cases "call_vterm alloc (vt_input_write V data (tm_term m)) m") auto
    show ?thesis
    proof (cases "k = 0")
      case True
      then show ?thesis using run False c call_vterm_mode [OF c] by simp
    next
      case pos: False
      then have "\<not> k > length data" "feed_loop V alloc (drop k data) m1 = Some m'" using run False c by (auto split: if_splits)
      then show ?thesis using "1.IH" [OF False c refl pos] call_vterm_mode [OF c] by simp
    qed
  qed (use run in simp)
qed

lemma feed_mode:
  assumes "cubicle_terminal_model_feed V alloc data m = Some m'"
  shows "tm_application_cursor m' = tm_application_cursor (track_application_cursor_mode data m)"
    "tm_input_tail m' = tm_input_tail (track_application_cursor_mode data m)"
  using assms
  by (auto simp: cubicle_terminal_model_feed_def split: option.splits dest!: feed_loop_mode call_vterm_mode)

lemma mode_at_question: "mode_at s = Some b \<Longrightarrow> CHR ''?'' \<in> set s"
proof -
  assume "mode_at s = Some b"
  then have "take 3 s = ESC # ''[?''" by (simp add: mode_at_def split: if_splits)
  then have "CHR ''?'' \<in> set (take 3 s)" by simp
  then show ?thesis by (rule in_set_takeD)
qed

lemma scan_modes_none: "CHR ''?'' \<notin> set s \<Longrightarrow> scan_modes mode s = mode"
proof (induction s arbitrary: mode)
  case (Cons c s)
  then have "mode_at (c # s) = None" using mode_at_question [of "c # s"] by (cases "mode_at (c # s)") auto
  then show ?case using Cons by simp
qed simp

lemma track_mode_none:
  assumes "CHR ''?'' \<notin> set (tm_input_tail m)" "CHR ''?'' \<notin> set data"
  shows "tm_application_cursor (track_application_cursor_mode data m) = tm_application_cursor m"
    "CHR ''?'' \<notin> set (tm_input_tail (track_application_cursor_mode data m))"
  using assms by (auto simp: track_application_cursor_mode_def Let_def last_bytes_def scan_modes_none
      dest: in_set_dropD intro!: scan_modes_none)

lemma feed_all_mode:
  assumes "feed_all V alloc ss m = Some m'" "CHR ''?'' \<notin> set (tm_input_tail m)" "\<And>s. s \<in> set ss \<Longrightarrow> CHR ''?'' \<notin> set s"
  shows "tm_application_cursor m' = tm_application_cursor m"
  using assms
proof (induction ss arbitrary: m)
  case (Cons s ss)
  then obtain m1 where m1: "cubicle_terminal_model_feed V alloc s m = Some m1" "feed_all V alloc ss m1 = Some m'"
    by (auto split: option.splits)
  have "CHR ''?'' \<notin> set s" using Cons.prems(3) by simp
  note t = track_mode_none [OF Cons.prems(2) this] feed_mode [OF m1(1)]
  show ?case using Cons.IH [OF m1(2)] Cons.prems(3) t by simp
qed simp

text \<open>
  Loading a snapshot can set the mode of the cursor keys but does not reset it: a terminal in
  application mode stays in it after a snapshot that is not, and then encodes the keys for the wrong mode.
\<close>

lemma load_snapshot_keeps_mode:
  assumes "cubicle_terminal_model_load_snapshot V alloc s m = Some (Inr (), m')"
    and "CHR ''?'' \<notin> set (tm_input_tail m)" "\<And>t. t \<in> set (restore_sequences s) \<Longrightarrow> CHR ''?'' \<notin> set t"
  shows "tm_application_cursor m' = tm_application_cursor m"
proof -
  obtain m1 where m1: "cubicle_terminal_model_resize V alloc (ts_rows s) (ts_cols s) (clear_captured_scrollback (clear_scrollback m))
      = Some (Inr (), m1)"
    using assms(1) by (auto simp: cubicle_terminal_model_load_snapshot_def split: if_splits option.splits sum.splits)
  then have e1: "tm_application_cursor m1 = tm_application_cursor m \<and> tm_input_tail m1 = tm_input_tail m"
    by (auto simp: cubicle_terminal_model_resize_def clear_captured_scrollback_def clear_scrollback_def
        split: if_splits option.splits dest!: call_vterm_mode)
  obtain k m2 m3 where m2: "call_vterm alloc (vt_reset V (tm_term m1)) m1 = Some (k, m2)"
    "feed_all V alloc (restore_sequences s) m2 = Some m3" "tm_application_cursor m' = tm_application_cursor m3"
    using assms(1) m1 by (auto simp: cubicle_terminal_model_load_snapshot_def split: if_splits option.splits)
  show ?thesis using feed_all_mode [OF m2(2)] call_vterm_mode [OF m2(1)] e1 m2(3) assms(2,3) by simp
qed

end
