(* ===== verification/Controller_State.thy ===== *)
theory Controller_State
  imports Terminal_Model Registry Rpc_Envelope Io
begin

text \<open>
  The state of a controller (\<open>src/src/controller/state.c\<close>), the process that supervises one command: its
  directories, its log of numbered events and the logs of the command's output. A file is its content, by
  path; a descriptor of a log is the path it was opened on. What the kernel answers is an environment.
\<close>

section \<open>Environment and state\<close>

datatype mkdir_answer = Made | AlreadyThere bool | MkdirFailed errno

text \<open>
  \<open>ce_event_write\<close> are the outcomes of writing the event with a number, \<open>ce_log_write\<close> of a piece of
  output at an offset.
\<close>

record controller_env =
  ce_mkdir :: "bytes \<Rightarrow> mkdir_answer"
  ce_lstat_error :: "bytes \<Rightarrow> errno option"
  ce_create_error :: "bytes \<Rightarrow> errno option"
  ce_open_error :: "bytes \<Rightarrow> errno option"
  ce_metadata_write :: "write_outcome list"
  ce_event_write :: "int \<Rightarrow> write_outcome list"
  ce_log_write :: "int \<Rightarrow> write_outcome list"
  ce_kill_error :: "nat \<Rightarrow> errno option"
  ce_winsize_error :: "nat \<Rightarrow> nat \<Rightarrow> errno option"
  ce_stderr_winsize_error :: "nat \<Rightarrow> nat \<Rightarrow> errno option"
  ce_alloc :: "nat \<Rightarrow> bool"
  ce_json :: "bytes \<Rightarrow> json option"

record terminal_size_state =
  sz_rows :: nat
  sz_columns :: nat
  sz_known :: bool

text \<open>
  The state and what the event loop holds beside it: the child's input, when it is open, with what was
  written to it and the outcomes of the next writes, the signals sent, the size of the terminal, when there is one,
  and its model.
\<close>

record 'v controller_state =
  st_dir :: bytes
  st_log_dir :: bytes
  st_controller_id :: bytes
  st_events_fd :: "bytes option"
  st_stdout_fd :: "bytes option"
  st_stderr_fd :: "bytes option"
  st_next_sequence :: int
  st_stdout_offset :: int
  st_stderr_offset :: int
  st_debug_input :: bool
  st_debug_library :: bool
  st_debug_terminal :: bool
  st_terminal_attachment_active :: bool
  st_files :: "bytes \<Rightarrow> bytes option"
  st_stdin_open :: bool
  st_child_input :: bytes
  st_child_writes :: "write_outcome list"
  st_signals :: "nat list"
  st_resizable :: bool
  st_stderr_resizable :: bool
  st_winsize :: "(nat \<times> nat) option"
  st_terminal_size :: "terminal_size_state option"
  st_model :: "'v terminal_model option"

definition PATH_MAX :: nat where "PATH_MAX = 4096"

definition make_state_file_path :: "bytes \<Rightarrow> bytes \<Rightarrow> bytes result" where
  "make_state_file_path dir name =
     (let path = dir @ ''/'' @ name in if length path \<ge> PATH_MAX then Inl ENAMETOOLONG else Inr path)"

definition make_log_file_path :: "'v controller_state \<Rightarrow> bytes \<Rightarrow> bytes result" where
  "make_log_file_path s name = make_state_file_path (st_log_dir s) name"

section \<open>Directories\<close>

definition mkdir_if_needed :: "controller_env \<Rightarrow> bytes \<Rightarrow> unit result" where
  "mkdir_if_needed env path =
     (case ce_mkdir env path of
        Made \<Rightarrow> Inr ()
      | AlreadyThere is_dir \<Rightarrow> if is_dir then Inr () else Inl EEXIST
      | MkdirFailed e \<Rightarrow> Inl e)"

fun mkdir_all :: "controller_env \<Rightarrow> bytes list \<Rightarrow> unit result" where
  "mkdir_all env [] = Inr ()"
| "mkdir_all env (p # ps) = rbind (mkdir_if_needed env p) (\<lambda>_. mkdir_all env ps)"

text \<open>Every prefix that ends before a slash, but not before one at the start, and the path itself.\<close>

definition path_prefixes :: "bytes \<Rightarrow> bytes list" where
  "path_prefixes path = map (\<lambda>i. take i path) (filter (\<lambda>i. path ! i = CHR ''/'') [1..<length path]) @ [path]"

definition cubicle_mkdir_p :: "controller_env \<Rightarrow> bytes \<Rightarrow> unit result" where
  "cubicle_mkdir_p env path =
     (if path = [] \<or> length path \<ge> PATH_MAX then Inl ENAMETOOLONG else mkdir_all env (path_prefixes path))"

definition parent_directory :: "bytes \<Rightarrow> bytes option" where
  "parent_directory path =
     (if CHR ''/'' \<notin> set path then None
      else let p = rev (tl (dropWhile (\<lambda>c. c \<noteq> CHR ''/'') (rev path))) in Some (if p = [] then ''/'' else p))"

definition create_state_directory :: "controller_env \<Rightarrow> bytes \<Rightarrow> unit result" where
  "create_state_directory env path =
     (if length path \<ge> PATH_MAX then Inl ENAMETOOLONG
      else
        rbind (case parent_directory path of None \<Rightarrow> Inr () | Some p \<Rightarrow> cubicle_mkdir_p env p) (\<lambda>_.
        mkdir_if_needed env path))"

section \<open>Events\<close>

text \<open>The one write of a line: interrupted writes are repeated, a short one is an error.\<close>

fun event_write :: "write_outcome list \<Rightarrow> bytes \<Rightarrow> bytes \<times> unit result" where
  "event_write [] line = (line, Inr ())"
| "event_write (WError e # ws) line = (if e = EINTR then event_write ws line else ([], Inl e))"
| "event_write (WShort n # ws) line = (take n line, if n \<ge> length line then Inr () else Inl EIO)"

definition append_file :: "bytes \<Rightarrow> bytes \<Rightarrow> 'v controller_state \<Rightarrow> 'v controller_state" where
  "append_file path data s =
     s\<lparr>st_files := (st_files s)(path := Some ((case st_files s path of None \<Rightarrow> [] | Some c \<Rightarrow> c) @ data))\<rparr>"

definition event_log_line :: "int \<Rightarrow> bytes \<Rightarrow> bytes" where
  "event_log_line seq event = ''seq='' @ show_int seq @ '' '' @ event @ [NL]"

definition append_event :: "controller_env \<Rightarrow> bytes \<Rightarrow> 'v controller_state \<Rightarrow> unit result \<times> 'v controller_state" where
  "append_event env event s =
     (case st_events_fd s of
        None \<Rightarrow> (Inl EBADF, s)
      | Some path \<Rightarrow>
          (let seq = st_next_sequence s; line = event_log_line seq event; s1 = s\<lparr>st_next_sequence := seq + 1\<rparr> in
           if length line \<ge> 1024 then (Inl ENAMETOOLONG, s1)
           else
             let (written, r) = event_write (ce_event_write env seq) line in (r, append_file path written s1)))"

definition append_debug_event ::
    "controller_env \<Rightarrow> bool \<Rightarrow> bytes \<Rightarrow> 'v controller_state \<Rightarrow> unit result \<times> 'v controller_state" where
  "append_debug_event env flag event s = (if flag then append_event env event s else (Inr (), s))"

definition printable_escape :: "char \<Rightarrow> char option" where
  "printable_escape c =
     (if c = CHR 0x0A then Some (CHR ''n'') else if c = CHR 0x0D then Some (CHR ''r'')
      else if c = CHR 0x09 then Some (CHR ''t'') else if c = CHR 0x08 then Some (CHR ''b'')
      else if c = CHR 0x1B then Some (CHR ''e'') else None)"

definition escaped_byte :: "char \<Rightarrow> bytes" where
  "escaped_byte c =
     (case printable_escape c of
        Some e \<Rightarrow> [BSL, e]
      | None \<Rightarrow>
          if 0x20 \<le> byte c \<and> byte c \<le> 0x7e \<and> c \<noteq> BSL then [c] else [BSL, CHR ''x''] @ hex2 c)"

definition append_bounded :: "nat \<Rightarrow> bytes \<Rightarrow> bytes \<Rightarrow> bytes" where
  "append_bounded capacity used t = (if length used + length t < capacity then used @ t else used)"

definition input_event :: "bytes \<Rightarrow> bytes \<Rightarrow> bytes" where
  "input_event source data =
     (let sample = take 64 data in
      ''type=input length='' @ show_nat (length data) @ '' source='' @ source
      @ '' data_hex='' @ foldl (append_bounded 257) [] (map hex2 sample)
      @ '' data_escaped='' @ foldl (append_bounded 513) [] (map escaped_byte sample)
      @ (if length data > 64 then '' truncated=true'' else []))"

definition append_input_event ::
    "controller_env \<Rightarrow> bytes \<Rightarrow> bytes \<Rightarrow> 'v controller_state \<Rightarrow> unit result \<times> 'v controller_state" where
  "append_input_event env source data s =
     (if \<not> st_debug_input s then
        let event = ''type=input length='' @ show_nat (length data) in
        if length event < 128 then append_event env event s else (Inl errno_unset, s)
      else
        let event = input_event source data in
        if length event \<ge> 1024 then (Inl ENAMETOOLONG, s) else append_event env event s)"

section \<open>Starting\<close>

datatype process_mode = ModeStream | ModeTty | ModeTerm

fun cubicle_process_mode_name :: "process_mode \<Rightarrow> bytes" where
  "cubicle_process_mode_name ModeStream = ''stream''"
| "cubicle_process_mode_name ModeTty = ''tty''"
| "cubicle_process_mode_name ModeTerm = ''term''"

definition state_file_present :: "controller_env \<Rightarrow> 'v controller_state \<Rightarrow> bytes \<Rightarrow> bytes \<Rightarrow> unit result" where
  "state_file_present env s dir name =
     rbind (make_state_file_path dir name) (\<lambda>path.
     if st_files s path \<noteq> None then Inl EEXIST
     else case ce_lstat_error env path of None \<Rightarrow> Inr () | Some e \<Rightarrow> if e = ENOENT then Inr () else Inl e)"

definition durable_state_files_present :: "controller_env \<Rightarrow> 'v controller_state \<Rightarrow> unit result" where
  "durable_state_files_present env s =
     rbind (state_file_present env s (st_dir s) ''metadata'') (\<lambda>_.
     rbind (state_file_present env s (st_log_dir s) ''events.log'') (\<lambda>_.
     rbind (state_file_present env s (st_log_dir s) ''stdout.log'') (\<lambda>_.
     state_file_present env s (st_log_dir s) ''stderr.log'')))"

text \<open>Opening with \<open>O_CREAT | O_EXCL\<close>.\<close>

definition open_state_file ::
    "controller_env \<Rightarrow> bytes \<Rightarrow> bytes \<Rightarrow> 'v controller_state \<Rightarrow> bytes result \<times> 'v controller_state" where
  "open_state_file env dir name s =
     (case make_state_file_path dir name of
        Inl e \<Rightarrow> (Inl e, s)
      | Inr path \<Rightarrow>
          (case ce_create_error env path of
             Some e \<Rightarrow> (Inl e, s)
           | None \<Rightarrow>
               if st_files s path \<noteq> None then (Inl EEXIST, s)
               else (Inr path, s\<lparr>st_files := (st_files s)(path := Some [])\<rparr>)))"

fun join_words :: "bytes list \<Rightarrow> bytes" where
  "join_words [] = []"
| "join_words [w] = w"
| "join_words (w # ws) = w @ '' '' @ join_words ws"

text \<open>The command line is cut at the size of its buffer.\<close>

definition metadata_text :: "'v controller_state \<Rightarrow> nat \<Rightarrow> bytes list \<Rightarrow> process_mode \<Rightarrow> bool \<Rightarrow> bytes" where
  "metadata_text s pid command mode stdin_eof =
     ''controller_id='' @ st_controller_id s @ [NL] @ ''mode='' @ cubicle_process_mode_name mode @ [NL]
     @ ''pid='' @ show_nat pid @ [NL] @ ''pgid='' @ show_nat pid @ [NL]
     @ ''stdin_policy='' @ (if stdin_eof then ''eof'' else ''open'') @ [NL]
     @ ''command='' @ store 512 (join_words command) @ [NL]"

definition write_metadata ::
    "controller_env \<Rightarrow> nat \<Rightarrow> bytes list \<Rightarrow> process_mode \<Rightarrow> bool \<Rightarrow> 'v controller_state \<Rightarrow> unit result \<times> 'v controller_state" where
  "write_metadata env pid command mode stdin_eof s =
     (case open_state_file env (st_dir s) ''metadata'' s of
        (Inl e, s1) \<Rightarrow> (Inl e, s1)
      | (Inr path, s1) \<Rightarrow>
          (let text = metadata_text s1 pid command mode stdin_eof in
           if length text \<ge> 1024 then (Inl errno_unset, s1)
           else case cubicle_write_all (ce_metadata_write env) text of (written, r, _) \<Rightarrow> (r, append_file path written s1)))"

text \<open>All three logs are opened before the descriptors are looked at.\<close>

definition open_logs :: "controller_env \<Rightarrow> 'v controller_state \<Rightarrow> unit result \<times> 'v controller_state" where
  "open_logs env s =
     (let (ev, s1) = open_state_file env (st_log_dir s) ''events.log'' s;
          (out, s2) = open_state_file env (st_log_dir s) ''stdout.log'' s1;
          (err, s3) = open_state_file env (st_log_dir s) ''stderr.log'' s2;
          s4 = s3\<lparr>st_events_fd := to_option ev, st_stdout_fd := to_option out, st_stderr_fd := to_option err\<rparr> in
      (case err of Inl e \<Rightarrow> Inl e | Inr _ \<Rightarrow> (case out of Inl e \<Rightarrow> Inl e | Inr _ \<Rightarrow> (case ev of Inl e \<Rightarrow> Inl e | Inr _ \<Rightarrow> Inr ())), s4))"

definition initialize_empty_controller_state ::
    "(bytes \<Rightarrow> bytes option) \<Rightarrow> 'v controller_state" where
  "initialize_empty_controller_state files =
     \<lparr>st_dir = [], st_log_dir = [], st_controller_id = [], st_events_fd = None, st_stdout_fd = None, st_stderr_fd = None,
      st_next_sequence = 0, st_stdout_offset = 0, st_stderr_offset = 0, st_debug_input = False, st_debug_library = False,
      st_debug_terminal = False, st_terminal_attachment_active = False, st_files = files, st_stdin_open = False,
      st_child_input = [], st_child_writes = [], st_signals = [], st_resizable = False, st_stderr_resizable = False, st_winsize = None,
      st_terminal_size = None, st_model = None\<rparr>"

definition initialize_controller_state ::
    "controller_env \<Rightarrow> bytes result \<Rightarrow> bytes option \<Rightarrow> bytes option \<Rightarrow> nat \<Rightarrow> bytes list \<Rightarrow> process_mode \<Rightarrow> bool
     \<Rightarrow> (bytes \<Rightarrow> bytes option) \<Rightarrow> unit result \<times> 'v controller_state" where
  "initialize_controller_state env generated requested_dir requested_log_dir pid command mode stdin_eof files =
     (let s0 = (initialize_empty_controller_state files)\<lparr>st_next_sequence := 1\<rparr> in
      case generated of
        Inl e \<Rightarrow> (Inl e, s0)
      | Inr cid \<Rightarrow>
          (let dir = (case requested_dir of Some d \<Rightarrow> d | None \<Rightarrow> ''.cubicle/controllers/'' @ cid);
               log_dir = (case requested_log_dir of Some d \<Rightarrow> d | None \<Rightarrow> dir);
               s1 = s0\<lparr>st_controller_id := cid, st_dir := store PATH_MAX dir\<rparr>;
               s2 = s1\<lparr>st_log_dir := store PATH_MAX log_dir\<rparr> in
           if length dir \<ge> PATH_MAX then (Inl ENAMETOOLONG, s1)
           else if length log_dir \<ge> PATH_MAX then (Inl ENAMETOOLONG, s2)
           else
             case rbind (create_state_directory env dir) (\<lambda>_. rbind (create_state_directory env log_dir) (\<lambda>_.
                    durable_state_files_present env s2)) of
               Inl e \<Rightarrow> (Inl e, s2)
             | Inr _ \<Rightarrow>
                 (case write_metadata env pid command mode stdin_eof s2 of
                    (Inl e, s3) \<Rightarrow> (Inl e, s3)
                  | (Inr _, s3) \<Rightarrow>
                      (case open_logs env s3 of
                         (Inl e, s4) \<Rightarrow> (Inl e, s4)
                       | (Inr _, s4) \<Rightarrow>
                           (let event = ''type=process_started controller_id='' @ cid @ '' pid='' @ show_nat pid @ '' pgid=''
                                  @ show_nat pid @ '' mode='' @ cubicle_process_mode_name mode in
                            if length event \<ge> 256 then (Inl ENAMETOOLONG, s4) else append_event env event s4)))))"

end
