(* ===== verification/Controller_Control.thy ===== *)
theory Controller_Control
  imports Controller_State Frames
begin

text \<open>
  The clients of a controller's control socket (\<open>src/src/controller/control.c\<close>): a table of slots, the
  buffers of each client, the answers to requests in lines and to framed requests of the API. Reading a log that
  opened does not fail. What the kernel answers to the calls on a client's socket is a list of outcomes; at its end
  a read would block and a write succeeds.
\<close>

section \<open>Clients\<close>

definition CUBICLE_MAX_CONTROL_CLIENTS :: nat where "CUBICLE_MAX_CONTROL_CLIENTS = 32"
definition CUBICLE_LINE_REQUEST_MAX :: nat where "CUBICLE_LINE_REQUEST_MAX = 256"
definition CUBICLE_REQUEST_MAX :: nat where "CUBICLE_REQUEST_MAX = 8192"
definition CUBICLE_RESPONSE_MAX :: nat where "CUBICLE_RESPONSE_MAX = 4194304"
definition CUBICLE_MAX_SIGNAL_NUMBER :: nat where "CUBICLE_MAX_SIGNAL_NUMBER = 128"

lemmas control_limits =
  CUBICLE_MAX_CONTROL_CLIENTS_def CUBICLE_LINE_REQUEST_MAX_def CUBICLE_REQUEST_MAX_def CUBICLE_RESPONSE_MAX_def
  CUBICLE_MAX_SIGNAL_NUMBER_def

datatype control_client_kind =
    ClientEmpty | ClientReading | ClientResponding | ClientAttachedStdout | ClientAttachedStderr
  | ClientAttachingStdin | ClientAttachedStdin

text \<open>
  The lengths of the buffers are those of the lists. \<open>cc_sent\<close> is what was written to the client's socket so far; the
  code does not keep it.
\<close>

record control_client =
  cc_fd :: "nat option"
  cc_kind :: control_client_kind
  cc_request :: bytes
  cc_framed_request :: bool
  cc_framed_length :: nat
  cc_response :: bytes
  cc_response_capacity :: nat
  cc_response_offset :: nat
  cc_close_after_response :: bool
  cc_last_activity_ms :: "64 word"
  cc_sent :: bytes

definition empty_client :: control_client where
  "empty_client =
     \<lparr>cc_fd = None, cc_kind = ClientEmpty, cc_request = [], cc_framed_request = False, cc_framed_length = 0,
      cc_response = [], cc_response_capacity = 0, cc_response_offset = 0, cc_close_after_response = False,
      cc_last_activity_ms = 0, cc_sent = []\<rparr>"

definition initialize_control_clients :: "control_client list" where
  "initialize_control_clients = replicate CUBICLE_MAX_CONTROL_CLIENTS empty_client"

text \<open>What the handlers are called with beside the client and the state.\<close>

record 'v control_context =
  hx_env :: controller_env
  hx_vterm :: "'v vterm"
  hx_pid :: nat
  hx_completed :: bool
  hx_result :: int
  hx_now :: "64 word"

text \<open>Events whose failure is not looked at.\<close>

definition log_event :: "'v control_context \<Rightarrow> bytes \<Rightarrow> 'v controller_state \<Rightarrow> 'v controller_state" where
  "log_event hx event s = snd (append_event (hx_env hx) event s)"

definition close_control_client ::
    "'v control_context \<Rightarrow> control_client \<Rightarrow> 'v controller_state \<Rightarrow> control_client \<times> 'v controller_state" where
  "close_control_client hx c s =
     (empty_client,
      if cc_fd c = None then s
      else case cc_kind c of
        ClientAttachedStdout \<Rightarrow> log_event hx ''type=client_detached stream=stdout'' s
      | ClientAttachedStderr \<Rightarrow> log_event hx ''type=client_detached stream=stderr'' s
      | ClientAttachedStdin \<Rightarrow> log_event hx ''type=client_detached stream=stdin'' s
      | _ \<Rightarrow> s)"

fun close_all_control_clients ::
    "'v control_context \<Rightarrow> control_client list \<Rightarrow> 'v controller_state \<Rightarrow> control_client list \<times> 'v controller_state" where
  "close_all_control_clients hx [] s = ([], s)"
| "close_all_control_clients hx (c # cs) s =
     (let (c', s1) = close_control_client hx c s; (cs', s2) = close_all_control_clients hx cs s1 in (c' # cs', s2))"

definition append_controller_library_debug ::
    "'v control_context \<Rightarrow> bytes \<Rightarrow> bytes \<Rightarrow> nat \<Rightarrow> int \<Rightarrow> nat \<Rightarrow> 'v controller_state \<Rightarrow> 'v controller_state" where
  "append_controller_library_debug hx event_name meth request_bytes result response_bytes s =
     (let event = ''type=debug category=library event='' @ event_name @ '' method=''
            @ (if meth = [] then ''(unknown)'' else meth) @ '' request_bytes='' @ show_nat request_bytes
            @ '' result='' @ show_int result @ '' response_bytes='' @ show_nat response_bytes in
      if length event \<ge> 256 then s else snd (append_debug_event (hx_env hx) (st_debug_library s) event s))"

definition control_request_name :: "bytes \<Rightarrow> bytes" where
  "control_request_name request =
     (let name = take 31 (takeWhile (\<lambda>c. c \<noteq> CHR '' '') request) in if name = [] then ''(empty)'' else name)"

section \<open>Queueing responses\<close>

text \<open>The growth of the buffer; every call has \<open>0 < capacity\<close> and \<open>required \<le> CUBICLE_RESPONSE_MAX\<close>.\<close>

function grow_response :: "nat \<Rightarrow> nat \<Rightarrow> nat" where
  "grow_response required capacity =
     (if 0 < capacity \<and> capacity < required \<and> required \<le> CUBICLE_RESPONSE_MAX then
        grow_response required (if capacity > CUBICLE_RESPONSE_MAX div 2 then CUBICLE_RESPONSE_MAX else capacity * 2)
      else capacity)"
  by pat_completeness auto
termination
  by (relation "measure (\<lambda>(required, capacity). CUBICLE_RESPONSE_MAX - capacity)") auto

declare grow_response.simps [simp del]

definition enqueue_response :: "'v control_context \<Rightarrow> bytes \<Rightarrow> control_client \<Rightarrow> unit result \<times> control_client" where
  "enqueue_response hx buffer c =
     (if length buffer > CUBICLE_RESPONSE_MAX \<or> length (cc_response c) > CUBICLE_RESPONSE_MAX - length buffer then (Inl ENOBUFS, c)
      else
        let required = length (cc_response c) + length buffer;
            capacity = (if required > cc_response_capacity c
                        then grow_response required (if cc_response_capacity c = 0 then 4096 else cc_response_capacity c)
                        else cc_response_capacity c) in
        if required > cc_response_capacity c \<and> \<not> ce_alloc (hx_env hx) capacity then (Inl ENOMEM, c)
        else (Inr (), c\<lparr>cc_response := cc_response c @ buffer, cc_response_capacity := capacity\<rparr>))"

definition enqueue_error_response :: "'v control_context \<Rightarrow> bytes \<Rightarrow> control_client \<Rightarrow> unit result \<times> control_client" where
  "enqueue_error_response hx message c =
     (let response = ''error '' @ message @ [NL] in
      if length response \<ge> 256 then (Inl ENAMETOOLONG, c)
      else enqueue_response hx response (c\<lparr>cc_kind := ClientResponding, cc_close_after_response := True\<rparr>))"

definition enqueue_api_frame :: "'v control_context \<Rightarrow> bytes \<Rightarrow> control_client \<Rightarrow> unit result \<times> control_client" where
  "enqueue_api_frame hx json c =
     (if length json > CUBICLE_RESPONSE_MAX - 4 then (Inl ENOBUFS, c)
      else
        case enqueue_response hx (be32 (length json)) (c\<lparr>cc_kind := ClientResponding, cc_close_after_response := False\<rparr>) of
          (Inl e, c1) \<Rightarrow> (Inl e, c1)
        | (Inr _, c1) \<Rightarrow> enqueue_response hx json c1)"

definition enqueue_api_error ::
    "'v control_context \<Rightarrow> bytes \<Rightarrow> cubicle_error_code \<Rightarrow> bytes \<Rightarrow> bool \<Rightarrow> int \<Rightarrow> control_client \<Rightarrow> unit result \<times> control_client" where
  "enqueue_api_error hx request_id code message retryable system_errno c =
     (case cubicle_rpc_error 2048 request_id code message retryable system_errno of
        Inl e \<Rightarrow> (Inl e, c)
      | Inr response \<Rightarrow> enqueue_api_frame hx response c)"

definition enqueue_api_success ::
    "'v control_context \<Rightarrow> bytes \<Rightarrow> bytes \<Rightarrow> control_client \<Rightarrow> unit result \<times> control_client" where
  "enqueue_api_success hx request_id result c =
     (let response_size = length request_id + length result + 128 in
      if \<not> ce_alloc (hx_env hx) response_size then (Inl ENOMEM, c)
      else case cubicle_rpc_success (ce_json (hx_env hx)) response_size request_id result of
        Inl e \<Rightarrow> (Inl e, c)
      | Inr response \<Rightarrow> enqueue_api_frame hx response c)"

section \<open>Logs\<close>

definition stream_file_name :: "bytes \<Rightarrow> bytes option" where
  "stream_file_name stream =
     (if stream \<in> {''stdout'', ''out'', ''tty''} then Some ''stdout.log''
      else if stream \<in> {''stderr'', ''err''} then Some ''stderr.log'' else None)"

definition stream_available_offset :: "'v controller_state \<Rightarrow> bytes \<Rightarrow> int" where
  "stream_available_offset s stream =
     (if stream \<in> {''stdout'', ''out'', ''tty''} then st_stdout_offset s
      else if stream \<in> {''stderr'', ''err''} then st_stderr_offset s else -1)"

definition open_log :: "'v control_context \<Rightarrow> 'v controller_state \<Rightarrow> bytes \<Rightarrow> bytes result" where
  "open_log hx s path =
     (case ce_open_error (hx_env hx) path of
        Some e \<Rightarrow> Inl e
      | None \<Rightarrow> (case st_files s path of None \<Rightarrow> Inl ENOENT | Some content \<Rightarrow> Inr content))"

text \<open>The bytes of a file, read and queued in pieces.\<close>

function enqueue_pieces :: "'v control_context \<Rightarrow> bytes \<Rightarrow> control_client \<Rightarrow> unit result \<times> control_client" where
  "enqueue_pieces hx data c =
     (if data = [] then (Inr (), c)
      else case enqueue_response hx (take 4096 data) c of
        (Inl e, c1) \<Rightarrow> (Inl e, c1)
      | (Inr _, c1) \<Rightarrow> enqueue_pieces hx (drop 4096 data) c1)"
  by pat_completeness auto
termination
  by (relation "measure (\<lambda>(hx, data, c). length data)") auto

declare enqueue_pieces.simps [simp del]

definition file_range :: "bytes \<Rightarrow> int \<Rightarrow> int \<Rightarrow> bytes" where
  "file_range content start n = take (nat n) (drop (nat start) content)"

definition read_stream_range ::
    "'v control_context \<Rightarrow> 'v controller_state \<Rightarrow> bytes \<Rightarrow> int \<Rightarrow> int \<Rightarrow> control_client \<Rightarrow> unit result \<times> control_client" where
  "read_stream_range hx s stream start requested_length c =
     (let available = stream_available_offset s stream in
      if start < 0 \<or> requested_length < 0 \<or> requested_length > 65536 then enqueue_error_response hx ''invalid_range'' c
      else case stream_file_name stream of
        None \<Rightarrow> enqueue_error_response hx ''unknown_stream'' c
      | Some file_name \<Rightarrow>
          if available < 0 then enqueue_error_response hx ''unknown_stream'' c
          else if start > available then enqueue_error_response hx ''range_past_end'' c
          else
            let n = (if start + requested_length > available then available - start else requested_length) in
            (case make_log_file_path s file_name of
               Inl _ \<Rightarrow> enqueue_error_response hx ''state_path_too_long'' c
             | Inr path \<Rightarrow>
                 (case open_log hx s path of
                    Inl _ \<Rightarrow> enqueue_error_response hx ''open_failed'' c
                  | Inr content \<Rightarrow>
                      (case enqueue_response hx (''ok length='' @ show_int n @ [NL]) c of
                         (Inl e, c1) \<Rightarrow> (Inl e, c1)
                       | (Inr _, c1) \<Rightarrow>
                           (case enqueue_pieces hx (file_range content start n) c1 of
                              (Inl e, c2) \<Rightarrow> (Inl e, c2)
                            | (Inr _, c2) \<Rightarrow> (Inr (), c2\<lparr>cc_kind := ClientResponding\<rparr>))))))"

definition enqueue_stream_bytes ::
    "'v control_context \<Rightarrow> 'v controller_state \<Rightarrow> bytes \<Rightarrow> int \<Rightarrow> int \<Rightarrow> control_client \<Rightarrow> unit result \<times> control_client" where
  "enqueue_stream_bytes hx s stream start n c =
     (case stream_file_name stream of
        None \<Rightarrow> (Inl errno_unset, c)
      | Some file_name \<Rightarrow>
          (case make_log_file_path s file_name of
             Inl e \<Rightarrow> (Inl e, c)
           | Inr path \<Rightarrow>
               (case open_log hx s path of
                  Inl e \<Rightarrow> (Inl e, c)
                | Inr content \<Rightarrow> enqueue_pieces hx (file_range content start n) c)))"

definition write_file_response ::
    "'v control_context \<Rightarrow> 'v controller_state \<Rightarrow> bytes \<Rightarrow> control_client \<Rightarrow> unit result \<times> control_client" where
  "write_file_response hx s file_name c =
     (case make_log_file_path s file_name of
        Inl _ \<Rightarrow> enqueue_error_response hx ''state_path_too_long'' c
      | Inr path \<Rightarrow>
          (case open_log hx s path of
             Inl _ \<Rightarrow> enqueue_error_response hx ''open_failed'' c
           | Inr content \<Rightarrow>
               if length content > 65536 then enqueue_error_response hx ''read_too_large'' c
               else
                 (case enqueue_response hx (''ok length='' @ show_nat (length content) @ [NL]) c of
                    (Inl e, c1) \<Rightarrow> (Inl e, c1)
                  | (Inr _, c1) \<Rightarrow>
                      (case enqueue_pieces hx content c1 of
                         (Inl e, c2) \<Rightarrow> (Inl e, c2)
                       | (Inr _, c2) \<Rightarrow> (Inr (), c2\<lparr>cc_kind := ClientResponding\<rparr>)))))"

text \<open>The lines of events after a number, up to a limit and as many as the buffer holds.\<close>

fun events_payload :: "int \<Rightarrow> int \<Rightarrow> int \<Rightarrow> bytes \<Rightarrow> bytes list \<Rightarrow> int \<times> bytes" where
  "events_payload since limit n payload [] = (n, payload)"
| "events_payload since limit n payload (l # ls) =
     (if n \<ge> limit then (n, payload)
      else case cubicle_parse_event_sequence (cstr l) of
        None \<Rightarrow> events_payload since limit n payload ls
      | Some seq \<Rightarrow>
          if seq \<le> since then events_payload since limit n payload ls
          else if length (cstr l) > 65536 - length payload then (n, payload)
          else events_payload since limit (n + 1) (payload @ cstr l) ls)"

definition write_events_after_response ::
    "'v control_context \<Rightarrow> 'v controller_state \<Rightarrow> int \<Rightarrow> int \<Rightarrow> control_client \<Rightarrow> unit result \<times> control_client" where
  "write_events_after_response hx s after_sequence limit c =
     (if after_sequence < 0 \<or> limit < 0 \<or> limit > 1024 then enqueue_error_response hx ''invalid_event_range'' c
      else case make_log_file_path s ''events.log'' of
        Inl _ \<Rightarrow> enqueue_error_response hx ''state_path_too_long'' c
      | Inr path \<Rightarrow>
          (case open_log hx s path of
             Inl _ \<Rightarrow> enqueue_error_response hx ''open_failed'' c
           | Inr content \<Rightarrow>
               (let (n, payload) = events_payload after_sequence limit 0 [] (fgets_lines 1024 content) in
                case enqueue_response hx (''ok count='' @ show_int n @ '' length='' @ show_nat (length payload) @ [NL]) c of
                  (Inl e, c1) \<Rightarrow> (Inl e, c1)
                | (Inr _, c1) \<Rightarrow>
                    (case enqueue_response hx payload c1 of
                       (Inl e, c2) \<Rightarrow> (Inl e, c2)
                     | (Inr _, c2) \<Rightarrow> (Inr (), c2\<lparr>cc_kind := ClientResponding\<rparr>)))))"


section \<open>Requests of the API\<close>

text \<open>What a builder operation returns; its growth loop always ends.\<close>

definition built :: "'a run \<Rightarrow> 'a result" where
  "built r = (case r of None \<Rightarrow> Inl ENOMEM | Some x \<Rightarrow> x)"

definition builder_alloc :: "'v control_context \<Rightarrow> size_t \<Rightarrow> bool" where
  "builder_alloc hx n = ce_alloc (hx_env hx) (unat n)"

definition stream_chunk :: "bytes \<Rightarrow> nat \<Rightarrow> nat \<Rightarrow> bytes" where
  "stream_chunk content offset n =
     (let data = take n (drop offset content); safe_total = cubicle_json_safe_utf8_prefix_length (Some data) in
      if safe_total > 0 \<and> safe_total < length data then take safe_total data else data)"

definition read_stream_json ::
    "'v control_context \<Rightarrow> 'v controller_state \<Rightarrow> bytes \<Rightarrow> 64 word \<Rightarrow> 64 word \<Rightarrow> bytes result" where
  "read_stream_json hx s stream offset maximum_length =
     (let available_offset = stream_available_offset s stream in
      if unat maximum_length > 8192 then Inl EMSGSIZE
      else case stream_file_name stream of
        None \<Rightarrow> Inl EINVAL
      | Some file_name \<Rightarrow>
          if available_offset < 0 \<or> int (unat offset) > available_offset then Inl EINVAL
          else
            rbind (make_log_file_path s file_name) (\<lambda>path.
            rbind (open_log hx s path) (\<lambda>content.
            let available = nat available_offset - unat offset;
                chunk = stream_chunk content (unat offset) (min available (unat maximum_length));
                next_offset = unat offset + length chunk in
            rbind (built (cubicle_json_builder_appendf (builder_alloc hx) cubicle_json_builder_init
              (''{\"start_offset\":'' @ show_nat (unat offset) @ '',\"next_offset\":'' @ show_nat next_offset
               @ '',\"end_of_stream\":'' @ (if int next_offset \<ge> available_offset then ''true'' else ''false'') @ '',\"data\":''))) (\<lambda>b1.
            rbind (built (cubicle_json_builder_append_string_n (builder_alloc hx) b1 (Some chunk) (length chunk))) (\<lambda>b2.
            rbind (built (cubicle_json_builder_appendf (builder_alloc hx) b2 ('',\"length\":'' @ show_nat (length chunk) @ ''}''))) (\<lambda>b3.
            Inr (bdata b3)))))))"

definition append_json_text :: "nat \<Rightarrow> bytes \<Rightarrow> bytes \<Rightarrow> bytes result" where
  "append_json_text capacity used t =
     rbind (cubicle_json_escape 512 (Some t)) (\<lambda>escaped.
     if length escaped + 2 \<ge> capacity - length used then Inl ENOSPC else Inr (used @ [DQ] @ escaped @ [DQ]))"

definition append_text :: "nat \<Rightarrow> bytes \<Rightarrow> bytes \<Rightarrow> bytes result" where
  "append_text capacity used t = (if length t \<ge> capacity - length used then Inl ENOSPC else Inr (used @ t))"

definition append_snapshot_json_cell :: "nat \<Rightarrow> bytes \<Rightarrow> terminal_cell \<Rightarrow> bytes result" where
  "append_snapshot_json_cell capacity used cell =
     rbind (append_text capacity used ''{\"t\":'') (\<lambda>u1.
     rbind (append_json_text capacity u1 (ct_text cell)) (\<lambda>u2.
     rbind (append_text capacity u2 '',\"sgr\":'') (\<lambda>u3.
     rbind (append_json_text capacity u3 (ct_sgr cell)) (\<lambda>u4.
     append_text capacity u4 ''}''))))"

fun snapshot_json_cells :: "nat \<Rightarrow> bool \<Rightarrow> bytes \<Rightarrow> terminal_cell list \<Rightarrow> bytes result" where
  "snapshot_json_cells capacity first used [] = Inr used"
| "snapshot_json_cells capacity first used (cell # cells) =
     rbind (if first then Inr used else append_text capacity used '','') (\<lambda>u1.
     rbind (append_snapshot_json_cell capacity u1 cell) (\<lambda>u2.
     snapshot_json_cells capacity False u2 cells))"

definition snapshot_json :: "'v control_context \<Rightarrow> 'v terminal_model \<Rightarrow> 64 word \<Rightarrow> nat \<Rightarrow> bytes result" where
  "snapshot_json hx m offset result_size =
     rbind (cubicle_terminal_model_snapshot (hx_vterm hx) (ce_alloc (hx_env hx)) offset m) (\<lambda>snap.
     rbind (append_text result_size []
       (''{\"rows\":'' @ show_nat (ts_rows snap) @ '',\"columns\":'' @ show_nat (ts_cols snap) @ '',\"cursor_row\":''
        @ show_nat (ts_cursor_row snap) @ '',\"cursor_column\":'' @ show_nat (ts_cursor_col snap) @ '',\"cursor_visible\":''
        @ (if ts_cursor_visible snap then ''true'' else ''false'') @ '',\"application_cursor\":''
        @ (if ts_application_cursor snap then ''true'' else ''false'') @ '',\"offset\":'' @ show_nat (unat (ts_offset snap))
        @ '',\"cells\":['')) (\<lambda>u1.
     rbind (snapshot_json_cells result_size True u1 (ts_cells snap)) (\<lambda>u2.
     append_text result_size u2 '']}'')))"

text \<open>A handler queues its answer; it returns a failure only when the answer could not be queued.\<close>

type_synonym 'v answered = "unit result \<times> control_client \<times> 'v controller_state"

definition api_success :: "'v control_context \<Rightarrow> bytes \<Rightarrow> bytes \<Rightarrow> control_client \<Rightarrow> 'v controller_state \<Rightarrow> 'v answered" where
  "api_success hx rid result c s = (let (r, c') = enqueue_api_success hx rid result c in (r, c', s))"

definition api_error ::
    "'v control_context \<Rightarrow> bytes \<Rightarrow> cubicle_error_code \<Rightarrow> bytes \<Rightarrow> bool \<Rightarrow> int \<Rightarrow> control_client \<Rightarrow> 'v controller_state \<Rightarrow> 'v answered" where
  "api_error hx rid code message retryable system_errno c s =
     (let (r, c') = enqueue_api_error hx rid code message retryable system_errno c in (r, c', s))"

definition status_json :: "'v control_context \<Rightarrow> 'v controller_state \<Rightarrow> bytes" where
  "status_json hx s =
     ''{\"state\":\"'' @ (if hx_completed hx then ''completed'' else ''running'') @ ''\",\"pid\":'' @ show_nat (hx_pid hx)
     @ '',\"pgid\":'' @ show_nat (hx_pid hx) @ (if hx_completed hx then '',\"result\":'' @ show_int (hx_result hx) else [])
     @ '',\"stdout_offset\":'' @ show_int (st_stdout_offset s) @ '',\"stderr_offset\":'' @ show_int (st_stderr_offset s)
     @ '',\"tty_offset\":'' @ show_int (st_stdout_offset s) @ ''}''"

definition api_status :: "'v control_context \<Rightarrow> bytes \<Rightarrow> control_client \<Rightarrow> 'v controller_state \<Rightarrow> 'v answered" where
  "api_status hx rid c s =
     (if length (status_json hx s) \<ge> 512 then (Inl errno_unset, c, s) else api_success hx rid (status_json hx s) c s)"

definition api_read :: "'v control_context \<Rightarrow> bytes \<Rightarrow> json \<Rightarrow> control_client \<Rightarrow> 'v controller_state \<Rightarrow> 'v answered" where
  "api_read hx rid params c s =
     (case rbind (cubicle_json_get_required_string params ''stream'' 32) (\<lambda>stream.
           rbind (cubicle_json_get_required_u64 params ''offset'') (\<lambda>offset.
           rbind (cubicle_json_get_required_u64 params ''maximum_length'') (\<lambda>maximum_length.
           Inr (stream, offset, maximum_length)))) of
        Inl _ \<Rightarrow> api_error hx rid CUBICLE_ERR_INVALID_ARGUMENT ''invalid read request'' False 0 c s
      | Inr (stream, offset, maximum_length) \<Rightarrow>
          (case read_stream_json hx s stream offset maximum_length of
             Inl e \<Rightarrow> api_error hx rid CUBICLE_ERR_INVALID_ARGUMENT ''read failed'' False (errno_number e) c s
           | Inr result \<Rightarrow> api_success hx rid result c s))"

definition api_snapshot :: "'v control_context \<Rightarrow> bytes \<Rightarrow> control_client \<Rightarrow> 'v controller_state \<Rightarrow> 'v answered" where
  "api_snapshot hx rid c s =
     (case st_model s of
        None \<Rightarrow> api_error hx rid CUBICLE_ERR_INVALID_STATE ''terminal snapshot is unavailable'' False 0 c s
      | Some m \<Rightarrow>
          if \<not> ce_alloc (hx_env hx) CUBICLE_RESPONSE_MAX
          then api_error hx rid CUBICLE_ERR_INTERNAL ''snapshot allocation failed'' False (errno_number ENOMEM) c s
          else case snapshot_json hx m (of_int (st_stdout_offset s)) CUBICLE_RESPONSE_MAX of
            Inl e \<Rightarrow> api_error hx rid CUBICLE_ERR_RESOURCE_LIMIT ''snapshot failed'' False (errno_number e) c s
          | Inr result \<Rightarrow> api_success hx rid result c s)"

definition write_child :: "bytes \<Rightarrow> 'v controller_state \<Rightarrow> unit result \<times> 'v controller_state" where
  "write_child data s =
     (if \<not> st_stdin_open s then (Inl EBADF, s)
      else let (written, r, ws) = write_best_effort (st_child_writes s) data in
        (r, s\<lparr>st_child_input := st_child_input s @ written, st_child_writes := ws\<rparr>))"

definition api_write :: "'v control_context \<Rightarrow> bytes \<Rightarrow> json \<Rightarrow> control_client \<Rightarrow> 'v controller_state \<Rightarrow> 'v answered" where
  "api_write hx rid params c s =
     (if hx_completed hx then api_error hx rid CUBICLE_ERR_INVALID_STATE ''process completed'' False 0 c s
      else if \<not> st_stdin_open s then api_error hx rid CUBICLE_ERR_INVALID_ARGUMENT ''invalid write request'' False 0 c s
      else case cubicle_json_get_required_string params ''data'' 4096 of
        Inl _ \<Rightarrow> api_error hx rid CUBICLE_ERR_INVALID_ARGUMENT ''invalid write request'' False 0 c s
      | Inr data \<Rightarrow>
          (case write_child (cstr data) s of
             (Inl e, s1) \<Rightarrow> api_error hx rid CUBICLE_ERR_IO ''write failed'' True (errno_number e) c s1
           | (Inr _, s1) \<Rightarrow> api_success hx rid ''{}'' c (snd (append_input_event (hx_env hx) ''api'' (cstr data) s1))))"

definition api_close_input :: "'v control_context \<Rightarrow> bytes \<Rightarrow> control_client \<Rightarrow> 'v controller_state \<Rightarrow> 'v answered" where
  "api_close_input hx rid c s =
     (if st_model s \<noteq> None
      then api_error hx rid CUBICLE_ERR_INVALID_STATE ''input close is unsupported for terminal processes'' False 0 c s
      else if \<not> st_stdin_open s then api_success hx rid ''{}'' c s
      else api_success hx rid ''{}'' c (log_event hx ''type=input_closed source=api'' (s\<lparr>st_stdin_open := False\<rparr>)))"

text \<open>The events of a resize; the text of each fits its buffer of 128 bytes.\<close>

definition checked_event ::
    "controller_env \<Rightarrow> nat \<Rightarrow> bytes \<Rightarrow> 'v controller_state \<Rightarrow> unit result \<times> 'v controller_state" where
  "checked_event env n event s = (if length event \<ge> n then (Inl errno_unset, s) else append_event env event s)"

definition checked_debug_event ::
    "controller_env \<Rightarrow> nat \<Rightarrow> bytes \<Rightarrow> 'v controller_state \<Rightarrow> unit result \<times> 'v controller_state" where
  "checked_debug_event env n event s =
     (if length event \<ge> n then (Inl errno_unset, s) else append_debug_event env (st_debug_terminal s) event s)"

definition resize_events ::
    "'v control_context \<Rightarrow> bytes \<Rightarrow> bytes \<Rightarrow> bytes \<Rightarrow> control_client \<Rightarrow> 'v controller_state \<Rightarrow> 'v answered" where
  "resize_events hx rid event debug_event c s =
     (case checked_event (hx_env hx) 128 event s of
        (Inl e, s1) \<Rightarrow> api_error hx rid CUBICLE_ERR_IO ''resize failed'' True (errno_number e) c s1
      | (Inr _, s1) \<Rightarrow>
          (case checked_debug_event (hx_env hx) 128 debug_event s1 of
             (Inl e, s2) \<Rightarrow> api_error hx rid CUBICLE_ERR_IO ''resize failed'' True (errno_number e) c s2
           | (Inr _, s2) \<Rightarrow> api_success hx rid ''{}'' c s2))"

definition size_is :: "nat \<Rightarrow> nat \<Rightarrow> 'v controller_state \<Rightarrow> bool" where
  "size_is rows columns s \<longleftrightarrow>
     (case st_terminal_size s of None \<Rightarrow> False | Some z \<Rightarrow> sz_known z \<and> sz_rows z = rows \<and> sz_columns z = columns)"

definition set_terminal_size :: "nat \<Rightarrow> nat \<Rightarrow> 'v controller_state \<Rightarrow> 'v controller_state" where
  "set_terminal_size rows columns s =
     s\<lparr>st_terminal_size := map_option (\<lambda>_. \<lparr>sz_rows = rows, sz_columns = columns, sz_known = True\<rparr>) (st_terminal_size s)\<rparr>"

text \<open>Both terminals of the child are told the size; the second is not there in every mode.\<close>

definition set_winsize :: "controller_env \<Rightarrow> nat \<Rightarrow> nat \<Rightarrow> 'v controller_state \<Rightarrow> unit result \<times> 'v controller_state" where
  "set_winsize env rows columns s =
     (case ce_winsize_error env rows columns of
        Some e \<Rightarrow> (Inl e, s)
      | None \<Rightarrow>
          ((if st_stderr_resizable s then case ce_stderr_winsize_error env rows columns of Some e \<Rightarrow> Inl e | None \<Rightarrow> Inr () else Inr ()),
           s\<lparr>st_winsize := Some (rows, columns)\<rparr>))"

definition resize_model ::
    "'v control_context \<Rightarrow> nat \<Rightarrow> nat \<Rightarrow> 'v controller_state \<Rightarrow> (unit result \<times> 'v controller_state) option" where
  "resize_model hx rows columns s =
     (case st_model s of
        None \<Rightarrow> Some (Inr (), s)
      | Some m \<Rightarrow>
          map_option (\<lambda>(r, m'). (r, s\<lparr>st_model := Some m'\<rparr>))
            (cubicle_terminal_model_resize (hx_vterm hx) (ce_alloc (hx_env hx)) rows columns m))"

definition api_resize ::
    "'v control_context \<Rightarrow> bytes \<Rightarrow> json \<Rightarrow> control_client \<Rightarrow> 'v controller_state \<Rightarrow> 'v answered option" where
  "api_resize hx rid params c s =
     (if hx_completed hx then Some (api_error hx rid CUBICLE_ERR_INVALID_STATE ''process completed'' False 0 c s)
      else if \<not> st_resizable s then Some (api_error hx rid CUBICLE_ERR_INVALID_ARGUMENT ''invalid resize request'' False 0 c s)
      else
        case rbind (cubicle_json_get_required_u64 params ''rows'') (\<lambda>rows.
             rbind (cubicle_json_get_required_u64 params ''columns'') (\<lambda>columns. Inr (unat rows, unat columns))) of
          Inl _ \<Rightarrow> Some (api_error hx rid CUBICLE_ERR_INVALID_ARGUMENT ''invalid resize request'' False 0 c s)
        | Inr (rows, columns) \<Rightarrow>
            if rows = 0 \<or> rows > 65535 \<or> columns = 0 \<or> columns > 65535
            then Some (api_error hx rid CUBICLE_ERR_INVALID_ARGUMENT ''invalid resize request'' False 0 c s)
            else
              let size_text = ''rows='' @ show_nat rows @ '' columns='' @ show_nat columns in
              if size_is rows columns s then
                Some (resize_events hx rid (''type=terminal_resize_skipped '' @ size_text @ '' reason=unchanged'')
                  (''type=debug category=terminal event=api_resize action=skipped '' @ size_text @ '' reason=unchanged'') c s)
              else
                case set_winsize (hx_env hx) rows columns s of
                  (Inl e, s1) \<Rightarrow> Some (api_error hx rid CUBICLE_ERR_IO ''resize failed'' True (errno_number e) c s1)
                | (Inr _, s1) \<Rightarrow>
                    map_option (\<lambda>(r, s2).
                      case r of
                        Inl e \<Rightarrow> api_error hx rid CUBICLE_ERR_IO ''resize failed'' True (errno_number e) c s2
                      | Inr _ \<Rightarrow>
                          resize_events hx rid (''type=terminal_resized '' @ size_text)
                            (''type=debug category=terminal event=api_resize action=applied '' @ size_text) c
                            (set_terminal_size rows columns s2))
                      (resize_model hx rows columns s1))"


definition CUBICLE_CHANNEL_MASK :: "64 word" where "CUBICLE_CHANNEL_MASK = 15"

definition has_channel :: "64 word \<Rightarrow> 64 word \<Rightarrow> bool" where
  "has_channel channels flag \<longleftrightarrow> channels AND flag \<noteq> 0"

text \<open>The channels are stdin 1, stdout 2, stderr 4 and tty 8.\<close>

definition accepted_channels :: "'v control_context \<Rightarrow> 'v controller_state \<Rightarrow> bytes \<Rightarrow> 64 word \<Rightarrow> 64 word" where
  "accepted_channels hx s mode channels =
     (let ch = (if mode = ''observer'' then channels AND NOT 1 else channels) in
      if has_channel ch 1 \<and> (hx_completed hx \<or> \<not> st_stdin_open s) then ch AND NOT 1 else ch)"

definition attach_event :: "'v control_context \<Rightarrow> 64 word \<Rightarrow> 64 word \<times> bytes \<Rightarrow> 'v controller_state \<Rightarrow> 'v controller_state" where
  "attach_event hx channels = (\<lambda>(flag, event) s. if has_channel channels flag then log_event hx event s else s)"

definition attach_events :: "'v control_context \<Rightarrow> 64 word \<Rightarrow> 'v controller_state \<Rightarrow> 'v controller_state" where
  "attach_events hx channels s =
     attach_event hx channels (8, ''type=client_attached stream=tty'')
       (attach_event hx channels (1, ''type=client_attached stream=stdin'')
         (attach_event hx channels (4, ''type=client_attached stream=stderr'')
           (attach_event hx channels (2, ''type=client_attached stream=stdout'') s)))"

definition attach_activate ::
    "'v control_context \<Rightarrow> 64 word \<Rightarrow> bytes \<Rightarrow> 'v controller_state \<Rightarrow> unit result \<times> 'v controller_state" where
  "attach_activate hx channels mode s =
     (if has_channel channels 1 \<and> (has_channel channels 8 \<or> has_channel channels 2) then
        checked_debug_event (hx_env hx) 192
          (''type=debug category=terminal event=attachment_active active=true channels='' @ show_nat (unat channels) @ '' mode='' @ mode)
          (log_event hx ''type=attachment_active active=true'' (s\<lparr>st_terminal_attachment_active := True\<rparr>))
      else (Inr (), s))"

definition attach_checks :: "json \<Rightarrow> (64 word \<times> bytes) option" where
  "attach_checks params =
     (case rbind (cubicle_json_get_required_string params ''token'' 512) (\<lambda>tok.
           rbind (cubicle_json_get_required_u64 params ''channels'') (\<lambda>channels.
           rbind (cubicle_json_get_required_string params ''mode'' 32) (\<lambda>mode. Inr (tok, channels, mode)))) of
        Inl _ \<Rightarrow> None
      | Inr (tok, channels, mode) \<Rightarrow>
          if take 6 tok = ''local:'' \<and> channels \<noteq> 0 \<and> channels AND NOT CUBICLE_CHANNEL_MASK = 0
            \<and> (mode = ''observer'' \<or> mode = ''interactive'')
          then Some (channels, mode) else None)"

definition api_attach :: "'v control_context \<Rightarrow> bytes \<Rightarrow> json \<Rightarrow> control_client \<Rightarrow> 'v controller_state \<Rightarrow> 'v answered" where
  "api_attach hx rid params c s =
     (case attach_checks params of
        None \<Rightarrow> api_error hx rid CUBICLE_ERR_PERMISSION_DENIED ''invalid attachment token'' False 0 c s
      | Some (requested, mode) \<Rightarrow>
          (let channels = accepted_channels hx s mode requested in
           if channels = 0 then api_error hx rid CUBICLE_ERR_PERMISSION_DENIED ''no attachment channels accepted'' False 0 c s
           else
             case attach_activate hx channels mode (attach_events hx channels s) of
               (Inl e, s1) \<Rightarrow> api_error hx rid CUBICLE_ERR_IO ''attachment event failed'' True (errno_number e) c s1
             | (Inr _, s1) \<Rightarrow>
                 (let result = ''{\"accepted_channels\":'' @ show_nat (unat channels) @ '',\"stdout_offset\":''
                        @ show_int (st_stdout_offset s1) @ '',\"stderr_offset\":'' @ show_int (st_stderr_offset s1)
                        @ '',\"tty_offset\":'' @ show_int (st_stdout_offset s1) @ ''}'' in
                  if length result \<ge> 512 then (Inl errno_unset, c, s1) else api_success hx rid result c s1)))"

definition api_detach :: "'v control_context \<Rightarrow> bytes \<Rightarrow> control_client \<Rightarrow> 'v controller_state \<Rightarrow> 'v answered" where
  "api_detach hx rid c s =
     (let s1 = log_event hx ''type=attachment_active active=false reason=detach'' (s\<lparr>st_terminal_attachment_active := False\<rparr>) in
      api_success hx rid ''{}'' c (snd (append_debug_event (hx_env hx) (st_debug_terminal s1)
        ''type=debug category=terminal event=attachment_active active=false reason=detach'' s1)))"

definition kill_group :: "'v control_context \<Rightarrow> nat \<Rightarrow> 'v controller_state \<Rightarrow> unit result \<times> 'v controller_state" where
  "kill_group hx sig s =
     (case ce_kill_error (hx_env hx) sig of
        Some e \<Rightarrow> (Inl e, s)
      | None \<Rightarrow> (Inr (), s\<lparr>st_signals := st_signals s @ [sig]\<rparr>))"

definition api_signal :: "'v control_context \<Rightarrow> bytes \<Rightarrow> json \<Rightarrow> control_client \<Rightarrow> 'v controller_state \<Rightarrow> 'v answered" where
  "api_signal hx rid params c s =
     (case (if hx_completed hx then None else (case cubicle_json_get_required_u64 params ''signal_number'' of Inl _ \<Rightarrow> None | Inr n \<Rightarrow> Some n)) of
        None \<Rightarrow> api_error hx rid CUBICLE_ERR_INVALID_ARGUMENT ''invalid signal request'' False 0 c s
      | Some signal_number \<Rightarrow>
          if signal_number = 0 \<or> unat signal_number \<ge> CUBICLE_MAX_SIGNAL_NUMBER
          then api_error hx rid CUBICLE_ERR_INVALID_ARGUMENT ''invalid signal request'' False 0 c s
          else case kill_group hx (unat signal_number) s of
            (Inl e, s1) \<Rightarrow> api_error hx rid CUBICLE_ERR_IO ''signal failed'' True (errno_number e) c s1
          | (Inr _, s1) \<Rightarrow> api_success hx rid ''{}'' c s1)"

definition api_terminate :: "'v control_context \<Rightarrow> bytes \<Rightarrow> control_client \<Rightarrow> 'v controller_state \<Rightarrow> 'v answered" where
  "api_terminate hx rid c s =
     (if hx_completed hx then api_error hx rid CUBICLE_ERR_INVALID_STATE ''process completed'' False 0 c s
      else case kill_group hx SIGTERM s of
        (Inl e, s1) \<Rightarrow> api_error hx rid CUBICLE_ERR_IO ''terminate failed'' True (errno_number e) c s1
      | (Inr _, s1) \<Rightarrow> api_success hx rid ''{}'' c s1)"

text \<open>The events of the API; \<open>None\<close> when they do not fit their buffer.\<close>

fun api_events_loop :: "int \<Rightarrow> nat \<Rightarrow> nat \<Rightarrow> bytes \<Rightarrow> bytes list \<Rightarrow> (nat \<times> bytes) option" where
  "api_events_loop since limit n used [] = Some (n, used)"
| "api_events_loop since limit n used (l # ls) =
     (if n \<ge> limit then Some (n, used)
      else case cubicle_parse_event_sequence (cstr l) of
        None \<Rightarrow> api_events_loop since limit n used ls
      | Some seq \<Rightarrow>
          if seq \<le> since then api_events_loop since limit n used ls
          else case cubicle_json_escape 2048 (Some (takeWhile (\<lambda>ch. ch \<noteq> NL) (cstr l))) of
            Inl _ \<Rightarrow> api_events_loop since limit n used ls
          | Inr escaped \<Rightarrow>
              (let t = (if n = 0 then [] else '','') @ ''{\"sequence\":'' @ show_int seq @ '',\"payload\":\"'' @ escaped @ ''\"}'' in
               if length t \<ge> 8192 - length used then None else api_events_loop since limit (n + 1) (used @ t) ls))"

definition api_events_after :: "'v control_context \<Rightarrow> bytes \<Rightarrow> json \<Rightarrow> control_client \<Rightarrow> 'v controller_state \<Rightarrow> 'v answered" where
  "api_events_after hx rid params c s =
     (case rbind (cubicle_json_get_required_u64 params ''after_sequence'') (\<lambda>since.
           rbind (cubicle_json_get_required_u64 params ''limit'') (\<lambda>limit. Inr (since, unat limit))) of
        Inl _ \<Rightarrow> api_error hx rid CUBICLE_ERR_INVALID_ARGUMENT ''invalid events request'' False 0 c s
      | Inr (since, limit) \<Rightarrow>
          if limit > 1024 then api_error hx rid CUBICLE_ERR_INVALID_ARGUMENT ''invalid events request'' False 0 c s
          else case make_log_file_path s ''events.log'' of
            Inl e \<Rightarrow> api_error hx rid CUBICLE_ERR_IO ''events path failed'' True (errno_number e) c s
          | Inr path \<Rightarrow>
              (let too_large = api_error hx rid CUBICLE_ERR_RESOURCE_LIMIT ''events response too large'' False 0 c s in
               case api_events_loop (sint since) limit 0 ''{\"events\":[''
                      (case open_log hx s path of Inl _ \<Rightarrow> [] | Inr content \<Rightarrow> fgets_lines 1024 content) of
                 None \<Rightarrow> too_large
               | Some (n, used) \<Rightarrow>
                   (case append_text 8192 used (''],\"count\":'' @ show_nat n @ ''}'') of
                      Inl _ \<Rightarrow> too_large
                    | Inr result \<Rightarrow> api_success hx rid result c s)))"

definition api_return :: "'v control_context \<Rightarrow> bytes \<Rightarrow> 'v answered \<Rightarrow> 'v answered" where
  "api_return hx meth = (\<lambda>(r, c, s).
     (r, c, append_controller_library_debug hx ''api_response'' meth (length (cc_request c))
              (case r of Inl _ \<Rightarrow> -1 | Inr _ \<Rightarrow> 0) (length (cc_response c)) s))"

definition dispatch_method ::
    "'v control_context \<Rightarrow> bytes \<Rightarrow> bytes \<Rightarrow> json \<Rightarrow> control_client \<Rightarrow> 'v controller_state \<Rightarrow> 'v answered option" where
  "dispatch_method hx meth rid params c s =
     (if meth = ''controller.status'' then Some (api_status hx rid c s)
      else if meth = ''controller.read'' \<or> meth = ''controller.read_output'' then Some (api_read hx rid params c s)
      else if meth = ''controller.snapshot'' then Some (api_snapshot hx rid c s)
      else if meth = ''controller.write'' then Some (api_write hx rid params c s)
      else if meth = ''controller.close_input'' then Some (api_close_input hx rid c s)
      else if meth = ''controller.resize'' then api_resize hx rid params c s
      else if meth = ''controller.attach'' then Some (api_attach hx rid params c s)
      else if meth = ''controller.detach'' then Some (api_detach hx rid c s)
      else if meth = ''controller.signal'' then Some (api_signal hx rid params c s)
      else if meth = ''controller.terminate'' then Some (api_terminate hx rid c s)
      else if meth = ''controller.events_after'' then Some (api_events_after hx rid params c s)
      else Some (api_error hx rid CUBICLE_ERR_UNSUPPORTED ''method is not implemented'' False 0 c s))"

text \<open>The debug event of a request that does not decode comes before its answer.\<close>

definition dispatch_api_request ::
    "'v control_context \<Rightarrow> control_client \<Rightarrow> 'v controller_state \<Rightarrow> 'v answered option" where
  "dispatch_api_request hx c s =
     (case cubicle_rpc_decode_request (ce_json (hx_env hx)) (Some (cstr (cc_request c))) of
        Inl _ \<Rightarrow>
          Some (api_error hx [] CUBICLE_ERR_PROTOCOL ''invalid request envelope'' False 0 c
            (append_controller_library_debug hx ''api_response'' ''(invalid)'' (length (cc_request c)) (-1) (length (cc_response c)) s))
      | Inr envelope \<Rightarrow>
          map_option (api_return hx (req_method envelope))
            (dispatch_method hx (req_method envelope) (req_request_id envelope) (req_params envelope) c s))"

end
