(* ===== verification/Controller_Requests.thy ===== *)
theory Controller_Requests
  imports Controller_Control
begin

text \<open>
  The other half of \<open>src/src/controller/control.c\<close>: the requests in lines, reading a client's request from its
  socket a piece at a time, writing what is queued for it, accepting clients, and the traffic of attached
  clients.
\<close>

section \<open>Scanning\<close>

text \<open>
  The conversions of \<open>sscanf\<close>: the value that the digits denote, and what follows them. \<open>%lld\<close> keeps it
  within its type; \<open>%u\<close> and \<open>%d\<close> convert it to 64 bits and then cut it to 32.
\<close>

definition scan_number :: "bytes \<Rightarrow> (int \<times> bytes) option" where
  "scan_number s =
     (let (neg, d) = sign_split s; digits = takeWhile is_digit d; v = int (dec_value digits) in
      if digits = [] then None else Some (if neg then - v else v, dropWhile is_digit d))"

definition to_lld :: "int \<Rightarrow> int" where
  "to_lld v = max (- (2 ^ 63)) (min v (2 ^ 63 - 1))"

definition to_u :: "int \<Rightarrow> nat" where
  "to_u v = nat ((if \<bar>v\<bar> \<ge> 2 ^ 64 then - 1 else v) mod 2 ^ 32)"

definition to_d :: "int \<Rightarrow> int" where
  "to_d v = sint (of_int (to_lld v) :: 32 word)"

definition scan_two :: "bytes \<Rightarrow> (int \<times> int) option" where
  "scan_two s = Option.bind (scan_number s) (\<lambda>(a, r). Option.bind (scan_number r) (\<lambda>(b, _). Some (a, b)))"

text \<open>\<open>%15s\<close>.\<close>

definition scan_word :: "bytes \<Rightarrow> (bytes \<times> bytes) option" where
  "scan_word s =
     (let t = dropWhile isspace s; w = take 15 (takeWhile (\<lambda>c. \<not> isspace c) t) in
      if w = [] then None else Some (w, drop (length w) t))"

section \<open>Requests in lines\<close>

definition starts_with :: "bytes \<Rightarrow> bytes \<Rightarrow> bool" where
  "starts_with p s \<longleftrightarrow> take (length p) s = p"

definition line_error :: "'v control_context \<Rightarrow> bytes \<Rightarrow> control_client \<Rightarrow> 'v controller_state \<Rightarrow> 'v answered" where
  "line_error hx message c s = (let (r, c') = enqueue_error_response hx message c in (r, c', s))"

definition line_response :: "'v control_context \<Rightarrow> bytes \<Rightarrow> control_client \<Rightarrow> 'v controller_state \<Rightarrow> 'v answered" where
  "line_response hx response c s = (let (r, c') = enqueue_response hx response (c\<lparr>cc_kind := ClientResponding\<rparr>) in (r, c', s))"

definition line_done :: "'v control_context \<Rightarrow> control_client \<Rightarrow> 'v controller_state \<Rightarrow> 'v answered" where
  "line_done hx c s = line_response hx (''ok'' @ [NL]) c s"

definition status_line :: "'v control_context \<Rightarrow> 'v controller_state \<Rightarrow> bytes" where
  "status_line hx s =
     ''ok state='' @ (if hx_completed hx then ''completed'' else ''running'') @ '' pid='' @ show_nat (hx_pid hx)
     @ '' pgid='' @ show_nat (hx_pid hx) @ (if hx_completed hx then '' result='' @ show_int (hx_result hx) else [])
     @ '' stdout_offset='' @ show_int (st_stdout_offset s) @ '' stderr_offset='' @ show_int (st_stderr_offset s) @ [NL]"

definition line_status :: "'v control_context \<Rightarrow> control_client \<Rightarrow> 'v controller_state \<Rightarrow> 'v answered" where
  "line_status hx c s =
     (if length (status_line hx s) \<ge> 256 then (Inl errno_unset, c, s) else line_response hx (status_line hx s) c s)"

definition line_events :: "'v control_context \<Rightarrow> bytes \<Rightarrow> control_client \<Rightarrow> 'v controller_state \<Rightarrow> 'v answered" where
  "line_events hx args c s =
     (case scan_two args of
        None \<Rightarrow> line_error hx ''bad_events_command'' c s
      | Some (since, limit) \<Rightarrow>
          (let (r, c') = write_events_after_response hx s (to_lld since) (to_lld limit) c in (r, c', s)))"

definition line_read :: "'v control_context \<Rightarrow> bytes \<Rightarrow> control_client \<Rightarrow> 'v controller_state \<Rightarrow> 'v answered" where
  "line_read hx args c s =
     (case Option.bind (scan_word args) (\<lambda>(w, r). map_option (Pair w) (scan_two r)) of
        None \<Rightarrow> line_error hx ''bad_read_command'' c s
      | Some (stream, start, n) \<Rightarrow>
          (let (r, c') = read_stream_range hx s stream (to_lld start) (to_lld n) c in (r, c', s)))"

definition line_attach_stdin :: "'v control_context \<Rightarrow> control_client \<Rightarrow> 'v controller_state \<Rightarrow> 'v answered" where
  "line_attach_stdin hx c s =
     (if hx_completed hx then line_error hx ''process_completed'' c s
      else if \<not> st_stdin_open s then line_error hx ''stdin_closed'' c s
      else let (r, c') = enqueue_response hx (''ok attached stream=stdin'' @ [NL]) (c\<lparr>cc_kind := ClientAttachingStdin\<rparr>) in (r, c', s))"

definition line_resize ::
    "'v control_context \<Rightarrow> bytes \<Rightarrow> control_client \<Rightarrow> 'v controller_state \<Rightarrow> 'v answered option" where
  "line_resize hx args c s =
     (if hx_completed hx then Some (line_error hx ''process_completed'' c s)
      else if \<not> st_resizable s then Some (line_error hx ''resize_unsupported'' c s)
      else case scan_two args of
        None \<Rightarrow> Some (line_error hx ''bad_resize'' c s)
      | Some (a, b) \<Rightarrow>
          (let rows = to_u a; columns = to_u b; ws_row = rows mod 2 ^ 16; ws_col = columns mod 2 ^ 16 in
           if rows = 0 \<or> columns = 0 then Some (line_error hx ''bad_resize'' c s)
           else if size_is ws_row ws_col s then Some (line_done hx c s)
           else case set_winsize (hx_env hx) ws_row ws_col s of
             (Inl _, s1) \<Rightarrow> Some (line_error hx ''resize_failed'' c s1)
           | (Inr _, s1) \<Rightarrow>
               map_option (\<lambda>(r, s2).
                 case r of
                   Inl _ \<Rightarrow> line_error hx ''resize_failed'' c s2
                 | Inr _ \<Rightarrow>
                     line_done hx c (snd (checked_event (hx_env hx) 128
                       (''type=terminal_resized rows='' @ show_nat rows @ '' columns='' @ show_nat columns)
                       (set_terminal_size ws_row ws_col s2))))
                 (resize_model hx rows columns s1)))"

text \<open>\<open>Inr True\<close>: the client was sent an error; \<open>Inr False\<close>: the output so far was queued.\<close>

definition send_attach_catchup ::
    "'v control_context \<Rightarrow> 'v controller_state \<Rightarrow> bytes \<Rightarrow> int \<Rightarrow> control_client \<Rightarrow> bool result \<times> control_client" where
  "send_attach_catchup hx s stream start c =
     (let available = stream_available_offset s stream;
          refuse = (\<lambda>message. case enqueue_error_response hx message c of (Inl e, c1) \<Rightarrow> (Inl e, c1) | (Inr _, c1) \<Rightarrow> (Inr True, c1));
          n = available - start;
          header = ''ok attached stream='' @ stream @ '' start='' @ show_int start @ '' length='' @ show_int n @ [NL] in
      if available < 0 then refuse ''unknown_stream''
      else if start < 0 \<or> start > available then refuse ''invalid_attach_start''
      else if n > 65536 then refuse ''read_too_large''
      else if length header \<ge> 96 then (Inl errno_unset, c)
      else case enqueue_response hx header c of
        (Inl e, c1) \<Rightarrow> (Inl e, c1)
      | (Inr _, c1) \<Rightarrow>
          (case enqueue_stream_bytes hx s stream start n c1 of
             (Inl e, c2) \<Rightarrow> (Inl e, c2)
           | (Inr _, c2) \<Rightarrow> (Inr False, c2)))"

definition line_attach :: "'v control_context \<Rightarrow> bytes \<Rightarrow> control_client \<Rightarrow> 'v controller_state \<Rightarrow> 'v answered" where
  "line_attach hx args c s =
     (if hx_completed hx then line_error hx ''process_completed'' c s
      else case Option.bind (scan_word args) (\<lambda>(w, r). map_option (\<lambda>(v, _). (w, to_lld v)) (scan_number r)) of
        None \<Rightarrow> line_error hx ''bad_attach_command'' c s
      | Some (stream, start) \<Rightarrow>
          (case stream_file_name stream of
             None \<Rightarrow> line_error hx ''unknown_stream'' c s
           | Some file_name \<Rightarrow>
               (case send_attach_catchup hx s stream start c of
                  (Inl e, c1) \<Rightarrow> (Inl e, c1, s)
                | (Inr True, c1) \<Rightarrow> (Inr (), c1, s)
                | (Inr False, c1) \<Rightarrow>
                    if file_name = ''stdout.log''
                    then (Inr (), c1\<lparr>cc_kind := ClientAttachedStdout\<rparr>, log_event hx ''type=client_attached stream=stdout'' s)
                    else (Inr (), c1\<lparr>cc_kind := ClientAttachedStderr\<rparr>, log_event hx ''type=client_attached stream=stderr'' s))))"

definition line_signal :: "'v control_context \<Rightarrow> nat \<Rightarrow> control_client \<Rightarrow> 'v controller_state \<Rightarrow> 'v answered" where
  "line_signal hx sig c s =
     (case kill_group hx sig s of
        (Inl _, s1) \<Rightarrow> line_error hx ''signal_failed'' c s1
      | (Inr _, s1) \<Rightarrow> line_done hx c (log_event hx (''type=signal_delivered signal='' @ show_nat sig) s1))"

definition line_request ::
    "'v control_context \<Rightarrow> bytes \<Rightarrow> control_client \<Rightarrow> 'v controller_state \<Rightarrow> 'v answered option" where
  "line_request hx request c s =
     (if request = ''status'' then Some (line_status hx c s)
      else if request = ''metadata'' then Some (let (r, c') = write_file_response hx s ''metadata'' c in (r, c', s))
      else if starts_with ''events after '' request then Some (line_events hx (drop 13 request) c s)
      else if starts_with ''read '' request then Some (line_read hx (drop 5 request) c s)
      else if request = ''attach stdin'' \<or> request = ''attach in'' then Some (line_attach_stdin hx c s)
      else if starts_with ''resize '' request then line_resize hx (drop 7 request) c s
      else if starts_with ''attach '' request then Some (line_attach hx (drop 7 request) c s)
      else if request = ''terminate'' then
        Some (if hx_completed hx then line_error hx ''process_completed'' c s else line_signal hx SIGTERM c s)
      else if starts_with ''signal '' request then
        Some (if hx_completed hx then line_error hx ''process_completed'' c s
          else case scan_number (drop 7 request) of
            None \<Rightarrow> line_error hx ''bad_signal'' c s
          | Some (v, _) \<Rightarrow>
              if to_d v \<le> 0 \<or> to_d v \<ge> int CUBICLE_MAX_SIGNAL_NUMBER then line_error hx ''bad_signal'' c s
              else line_signal hx (nat (to_d v)) c s)
      else Some (line_error hx ''unknown_command'' c s))"

text \<open>A client whose answer could not be queued is closed.\<close>

definition dispatch_control_request ::
    "'v control_context \<Rightarrow> control_client \<Rightarrow> 'v controller_state \<Rightarrow> (control_client \<times> 'v controller_state) option" where
  "dispatch_control_request hx c s =
     map_option (\<lambda>(r, c1, s1).
       let s2 = append_controller_library_debug hx ''control_response'' (control_request_name (cc_request c))
                  (length (cc_request c1)) (case r of Inl _ \<Rightarrow> -1 | Inr _ \<Rightarrow> 0) (length (cc_response c1)) s1 in
       case r of Inl _ \<Rightarrow> close_control_client hx c1 s2 | Inr _ \<Rightarrow> (c1, s2))
       (line_request hx (cc_request c) c s)"

section \<open>Reading requests\<close>

definition finish_control_request ::
    "'v control_context \<Rightarrow> control_client \<Rightarrow> 'v controller_state \<Rightarrow> 'v answered option" where
  "finish_control_request hx c s =
     (let request = (if cc_request c \<noteq> [] \<and> last (cc_request c) = CHR 0x0D then butlast (cc_request c) else cc_request c) in
      map_option (Pair (Inr ())) (dispatch_control_request hx (c\<lparr>cc_request := request\<rparr>) s))"

definition finish_api_request ::
    "'v control_context \<Rightarrow> control_client \<Rightarrow> 'v controller_state \<Rightarrow> 'v answered option" where
  "finish_api_request hx c s =
     dispatch_api_request hx (c\<lparr>cc_request := take (cc_framed_length c) (drop 4 (cc_request c))\<rparr>) s"

text \<open>An answer that cannot be queued closes the client.\<close>

definition refuse_api :: "'v control_context \<Rightarrow> bytes \<Rightarrow> control_client \<Rightarrow> 'v controller_state \<Rightarrow> 'v answered" where
  "refuse_api hx message c s =
     (case enqueue_api_error hx [] CUBICLE_ERR_RESOURCE_LIMIT message False 0 c of
        (Inl _, c1) \<Rightarrow> Pair (Inr ()) (close_control_client hx c1 s)
      | (Inr _, c1) \<Rightarrow> (Inr (), c1, s))"

definition refuse_line :: "'v control_context \<Rightarrow> bytes \<Rightarrow> control_client \<Rightarrow> 'v controller_state \<Rightarrow> 'v answered" where
  "refuse_line hx message c s =
     (case enqueue_error_response hx message c of
        (Inl _, c1) \<Rightarrow> Pair (Inr ()) (close_control_client hx c1 s)
      | (Inr _, c1) \<Rightarrow> (Inr (), c1, s))"

text \<open>One byte: the request goes on (\<open>Inl\<close>), or it is complete or refused and has been answered (\<open>Inr\<close>).\<close>

definition framed_byte ::
    "'v control_context \<Rightarrow> char \<Rightarrow> control_client \<Rightarrow> 'v controller_state \<Rightarrow> (control_client + 'v answered) option" where
  "framed_byte hx b c s =
     (if length (cc_request c) + 1 \<ge> CUBICLE_REQUEST_MAX then Some (Inr (refuse_api hx ''request too large'' c s))
      else
        let c1 = c\<lparr>cc_request := cc_request c @ [b]\<rparr>;
            c2 = (if length (cc_request c1) = 4 then c1\<lparr>cc_framed_length := of_be32 (cc_request c1)\<rparr> else c1) in
        if length (cc_request c2) = 4 \<and> (cc_framed_length c2 = 0 \<or> cc_framed_length c2 \<ge> CUBICLE_REQUEST_MAX - 4)
        then Some (Inr (refuse_api hx ''invalid frame length'' c2 s))
        else if cc_framed_length c2 > 0 \<and> length (cc_request c2) = 4 + cc_framed_length c2
        then map_option Inr (finish_api_request hx c2 s)
        else Some (Inl c2))"

definition request_byte ::
    "'v control_context \<Rightarrow> char \<Rightarrow> control_client \<Rightarrow> 'v controller_state \<Rightarrow> (control_client + 'v answered) option" where
  "request_byte hx b c s =
     (let c1 = (if cc_request c = [] \<and> b = NUL then c\<lparr>cc_framed_request := True\<rparr> else c) in
      if cc_framed_request c1 then framed_byte hx b c1 s
      else if b = NL then map_option Inr (finish_control_request hx c1 s)
      else if b = NUL then Some (Inr (refuse_line hx ''bad_request'' c1 s))
      else if length (cc_request c1) + 1 \<ge> CUBICLE_LINE_REQUEST_MAX then Some (Inr (refuse_line hx ''request_too_long'' c1 s))
      else Some (Inl (c1\<lparr>cc_request := cc_request c1 @ [b]\<rparr>)))"

text \<open>The bytes of one read; those after the end of a request are dropped.\<close>

fun request_bytes ::
    "'v control_context \<Rightarrow> bytes \<Rightarrow> control_client \<Rightarrow> 'v controller_state \<Rightarrow> (control_client + 'v answered) option" where
  "request_bytes hx [] c s = Some (Inl c)"
| "request_bytes hx (b # bs) c s =
     (case request_byte hx b c s of
        None \<Rightarrow> None
      | Some (Inr a) \<Rightarrow> Some (Inr a)
      | Some (Inl c1) \<Rightarrow> request_bytes hx bs c1 s)"

fun read_control_client_request ::
    "'v control_context \<Rightarrow> read_outcome list \<Rightarrow> control_client \<Rightarrow> 'v controller_state \<Rightarrow> 'v answered option" where
  "read_control_client_request hx [] c s = Some (Inr (), c, s)"
| "read_control_client_request hx (RError e # rs) c s =
     (if e = EINTR then read_control_client_request hx rs c s
      else if e = EAGAIN then Some (Inr (), c, s)
      else Some (Pair (Inr ()) (close_control_client hx c s)))"
| "read_control_client_request hx (REof # rs) c s =
     (if cc_framed_request c \<or> cc_request c = [] then Some (Pair (Inr ()) (close_control_client hx c s))
      else finish_control_request hx c s)"
| "read_control_client_request hx (RData d # rs) c s =
     (case request_bytes hx (take 128 d) (c\<lparr>cc_last_activity_ms := hx_now hx\<rparr>) s of
        None \<Rightarrow> None
      | Some (Inr a) \<Rightarrow> Some a
      | Some (Inl c1) \<Rightarrow> read_control_client_request hx rs c1 s)"

section \<open>Writing responses\<close>

datatype flushed = Drained | Blocked | Broken

fun flush_loop :: "write_outcome list \<Rightarrow> control_client \<Rightarrow> flushed \<times> control_client" where
  "flush_loop [] c =
     (Drained, c\<lparr>cc_sent := cc_sent c @ drop (cc_response_offset c) (cc_response c), cc_response_offset := length (cc_response c)\<rparr>)"
| "flush_loop (w # ws) c =
     (if cc_response_offset c \<ge> length (cc_response c) then (Drained, c)
      else case w of
        WError e \<Rightarrow> if e = EINTR then flush_loop ws c else (if e = EAGAIN then Blocked else Broken, c)
      | WShort n \<Rightarrow>
          (let piece = take n (drop (cc_response_offset c) (cc_response c)) in
           flush_loop ws (c\<lparr>cc_sent := cc_sent c @ piece, cc_response_offset := cc_response_offset c + length piece\<rparr>)))"

definition flush_control_client_response ::
    "'v control_context \<Rightarrow> write_outcome list \<Rightarrow> control_client \<Rightarrow> 'v controller_state \<Rightarrow> control_client \<times> 'v controller_state" where
  "flush_control_client_response hx ws c s =
     (case flush_loop ws c of
        (Blocked, c1) \<Rightarrow> (c1, s)
      | (Broken, c1) \<Rightarrow> close_control_client hx c1 s
      | (Drained, c1) \<Rightarrow>
          (let c2 = c1\<lparr>cc_response := [], cc_response_offset := 0\<rparr> in
           case cc_kind c2 of
             ClientResponding \<Rightarrow>
               if cc_framed_request c2 \<and> \<not> cc_close_after_response c2 then
                 (c2\<lparr>cc_kind := ClientReading, cc_request := [], cc_framed_length := 0, cc_close_after_response := False,
                    cc_last_activity_ms := hx_now hx\<rparr>, s)
               else close_control_client hx c2 s
           | ClientAttachingStdin \<Rightarrow> (c2\<lparr>cc_kind := ClientAttachedStdin\<rparr>, log_event hx ''type=client_attached stream=stdin'' s)
           | _ \<Rightarrow> (c2, s)))"

section \<open>The table of clients\<close>

text \<open>A new connection and whether its flags could be set.\<close>

datatype accept_outcome = AcceptError errno | Accepted nat bool bool

fun first_empty :: "control_client list \<Rightarrow> nat option" where
  "first_empty [] = None"
| "first_empty (c # cs) = (if cc_kind c = ClientEmpty then Some 0 else map_option Suc (first_empty cs))"

fun accept_control_clients ::
    "'v control_context \<Rightarrow> accept_outcome list \<Rightarrow> control_client list \<Rightarrow> unit result \<times> control_client list" where
  "accept_control_clients hx [] cs = (Inr (), cs)"
| "accept_control_clients hx (AcceptError e # as) cs =
     (if e = EINTR then accept_control_clients hx as cs else if e = EAGAIN then (Inr (), cs) else (Inl e, cs))"
| "accept_control_clients hx (Accepted fd cloexec nonblocking # as) cs =
     (if \<not> cloexec then (Inl errno_unset, cs)
      else case first_empty cs of
        None \<Rightarrow> accept_control_clients hx as cs
      | Some i \<Rightarrow>
          if \<not> nonblocking then accept_control_clients hx as cs
          else accept_control_clients hx as
            (cs[i := (cs ! i)\<lparr>cc_fd := Some fd, cc_kind := ClientReading, cc_request := [], cc_framed_request := False,
               cc_framed_length := 0, cc_response := [], cc_response_offset := 0, cc_close_after_response := False,
               cc_last_activity_ms := hx_now hx, cc_sent := []\<rparr>]))"

definition control_client_is_attached :: "control_client_kind \<Rightarrow> bool" where
  "control_client_is_attached k \<longleftrightarrow> k = ClientAttachedStdout \<or> k = ClientAttachedStderr \<or> k = ClientAttachedStdin"

definition client_idle :: "'v control_context \<Rightarrow> control_client \<Rightarrow> bool" where
  "client_idle hx c \<longleftrightarrow>
     \<not> (cc_kind c = ClientEmpty \<or> control_client_is_attached (cc_kind c) \<or> cc_last_activity_ms c = 0
        \<or> hx_now hx - cc_last_activity_ms c \<le> 120000)"

fun reap_loop ::
    "'v control_context \<Rightarrow> control_client list \<Rightarrow> 'v controller_state \<Rightarrow> control_client list \<times> 'v controller_state" where
  "reap_loop hx [] s = ([], s)"
| "reap_loop hx (c # cs) s =
     (let (c', s1) = (if client_idle hx c then close_control_client hx c s else (c, s));
          (cs', s2) = reap_loop hx cs s1 in (c' # cs', s2))"

definition reap_idle_control_clients ::
    "'v control_context \<Rightarrow> control_client list \<Rightarrow> 'v controller_state \<Rightarrow> control_client list \<times> 'v controller_state" where
  "reap_idle_control_clients hx cs s = (if hx_now hx = 0 then (cs, s) else reap_loop hx cs s)"

fun broadcast_attached_output ::
    "'v control_context \<Rightarrow> bytes \<Rightarrow> bytes \<Rightarrow> control_client list \<Rightarrow> 'v controller_state \<Rightarrow> control_client list \<times> 'v controller_state" where
  "broadcast_attached_output hx stream data [] s = ([], s)"
| "broadcast_attached_output hx stream data (c # cs) s =
     (let kind = (if stream = ''stdout'' then ClientAttachedStdout else ClientAttachedStderr);
          (c', s1) =
            (if cc_kind c \<noteq> kind then (c, s)
             else case enqueue_response hx data c of
               (Inl _, c1) \<Rightarrow> close_control_client hx c1 s
             | (Inr _, c1) \<Rightarrow> (c1, s));
          (cs', s2) = broadcast_attached_output hx stream data cs s1 in (c' # cs', s2))"

fun forward_attached_stdin ::
    "'v control_context \<Rightarrow> read_outcome list \<Rightarrow> control_client \<Rightarrow> 'v controller_state \<Rightarrow> control_client \<times> 'v controller_state" where
  "forward_attached_stdin hx [] c s = (c, s)"
| "forward_attached_stdin hx (RError e # rs) c s =
     (if e = EINTR then forward_attached_stdin hx rs c s
      else if e = EAGAIN then (c, s) else close_control_client hx c s)"
| "forward_attached_stdin hx (REof # rs) c s = close_control_client hx c s"
| "forward_attached_stdin hx (RData d # rs) c s =
     (case write_child (take 4096 d) s of
        (Inl _, s1) \<Rightarrow> close_control_client hx c s1
      | (Inr _, s1) \<Rightarrow> forward_attached_stdin hx rs c (snd (append_input_event (hx_env hx) ''socket'' (take 4096 d) s1)))"

end
