(* ===== verification/Controller_Stream.thy ===== *)
theory Controller_Stream
  imports Controller_Requests
begin

text \<open>
  The event loop of a controller (\<open>src/src/controller/stream.c\<close>): it reaps the child, polls, serves the
  clients and copies the child's output to the logs, to the model of the terminal and to the attached clients. One
  round of the loop is a function of what the kernel answers in it.
\<close>

section \<open>Answers to the terminal's queries\<close>

definition write_terminal_response_n ::
    "controller_env \<Rightarrow> bytes \<Rightarrow> bytes \<Rightarrow> 'v controller_state \<Rightarrow> unit result \<times> 'v controller_state" where
  "write_terminal_response_n env name response s =
     (case write_child response s of (r, s1) \<Rightarrow>
        if (case r of Inl e \<Rightarrow> e \<noteq> EAGAIN | Inr _ \<Rightarrow> False) then (r, s1)
        else
          let event = ''type=terminal_response query='' @ name @ '' length='' @ show_nat (length response);
              debug = ''type=debug category=terminal event=query query='' @ name @ '' action=answered response_length=''
                @ show_nat (length response) @ '' attachment_active=''
                @ (if st_terminal_attachment_active s1 then ''true'' else ''false'') in
          if length event \<ge> 128 then (Inl ENAMETOOLONG, s1)
          else case append_event env event s1 of
            (Inl e, s2) \<Rightarrow> (Inl e, s2)
          | (Inr _, s2) \<Rightarrow>
              if length debug \<ge> 128 then (Inl ENAMETOOLONG, s2)
              else append_debug_event env (st_debug_terminal s2) debug s2)"

definition terminal_response_name :: "bytes \<Rightarrow> bytes" where
  "terminal_response_name response =
     (if length response \<ge> 4 \<and> take 2 response = ESC # ''['' \<and> last response = CHR ''R'' then ''dsr''
      else if response = ESC # ''[?1;2c'' then ''primary-da'' else ''libvterm'')"

text \<open>The length of the first sequence of a nonempty response.\<close>

fun osc_end :: "bytes \<Rightarrow> nat" where
  "osc_end [] = 0"
| "osc_end (c # cs) =
     (if c = CHR 0x07 then 1
      else if c = ESC \<and> cs \<noteq> [] \<and> hd cs = BSL then 2
      else Suc (osc_end cs))"

definition response_end :: "bytes \<Rightarrow> nat" where
  "response_end response =
     (if take 2 response = ESC # ''['' then
        (let n = length (takeWhile (\<lambda>c. 0x20 \<le> byte c \<and> byte c \<le> 0x3f) (drop 2 response)) in
         min (length response) (n + 3))
      else if take 2 response = ESC # '']'' then 2 + osc_end (drop 2 response)
      else 1)"

lemma response_end_pos: "response \<noteq> [] \<Longrightarrow> 0 < response_end response"
  by (simp add: response_end_def Let_def)

function split_responses :: "bytes \<Rightarrow> bytes list" where
  "split_responses response =
     (if response = [] then [] else take (response_end response) response # split_responses (drop (response_end response) response))"
  by pat_completeness auto
termination
  by (relation "measure length") (auto simp: response_end_pos)

declare split_responses.simps [simp del]

fun write_responses ::
    "controller_env \<Rightarrow> bytes list \<Rightarrow> 'v controller_state \<Rightarrow> unit result \<times> 'v controller_state" where
  "write_responses env [] s = (Inr (), s)"
| "write_responses env (x # xs) s =
     (case write_terminal_response_n env (terminal_response_name x) x s of
        (Inl e, s1) \<Rightarrow> (Inl e, s1)
      | (Inr _, s1) \<Rightarrow> write_responses env xs s1)"

text \<open>The model's answers are taken 512 bytes at a time; each piece is split on its own.\<close>

function drain_loop ::
    "controller_env \<Rightarrow> 'v terminal_model \<Rightarrow> bytes \<Rightarrow> 'v controller_state \<Rightarrow> unit result \<times> 'v controller_state" where
  "drain_loop env m response s =
     (if response = [] then (Inr (), s\<lparr>st_model := Some (m\<lparr>tm_response := []\<rparr>)\<rparr>)
      else case write_responses env (split_responses (take 512 response)) s of
        (Inl e, s1) \<Rightarrow> (Inl e, s1\<lparr>st_model := Some (m\<lparr>tm_response := drop 512 response\<rparr>)\<rparr>)
      | (Inr _, s1) \<Rightarrow> drain_loop env m (drop 512 response) s1)"
  by pat_completeness auto
termination
  by (relation "measure (\<lambda>(env, m, response, s). length response)") auto

declare drain_loop.simps [simp del]

definition drain_terminal_model_responses ::
    "controller_env \<Rightarrow> 'v controller_state \<Rightarrow> unit result \<times> 'v controller_state" where
  "drain_terminal_model_responses env s =
     (case st_model s of
        None \<Rightarrow> (Inr (), s)
      | Some m \<Rightarrow> if \<not> st_stdin_open s then (Inr (), s) else drain_loop env m (tm_response m) s)"

text \<open>The queries that libvterm does not answer: of the keyboard protocol and of the two colours.\<close>

definition query_answer :: "bytes \<Rightarrow> (nat \<times> bytes \<times> bytes) option" where
  "query_answer t =
     (if take 4 t = ESC # ''[?u'' then Some (4, ''keyboard-protocol'', ESC # ''[?0u'')
      else if take 8 t = ESC # '']10;?'' @ [ESC, BSL] then
        Some (8, ''foreground-color'', ESC # '']10;rgb:e3e3/e3e3/eaea'' @ [ESC, BSL])
      else if take 8 t = ESC # '']11;?'' @ [ESC, BSL] then
        Some (8, ''background-color'', ESC # '']11;rgb:0808/0505/2b2b'' @ [ESC, BSL])
      else None)"

lemma query_answer_pos: "query_answer t = Some (n, x) \<Longrightarrow> 0 < n"
  by (auto simp: query_answer_def split: if_splits)

function query_loop :: "controller_env \<Rightarrow> bytes \<Rightarrow> 'v controller_state \<Rightarrow> unit result \<times> 'v controller_state" where
  "query_loop env data s =
     (if data = [] then (Inr (), s)
      else case query_answer data of
        None \<Rightarrow> query_loop env (drop 1 data) s
      | Some (n, name, response) \<Rightarrow>
          (case write_terminal_response_n env name response s of
             (Inl e, s1) \<Rightarrow> (Inl e, s1)
           | (Inr _, s1) \<Rightarrow> query_loop env (drop n data) s1))"
  by pat_completeness auto
termination
  by (relation "measure (\<lambda>(env, data, s). length data)") (auto dest: query_answer_pos)

declare query_loop.simps [simp del]

definition handle_unsupported_terminal_queries ::
    "controller_env \<Rightarrow> bytes \<Rightarrow> 'v controller_state \<Rightarrow> unit result \<times> 'v controller_state" where
  "handle_unsupported_terminal_queries env data s = (if \<not> st_stdin_open s then (Inr (), s) else query_loop env data s)"

section \<open>The child\<close>

datatype wait_status = StatusExited nat | StatusSignaled nat | StatusOther

fun child_result_from_status :: "wait_status \<Rightarrow> int" where
  "child_result_from_status (StatusExited code) = int code"
| "child_result_from_status (StatusSignaled sig) = 128 + int sig"
| "child_result_from_status StatusOther = 1"

fun record_child_exit :: "'v control_context \<Rightarrow> wait_status \<Rightarrow> 'v controller_state \<Rightarrow> 'v controller_state" where
  "record_child_exit hx (StatusExited code) s = log_event hx (''type=process_exited status=exited exit_code='' @ show_nat code) s"
| "record_child_exit hx (StatusSignaled sig) s = log_event hx (''type=process_exited status=signaled signal='' @ show_nat sig) s"
| "record_child_exit hx StatusOther s = s"

text \<open>The loop's variables. \<open>lp_local_input\<close>: the controller's own terminal is read.\<close>

record 'v loop =
  lp_clients :: "control_client list"
  lp_state :: "'v controller_state"
  lp_local_input :: bool
  lp_stdout_open :: bool
  lp_stderr_open :: bool
  lp_reaped :: bool
  lp_result :: int

datatype wait_outcome = WaitRunning | WaitReaped wait_status | WaitError errno

fun reap_child_nonblocking :: "'v control_context \<Rightarrow> wait_outcome list \<Rightarrow> 'v loop \<Rightarrow> unit result \<times> 'v loop" where
  "reap_child_nonblocking hx [] l = (Inr (), l)"
| "reap_child_nonblocking hx (w # ws) l =
     (if lp_reaped l then (Inr (), l)
      else case w of
        WaitRunning \<Rightarrow> (Inr (), l)
      | WaitReaped status \<Rightarrow>
          (Inr (), l\<lparr>lp_reaped := True, lp_result := child_result_from_status status,
             lp_state := record_child_exit hx status (lp_state l)\<rparr>)
      | WaitError e \<Rightarrow> if e = EINTR then reap_child_nonblocking hx ws l else (Inl e, l))"

text \<open>The wait at the end; a call that has no answer left fails.\<close>

fun wait_for_child :: "'v control_context \<Rightarrow> wait_outcome list \<Rightarrow> 'v loop \<Rightarrow> int \<times> 'v loop" where
  "wait_for_child hx [] l = (if lp_reaped l then lp_result l else 1, l)"
| "wait_for_child hx (w # ws) l =
     (if lp_reaped l then (lp_result l, l)
      else case w of
        WaitRunning \<Rightarrow> wait_for_child hx ws l
      | WaitReaped status \<Rightarrow>
          (child_result_from_status status,
           l\<lparr>lp_reaped := True, lp_result := child_result_from_status status, lp_state := record_child_exit hx status (lp_state l)\<rparr>)
      | WaitError e \<Rightarrow> if e = EINTR then wait_for_child hx ws l else (1, l))"

section \<open>The size of the controller's own terminal\<close>

text \<open>\<open>WindowNone\<close>: there is no terminal, or it has no size.\<close>

datatype window_answer = WindowNone | WindowError errno | Window nat nat

text \<open>\<open>Inr True\<close>: the size was applied.\<close>

definition apply_terminal_window_size ::
    "controller_env \<Rightarrow> window_answer \<Rightarrow> 'v controller_state \<Rightarrow> bool result \<times> 'v controller_state" where
  "apply_terminal_window_size env w s =
     (case w of
        WindowNone \<Rightarrow> (Inr False, s)
      | WindowError e \<Rightarrow> (Inl e, s)
      | Window rows columns \<Rightarrow>
          if rows = 0 \<or> columns = 0 then (Inr False, s)
          else if size_is rows columns s then (Inr False, s)
          else case set_winsize env rows columns s of
            (Inl e, s1) \<Rightarrow> (Inl e, s1)
          | (Inr _, s1) \<Rightarrow> (Inr True, set_terminal_size rows columns s1))"

definition resize_text :: "bytes \<Rightarrow> 'v controller_state \<Rightarrow> bytes" where
  "resize_text action s =
     (case st_terminal_size s of
        None \<Rightarrow> []
      | Some z \<Rightarrow> ''type=debug category=terminal event=local_resize action='' @ action @ '' rows='' @ show_nat (sz_rows z)
                  @ '' columns='' @ show_nat (sz_columns z))"

definition sync_local_terminal_window_size ::
    "'v control_context \<Rightarrow> window_answer \<Rightarrow> 'v controller_state \<Rightarrow> (unit result \<times> 'v controller_state) option" where
  "sync_local_terminal_window_size hx w s =
     (if \<not> st_resizable s then Some (Inr (), s)
      else case apply_terminal_window_size (hx_env hx) w s of
        (Inl e, s1) \<Rightarrow> Some (Inl e, s1)
      | (Inr True, s1) \<Rightarrow>
          (case st_terminal_size s1 of
             None \<Rightarrow> Some (Inr (), s1)
           | Some z \<Rightarrow>
               map_option (\<lambda>(r, s2).
                 case r of
                   Inl e \<Rightarrow> (Inl e, s2)
                 | Inr _ \<Rightarrow> checked_debug_event (hx_env hx) 160 (resize_text ''applied'' s2) s2)
                 (resize_model hx (sz_rows z) (sz_columns z) s1))
      | (Inr False, s1) \<Rightarrow>
          (case st_terminal_size s1 of
             None \<Rightarrow> Some (Inr (), s1)
           | Some z \<Rightarrow>
               if sz_known z then Some (checked_debug_event (hx_env hx) 160 (resize_text ''skipped'' s1 @ '' reason=unchanged'') s1)
               else Some (Inr (), s1)))"

section \<open>Clients in a round\<close>

text \<open>
  What \<open>poll\<close> reported for a slot, and the outcomes of the calls on its socket. A slot that was empty when
  the descriptors were collected is not looked at.
\<close>

record client_round =
  cr_in :: bool
  cr_out :: bool
  cr_hup :: bool
  cr_err :: bool
  cr_writes :: "write_outcome list"
  cr_reads :: "read_outcome list"

definition pending :: "control_client \<Rightarrow> bool" where
  "pending c \<longleftrightarrow> cc_response_offset c < length (cc_response c)"

definition polled :: "client_round \<Rightarrow> control_client \<Rightarrow> client_round option" where
  "polled r c =
     (if cc_kind c = ClientEmpty then None
      else Some (r\<lparr>cr_out := cr_out r \<and> pending c,
        cr_in := cr_in r \<and> (cc_kind c = ClientReading \<or> cc_kind c = ClientAttachedStdin)
          \<and> cc_response_offset c = length (cc_response c)\<rparr>))"

definition client_output ::
    "'v control_context \<Rightarrow> client_round \<Rightarrow> control_client \<Rightarrow> 'v controller_state \<Rightarrow> control_client \<times> 'v controller_state" where
  "client_output hx r c s = (if cr_out r then flush_control_client_response hx (cr_writes r) c s else (c, s))"

definition client_input ::
    "'v control_context \<Rightarrow> client_round \<Rightarrow> control_client \<Rightarrow> 'v controller_state \<Rightarrow> 'v answered option" where
  "client_input hx r c s =
     (if cc_kind c = ClientReading \<and> (cr_in r \<or> cr_hup r) then read_control_client_request hx (cr_reads r) c s
      else Some (Inr (), c, s))"

definition client_stdin ::
    "'v control_context \<Rightarrow> client_round \<Rightarrow> control_client \<Rightarrow> 'v controller_state \<Rightarrow> control_client \<times> 'v controller_state" where
  "client_stdin hx r c s =
     (if cc_kind c = ClientAttachedStdin \<and> (cr_in r \<or> cr_hup r) then forward_attached_stdin hx (cr_reads r) c s else (c, s))"

definition client_hangup ::
    "'v control_context \<Rightarrow> client_round \<Rightarrow> control_client \<Rightarrow> 'v controller_state \<Rightarrow> control_client \<times> 'v controller_state" where
  "client_hangup hx r c s =
     (if cc_kind c \<noteq> ClientEmpty \<and> (cr_hup r \<or> cr_err r) \<and> cc_response_offset c = length (cc_response c)
      then close_control_client hx c s else (c, s))"

text \<open>Only a request of the API whose answer could not be queued fails.\<close>

definition serve_client ::
    "'v control_context \<Rightarrow> client_round \<Rightarrow> control_client \<Rightarrow> 'v controller_state \<Rightarrow> 'v answered option" where
  "serve_client hx r c s =
     (case client_output hx r c s of (c1, s1) \<Rightarrow>
        if cc_kind c1 = ClientEmpty then Some (Inr (), c1, s1)
        else
          map_option (\<lambda>(x, c2, s2).
            case x of
              Inl e \<Rightarrow> (Inl e, c2, s2)
            | Inr _ \<Rightarrow> (case client_stdin hx r c2 s2 of (c3, s3) \<Rightarrow> Pair (Inr ()) (client_hangup hx r c3 s3)))
            (client_input hx r c1 s1))"

fun serve_clients ::
    "'v control_context \<Rightarrow> client_round option list \<Rightarrow> control_client list \<Rightarrow> 'v controller_state
     \<Rightarrow> (unit result \<times> control_client list \<times> 'v controller_state) option" where
  "serve_clients hx (Some r # rs) (c # cs) s =
     (if cc_kind c = ClientEmpty then map_option (\<lambda>(x, cs', s'). (x, c # cs', s')) (serve_clients hx rs cs s)
      else case serve_client hx r c s of
        None \<Rightarrow> None
      | Some (Inl e, c1, s1) \<Rightarrow> Some (Inl e, c1 # cs, s1)
      | Some (Inr _, c1, s1) \<Rightarrow> map_option (\<lambda>(x, cs', s'). (x, c1 # cs', s')) (serve_clients hx rs cs s1))"
| "serve_clients hx (None # rs) (c # cs) s = map_option (\<lambda>(x, cs', s'). (x, c # cs', s')) (serve_clients hx rs cs s)"
| "serve_clients hx rs cs s = Some (Inr (), cs, s)"

section \<open>Output\<close>

definition stream_fd :: "bool \<Rightarrow> 'v controller_state \<Rightarrow> bytes option" where
  "stream_fd err s = (if err then st_stderr_fd s else st_stdout_fd s)"

definition stream_offset :: "bool \<Rightarrow> 'v controller_state \<Rightarrow> int" where
  "stream_offset err s = (if err then st_stderr_offset s else st_stdout_offset s)"

definition stream_name :: "bool \<Rightarrow> bytes" where
  "stream_name err = (if err then ''stderr'' else ''stdout'')"

text \<open>Output goes to the log, and what was written counts in the offset when all of it was.\<close>

definition persist_output ::
    "controller_env \<Rightarrow> bool \<Rightarrow> bytes \<Rightarrow> 'v controller_state \<Rightarrow> unit result \<times> 'v controller_state" where
  "persist_output env err data s =
     (case stream_fd err s of
        None \<Rightarrow> (Inl EBADF, s)
      | Some path \<Rightarrow>
          (case cubicle_write_all (ce_log_write env (stream_offset err s)) data of
             (written, r, _) \<Rightarrow>
               (let s1 = append_file path written s in
                case r of
                  Inl e \<Rightarrow> (Inl e, s1)
                | Inr _ \<Rightarrow>
                    (Inr (), if err then s1\<lparr>st_stderr_offset := st_stderr_offset s1 + int (length data)\<rparr>
                             else s1\<lparr>st_stdout_offset := st_stdout_offset s1 + int (length data)\<rparr>))))"

definition feed_model ::
    "'v control_context \<Rightarrow> bytes \<Rightarrow> 'v controller_state \<Rightarrow> 'v controller_state option" where
  "feed_model hx data s =
     (case st_model s of
        None \<Rightarrow> Some s
      | Some m \<Rightarrow>
          map_option (\<lambda>m'. s\<lparr>st_model := Some m'\<rparr>)
            (cubicle_terminal_model_feed (hx_vterm hx) (ce_alloc (hx_env hx)) data m))"

text \<open>What the terminal does with a piece of output: only the standard output has a model.\<close>

definition update_terminal ::
    "'v control_context \<Rightarrow> bool \<Rightarrow> int \<Rightarrow> bytes \<Rightarrow> 'v controller_state \<Rightarrow> (unit result \<times> 'v controller_state) option" where
  "update_terminal hx local_input start data s =
     (if st_model s = None then Some (Inr (), s)
      else
        map_option (\<lambda>s1.
          case (if local_input then (Inr (), s1) else drain_terminal_model_responses (hx_env hx) s1) of
            (Inl e, s2) \<Rightarrow> (Inl e, s2)
          | (Inr _, s2) \<Rightarrow>
              (case checked_debug_event (hx_env hx) 192
                      (''type=debug category=terminal event=model_feed stream=stdout start='' @ show_int start @ '' length=''
                       @ show_nat (length data) @ '' offset='' @ show_int (st_stdout_offset s2)) s2 of
                 (Inl e, s3) \<Rightarrow> (Inl e, s3)
               | (Inr _, s3) \<Rightarrow>
                   if local_input then (Inr (), s3) else handle_unsupported_terminal_queries (hx_env hx) data s3))
          (feed_model hx data s))"

text \<open>A piece of output. \<open>echo\<close> are the outcomes of copying it to the controller's own output.\<close>

definition copy_output ::
    "'v control_context \<Rightarrow> bool \<Rightarrow> write_outcome list \<Rightarrow> bytes \<Rightarrow> 'v loop \<Rightarrow> (unit result \<times> 'v loop) option" where
  "copy_output hx err echo data l =
     (case cubicle_write_all echo data of (_, Inl e, _) \<Rightarrow> Some (Inl e, l)
      | (_, Inr _, _) \<Rightarrow>
         (let start = stream_offset err (lp_state l) in
          case persist_output (hx_env hx) err data (lp_state l) of
            (Inl e, s1) \<Rightarrow> Some (Inl e, l\<lparr>lp_state := s1\<rparr>)
          | (Inr _, s1) \<Rightarrow>
              map_option (\<lambda>(r, s2).
                case r of
                  Inl e \<Rightarrow> (Inl e, l\<lparr>lp_state := s2\<rparr>)
                | Inr _ \<Rightarrow>
                    (case checked_event (hx_env hx) 256
                            (''type=output stream='' @ stream_name err @ '' start='' @ show_int start @ '' length=''
                             @ show_nat (length data)) s2 of
                       (Inl e, s3) \<Rightarrow> (Inl e, l\<lparr>lp_state := s3\<rparr>)
                     | (Inr _, s3) \<Rightarrow>
                         (let (cs, s4) = broadcast_attached_output hx (stream_name err) data (lp_clients l) s3 in
                          (Inr (), l\<lparr>lp_clients := cs, lp_state := s4\<rparr>))))
                (if err then Some (Inr (), s1) else update_terminal hx (lp_local_input l) start data s1)))"

definition stream_open :: "bool \<Rightarrow> 'v loop \<Rightarrow> bool" where
  "stream_open err l = (if err then lp_stderr_open l else lp_stdout_open l)"

definition close_stream :: "bool \<Rightarrow> 'v loop \<Rightarrow> 'v loop" where
  "close_stream err l = (if err then l\<lparr>lp_stderr_open := False\<rparr> else l\<lparr>lp_stdout_open := False\<rparr>)"

text \<open>What one read of a stream gives; \<open>None\<close>: \<open>poll\<close> reported nothing for it.\<close>

definition serve_stream ::
    "'v control_context \<Rightarrow> bool \<Rightarrow> read_outcome option \<Rightarrow> write_outcome list \<Rightarrow> 'v loop \<Rightarrow> (unit result \<times> 'v loop) option" where
  "serve_stream hx err r echo l =
     (if \<not> stream_open err l then Some (Inr (), l)
      else case r of
        None \<Rightarrow> Some (Inr (), l)
      | Some (RError e) \<Rightarrow>
          if e = EINTR then Some (Inr (), l) else if e = EIO then Some (Inr (), close_stream err l) else Some (Inl e, l)
      | Some REof \<Rightarrow> Some (Inr (), close_stream err l)
      | Some (RData d) \<Rightarrow> copy_output hx err echo (take 4096 d) l)"

section \<open>Rounds\<close>

record poll_round =
  pr_wait :: "wait_outcome list"
  pr_resize_pending :: bool
  pr_window :: window_answer
  pr_poll :: "errno option"
  pr_ready :: bool
  pr_accept :: "accept_outcome list option"
  pr_local :: "read_outcome option"
  pr_local_hup :: bool
  pr_local_window :: window_answer
  pr_clients :: "client_round list"
  pr_stdout :: "read_outcome option"
  pr_stderr :: "read_outcome option"
  pr_stdout_echo :: "write_outcome list"
  pr_stderr_echo :: "write_outcome list"

definition serve_local_input ::
    "'v control_context \<Rightarrow> poll_round \<Rightarrow> 'v loop \<Rightarrow> (unit result \<times> 'v loop) option" where
  "serve_local_input hx p l =
     (if \<not> (lp_local_input l \<and> st_stdin_open (lp_state l)) then Some (Inr (), l)
      else
        let hup = (\<lambda>(r, l1). case r of
               Inl e \<Rightarrow> (Inl e, l1)
             | Inr _ \<Rightarrow>
                 (Inr (), if pr_local_hup p
                    then l1\<lparr>lp_local_input := False, lp_state := log_event hx ''type=local_input_closed reason=hup'' (lp_state l1)\<rparr>
                    else l1)) in
        map_option hup
          (case pr_local p of
             None \<Rightarrow> Some (Inr (), l)
           | Some (RError e) \<Rightarrow> Some (if e = EINTR then Inr () else Inl e, l)
           | Some REof \<Rightarrow>
               Some (Inr (), l\<lparr>lp_local_input := False, lp_state := log_event hx ''type=local_input_closed reason=eof'' (lp_state l)\<rparr>)
           | Some (RData d) \<Rightarrow>
               (case write_child (take 1024 d) (lp_state l) of (r, s1) \<Rightarrow>
                  if (case r of Inl e \<Rightarrow> e \<noteq> EAGAIN | Inr _ \<Rightarrow> False) then Some (r, l\<lparr>lp_state := s1\<rparr>)
                  else
                    map_option (\<lambda>(x, s2).
                      case x of
                        Inl e \<Rightarrow> (Inl e, l\<lparr>lp_state := s2\<rparr>)
                      | Inr _ \<Rightarrow> (Inr (), l\<lparr>lp_state := snd (append_input_event (hx_env hx) ''local'' (take 1024 d) s2)\<rparr>))
                      (sync_local_terminal_window_size hx (pr_local_window p) s1))))"

definition loop_finished :: "'v loop \<Rightarrow> bool" where
  "loop_finished l \<longleftrightarrow> \<not> lp_stdout_open l \<and> \<not> lp_stderr_open l \<and> lp_reaped l"

definition serve_round :: "'v control_context \<Rightarrow> poll_round \<Rightarrow> client_round option list \<Rightarrow> 'v loop \<Rightarrow> (unit result \<times> 'v loop) option" where
  "serve_round hx p rounds l =
     (let (cs, s) = reap_idle_control_clients hx (lp_clients l) (lp_state l) in
      if \<not> pr_ready p then Some (Inr (), l\<lparr>lp_clients := cs, lp_state := s\<rparr>)
      else
        case (case pr_accept p of None \<Rightarrow> (Inr (), cs) | Some as \<Rightarrow> accept_control_clients hx as cs) of
          (Inl e, cs1) \<Rightarrow> Some (Inl e, l\<lparr>lp_clients := cs1, lp_state := s\<rparr>)
        | (Inr _, cs1) \<Rightarrow>
            (case serve_local_input hx p (l\<lparr>lp_clients := cs1, lp_state := s\<rparr>) of
               None \<Rightarrow> None
             | Some (Inl e, l1) \<Rightarrow> Some (Inl e, l1)
             | Some (Inr _, l1) \<Rightarrow>
                 (case serve_clients (hx\<lparr>hx_result := lp_result l1\<rparr>) rounds (lp_clients l1) (lp_state l1) of
                    None \<Rightarrow> None
                  | Some (Inl e, cs2, s2) \<Rightarrow> Some (Inl e, l1\<lparr>lp_clients := cs2, lp_state := s2\<rparr>)
                  | Some (Inr _, cs2, s2) \<Rightarrow>
                      (case serve_stream hx False (pr_stdout p) (pr_stdout_echo p) (l1\<lparr>lp_clients := cs2, lp_state := s2\<rparr>) of
                         None \<Rightarrow> None
                       | Some (Inl e, l2) \<Rightarrow> Some (Inl e, l2)
                       | Some (Inr _, l2) \<Rightarrow> serve_stream hx True (pr_stderr p) (pr_stderr_echo p) l2))))"

text \<open>One turn of the loop; the clients are polled as they are at its start.\<close>

definition loop_round :: "'v control_context \<Rightarrow> poll_round \<Rightarrow> 'v loop \<Rightarrow> (unit result \<times> 'v loop) option" where
  "loop_round hx p l =
     (case reap_child_nonblocking hx (pr_wait p) l of
        (Inl e, l1) \<Rightarrow> Some (Inl e, l1)
      | (Inr _, l1) \<Rightarrow>
          if loop_finished l1 then Some (Inr (), l1)
          else
            case (if st_resizable (lp_state l1) \<and> pr_resize_pending p
                  then sync_local_terminal_window_size hx (pr_window p) (lp_state l1) else Some (Inr (), lp_state l1)) of
              None \<Rightarrow> None
            | Some (Inl e, s) \<Rightarrow> Some (Inl e, l1\<lparr>lp_state := s\<rparr>)
            | Some (Inr _, s) \<Rightarrow>
                (let l2 = l1\<lparr>lp_state := s\<rparr> in
                 case pr_poll p of
                   Some e \<Rightarrow> if e = EINTR then Some (Inr (), l2) else Some (Inl e, l2)
                 | None \<Rightarrow> serve_round hx p (map (\<lambda>(r, c). polled r c) (zip (pr_clients p) (lp_clients l2))) l2))"

text \<open>
  The loop over what the kernel answers, a round with its clock at a time: it ends with the clients
  closed when the streams are closed and the child is reaped.
\<close>

datatype 'v outcome = LoopFailed errno "'v loop" | LoopEnded "'v loop" | LoopRunning "'v loop"

fun stream_event_loop :: "'v control_context \<Rightarrow> (64 word \<times> poll_round) list \<Rightarrow> 'v loop \<Rightarrow> 'v outcome option" where
  "stream_event_loop hx [] l =
     (if loop_finished l
      then Some (LoopEnded (let (cs, s) = close_all_control_clients hx (lp_clients l) (lp_state l) in l\<lparr>lp_clients := cs, lp_state := s\<rparr>))
      else Some (LoopRunning l))"
| "stream_event_loop hx ((now, p) # ps) l =
     (if loop_finished l
      then Some (LoopEnded (let (cs, s) = close_all_control_clients hx (lp_clients l) (lp_state l) in l\<lparr>lp_clients := cs, lp_state := s\<rparr>))
      else case loop_round (hx\<lparr>hx_now := now\<rparr>) p l of
        None \<Rightarrow> None
      | Some (Inl e, l1) \<Rightarrow> Some (LoopFailed e l1)
      | Some (Inr _, l1) \<Rightarrow> stream_event_loop hx ps l1)"

end
