(* ===== verification/Controller_Clients.thy ===== *)
theory Controller_Clients
  imports Controller_Stream
begin

text \<open>
  Invariants of the controller's clients.  The first part shows which operations leave the logs of the
  output alone; the second that the buffers of a client stay within their limits; the third what an
  attached client is owed, and that every request, read, write and poll of the clients keeps it.
\<close>

section \<open>What leaves the logs of the output alone\<close>

text \<open>
  Every operation but \<open>persist_output\<close> keeps the descriptors, the offsets and every file but the log of events.
\<close>

named_theorems keeps_rules \<open>operations that keep the logs of the output\<close>

definition keeps :: "'v controller_state \<Rightarrow> 'v controller_state \<Rightarrow> bool" where
  "keeps s s' \<longleftrightarrow> st_log_dir s' = st_log_dir s \<and> st_events_fd s' = st_events_fd s \<and> st_stdout_fd s' = st_stdout_fd s
     \<and> st_stderr_fd s' = st_stderr_fd s \<and> st_stdout_offset s' = st_stdout_offset s \<and> st_stderr_offset s' = st_stderr_offset s
     \<and> (\<forall>path. st_events_fd s \<noteq> Some path \<longrightarrow> st_files s' path = st_files s path)"

lemma keeps_refl [simp, intro!]: "keeps s s"
  by (simp add: keeps_def)

lemma keeps_trans [trans]: "keeps s s1 \<Longrightarrow> keeps s1 s2 \<Longrightarrow> keeps s s2"
  by (simp add: keeps_def)

lemma keeps_updates [simp]:
  "keeps s (s1\<lparr>st_next_sequence := x1\<rparr>) = keeps s s1"
  "keeps s (s1\<lparr>st_terminal_attachment_active := x2\<rparr>) = keeps s s1"
  "keeps s (s1\<lparr>st_stdin_open := x3\<rparr>) = keeps s s1"
  "keeps s (s1\<lparr>st_child_input := x4\<rparr>) = keeps s s1"
  "keeps s (s1\<lparr>st_child_writes := x5\<rparr>) = keeps s s1"
  "keeps s (s1\<lparr>st_signals := x6\<rparr>) = keeps s s1"
  "keeps s (s1\<lparr>st_winsize := x7\<rparr>) = keeps s s1"
  "keeps s (s1\<lparr>st_terminal_size := x8\<rparr>) = keeps s s1"
  "keeps s (s1\<lparr>st_model := x9\<rparr>) = keeps s s1"
  by (simp_all add: keeps_def)

text \<open>A step of a result and a state: what it leaves keeps the logs.\<close>

lemma keeps_append_event [keeps_rules]: "keeps s s1 \<Longrightarrow> keeps s (snd (append_event env e s1))"
  by (auto simp: append_event_def append_file_def keeps_def Let_def split: option.splits prod.splits)

lemma keeps_append_debug_event [keeps_rules]: "keeps s s1 \<Longrightarrow> keeps s (snd (append_debug_event env b e s1))"
  by (simp add: append_debug_event_def keeps_append_event)

lemma keeps_append_input_event [keeps_rules]: "keeps s s1 \<Longrightarrow> keeps s (snd (append_input_event env src d s1))"
  by (simp add: append_input_event_def keeps_append_event Let_def)

lemma keeps_log_event [keeps_rules]: "keeps s s1 \<Longrightarrow> keeps s (log_event hx e s1)"
  by (simp add: log_event_def keeps_append_event)

lemma keeps_library_debug [keeps_rules]:
  "keeps s s1 \<Longrightarrow> keeps s (append_controller_library_debug hx a b n i k s1)"
  by (simp add: append_controller_library_debug_def keeps_append_debug_event Let_def)

lemma keeps_close [keeps_rules]: "keeps s s1 \<Longrightarrow> keeps s (snd (close_control_client hx c s1))"
  by (simp add: close_control_client_def keeps_log_event split: control_client_kind.split)

lemma keeps_checked_event [keeps_rules]: "keeps s s1 \<Longrightarrow> keeps s (snd (checked_event env n e s1))"
  by (simp add: checked_event_def keeps_append_event)

lemma keeps_checked_debug_event [keeps_rules]: "keeps s s1 \<Longrightarrow> keeps s (snd (checked_debug_event env n e s1))"
  by (simp add: checked_debug_event_def keeps_append_debug_event)

lemma keeps_write_child [keeps_rules]: "keeps s s1 \<Longrightarrow> keeps s (snd (write_child d s1))"
  by (simp add: write_child_def split: prod.split)

lemma keeps_set_winsize [keeps_rules]: "keeps s s1 \<Longrightarrow> keeps s (snd (set_winsize env r k s1))"
  by (simp add: set_winsize_def split: option.split)

lemma keeps_set_terminal_size [keeps_rules]: "keeps s s1 \<Longrightarrow> keeps s (set_terminal_size r k s1)"
  by (simp add: set_terminal_size_def)

lemma keeps_kill_group [keeps_rules]: "keeps s s1 \<Longrightarrow> keeps s (snd (kill_group hx n s1))"
  by (simp add: kill_group_def split: option.split)

lemma keeps_resize_model: "resize_model hx r k s1 = Some (x, s2) \<Longrightarrow> keeps s s1 \<Longrightarrow> keeps s s2"
  by (auto simp: resize_model_def split: option.splits)

text \<open>The same facts as the proofs of the handlers meet them, with the result of the step named.\<close>

lemma keeps_steps:
  "append_event env e s1 = (r, s2) \<Longrightarrow> keeps s s1 \<Longrightarrow> keeps s s2"
  "checked_event env n e s1 = (r, s2) \<Longrightarrow> keeps s s1 \<Longrightarrow> keeps s s2"
  "checked_debug_event env n e s1 = (r, s2) \<Longrightarrow> keeps s s1 \<Longrightarrow> keeps s s2"
  "write_child d s1 = (r, s2) \<Longrightarrow> keeps s s1 \<Longrightarrow> keeps s s2"
  "set_winsize env a b s1 = (r, s2) \<Longrightarrow> keeps s s1 \<Longrightarrow> keeps s s2"
  "kill_group hx sig s1 = (r, s2) \<Longrightarrow> keeps s s1 \<Longrightarrow> keeps s s2"
  "close_control_client hx c s1 = (c', s2) \<Longrightarrow> keeps s s1 \<Longrightarrow> keeps s s2"
  using keeps_append_event keeps_checked_event keeps_checked_debug_event keeps_write_child keeps_set_winsize
    keeps_kill_group keeps_close
  by (metis snd_conv)+

text \<open>The state in an answer.\<close>

definition answer_keeps :: "'v controller_state \<Rightarrow> 'v answered \<Rightarrow> bool" where
  "answer_keeps s a \<longleftrightarrow> keeps s (snd (snd a))"

lemma answer_keeps_triple [simp]: "answer_keeps s (x, c, s1) \<longleftrightarrow> keeps s s1"
  by (simp add: answer_keeps_def)

lemma answer_keeps_basic [keeps_rules]:
  "keeps s s1 \<Longrightarrow> answer_keeps s (api_success hx rid t c s1)"
  "keeps s s1 \<Longrightarrow> answer_keeps s (api_error hx rid code msg b i c s1)"
  "keeps s s1 \<Longrightarrow> answer_keeps s (line_error hx t c s1)"
  "keeps s s1 \<Longrightarrow> answer_keeps s (line_response hx t c s1)"
  "keeps s s1 \<Longrightarrow> answer_keeps s (line_done hx c s1)"
  by (simp_all add: answer_keeps_def api_success_def api_error_def line_error_def line_response_def line_done_def split: prod.split)

lemma answer_keeps_resize_events [keeps_rules]:
  "keeps s s1 \<Longrightarrow> answer_keeps s (resize_events hx rid e d c s1)"
  by (auto simp: resize_events_def intro!: keeps_rules dest: keeps_steps split: prod.split sum.split)

lemma answer_keeps_simple [keeps_rules]:
  "answer_keeps s (api_status hx rid c s)"
  "answer_keeps s (api_read hx rid params c s)"
  "answer_keeps s (api_snapshot hx rid c s)"
  "answer_keeps s (api_close_input hx rid c s)"
  "answer_keeps s (api_detach hx rid c s)"
  "answer_keeps s (api_events_after hx rid params c s)"
  by (auto simp: api_status_def api_read_def api_snapshot_def api_close_input_def api_detach_def api_events_after_def Let_def
      intro!: keeps_rules split: sum.split option.split prod.split)

lemma answer_keeps_api_write [keeps_rules]: "answer_keeps s (api_write hx rid params c s)"
  by (auto simp: api_write_def intro!: keeps_rules split: sum.split prod.split elim: keeps_steps)

lemma answer_keeps_api_signal [keeps_rules]:
  "answer_keeps s (api_signal hx rid params c s)" "answer_keeps s (api_terminate hx rid c s)"
  by (auto simp: api_signal_def api_terminate_def intro!: keeps_rules split: sum.split prod.split option.split elim: keeps_steps)

lemma keeps_attach_events [keeps_rules]: "keeps s s1 \<Longrightarrow> keeps s (attach_events hx ch s1)"
  by (simp add: attach_events_def attach_event_def keeps_log_event)

lemma keeps_attach_activate: "attach_activate hx ch mode s1 = (r, s2) \<Longrightarrow> keeps s s1 \<Longrightarrow> keeps s s2"
  by (auto simp: attach_activate_def intro: keeps_log_event elim!: keeps_steps(3) split: if_splits)

lemma answer_keeps_api_attach [keeps_rules]: "answer_keeps s (api_attach hx rid params c s)"
  by (auto simp: api_attach_def Let_def intro!: keeps_rules split: sum.split prod.split option.split elim!: keeps_attach_activate)

lemma after_resize_cases:
  assumes "map_option (\<lambda>(r, s2). case r of Inl e \<Rightarrow> f e s2 | Inr _ \<Rightarrow> g s2) x = Some a"
  obtains e s2 where "x = Some (Inl e, s2)" "a = f e s2" | s2 where "x = Some (Inr (), s2)" "a = g s2"
proof (cases x)
  case (Some y)
  then show ?thesis using assms that by (cases y; cases "fst y") auto
qed (use assms in simp)

lemma answer_keeps_api_resize: "api_resize hx rid params c s = Some a \<Longrightarrow> answer_keeps s a"
proof -
  assume a: "api_resize hx rid params c s = Some a"
  show ?thesis
    using a unfolding api_resize_def Let_def
    by (auto intro!: keeps_rules split: if_splits sum.splits prod.splits elim!: after_resize_cases simp del: map_option_eq_Some
        elim: keeps_steps(5) keeps_resize_model [OF _ keeps_steps(5) [OF _ keeps_refl]])
qed

lemma answer_keeps_dispatch_method: "dispatch_method hx meth rid params c s = Some a \<Longrightarrow> answer_keeps s a"
  using answer_keeps_api_resize [of hx rid params c s a]
  by (auto simp: dispatch_method_def intro!: keeps_rules split: if_splits)

lemma answer_keeps_api_return [keeps_rules]: "answer_keeps s a \<Longrightarrow> answer_keeps s (api_return hx meth a)"
  by (cases a) (auto simp: api_return_def answer_keeps_def intro!: keeps_rules)

lemma answer_keeps_dispatch_api: "dispatch_api_request hx c s = Some a \<Longrightarrow> answer_keeps s a"
  by (auto simp: dispatch_api_request_def intro!: keeps_rules split: sum.splits dest!: answer_keeps_dispatch_method)

lemma answer_keeps_line_simple [keeps_rules]:
  "answer_keeps s (line_status hx c s)"
  "answer_keeps s (line_events hx args c s)"
  "answer_keeps s (line_read hx args c s)"
  "answer_keeps s (line_attach_stdin hx c s)"
  "answer_keeps s (line_attach hx args c s)"
  by (auto simp: line_status_def line_events_def line_read_def line_attach_stdin_def line_attach_def Let_def
      intro!: keeps_rules split: sum.split option.split prod.split bool.split)

lemma answer_keeps_line_signal [keeps_rules]: "answer_keeps s (line_signal hx sig c s)"
  by (auto simp: line_signal_def intro!: keeps_rules split: sum.split prod.split elim: keeps_steps)

lemma answer_keeps_line_resize: "line_resize hx args c s = Some a \<Longrightarrow> answer_keeps s a"
proof -
  assume a: "line_resize hx args c s = Some a"
  show ?thesis
    using a unfolding line_resize_def Let_def
    by (auto intro!: keeps_rules split: if_splits sum.splits prod.splits option.splits elim!: after_resize_cases simp del: map_option_eq_Some
        elim: keeps_steps(5) keeps_resize_model [OF _ keeps_steps(5) [OF _ keeps_refl]])
qed

lemma answer_keeps_line_request: "line_request hx req c s = Some a \<Longrightarrow> answer_keeps s a"
  using answer_keeps_line_resize [of hx "drop 7 req" c s a]
  by (auto simp: line_request_def Let_def intro!: keeps_rules split: if_splits sum.splits option.splits prod.splits)

lemma keeps_dispatch_control: "dispatch_control_request hx c s = Some (c', s') \<Longrightarrow> keeps s s'"
proof -
  assume a: "dispatch_control_request hx c s = Some (c', s')"
  then obtain r c1 s1 where l: "line_request hx (cc_request c) c s = Some (r, c1, s1)"
    by (auto simp: dispatch_control_request_def)
  have "keeps s s1" using answer_keeps_line_request [OF l] by (simp add: answer_keeps_def)
  then show ?thesis
    using a l by (auto simp: dispatch_control_request_def Let_def intro!: keeps_rules elim!: keeps_steps(7) split: sum.splits)
qed

lemma answer_keeps_finish_control: "finish_control_request hx c s = Some a \<Longrightarrow> answer_keeps s a"
  by (auto simp: finish_control_request_def Let_def split: if_splits dest: keeps_dispatch_control)

lemma answer_keeps_finish_api: "finish_api_request hx c s = Some a \<Longrightarrow> answer_keeps s a"
  by (simp add: finish_api_request_def answer_keeps_dispatch_api)

lemma answer_keeps_refuse [keeps_rules]:
  "answer_keeps s (refuse_api hx t c s)" "answer_keeps s (refuse_line hx t c s)"
  by (auto simp: refuse_api_def refuse_line_def answer_keeps_def intro!: keeps_rules split: prod.split sum.split)

lemma answer_keeps_request_byte: "request_byte hx b c s = Some (Inr a) \<Longrightarrow> answer_keeps s a"
  by (auto simp: request_byte_def framed_byte_def Let_def intro!: keeps_rules split: if_splits
      dest: answer_keeps_finish_control answer_keeps_finish_api)

lemma answer_keeps_request_bytes: "request_bytes hx bs c s = Some (Inr a) \<Longrightarrow> answer_keeps s a"
proof (induction bs arbitrary: c)
  case (Cons b bs)
  then show ?case using answer_keeps_request_byte [of hx b c s] by (auto split: option.splits sum.splits)
qed simp

lemma answer_keeps_read_request: "read_control_client_request hx rs c s = Some a \<Longrightarrow> answer_keeps s a"
proof (induction hx rs c s rule: read_control_client_request.induct)
  case (2 hx e rs c s)
  then show ?case by (auto simp: answer_keeps_def intro!: keeps_rules split: if_splits)
next
  case (3 hx rs c s)
  then show ?case using answer_keeps_finish_control [of hx c s a]
    by (auto simp: answer_keeps_def intro!: keeps_rules split: if_splits)
next
  case (4 hx d rs c s)
  then show ?case
    using answer_keeps_request_bytes [of hx "take 128 d" "c\<lparr>cc_last_activity_ms := hx_now hx\<rparr>" s] by (auto split: option.splits sum.splits)
qed auto

lemma keeps_flush [keeps_rules]: "keeps s s1 \<Longrightarrow> keeps s (snd (flush_control_client_response hx ws c s1))"
  by (auto simp: flush_control_client_response_def Let_def intro!: keeps_rules
      split: prod.split flushed.split control_client_kind.split)

lemma keeps_forward: "keeps s s1 \<Longrightarrow> keeps s (snd (forward_attached_stdin hx rs c s1))"
proof (induction hx rs c s1 rule: forward_attached_stdin.induct)
  case (4 hx d rs c s1)
  obtain r s2 where w: "write_child (take 4096 d) s1 = (r, s2)" by fastforce
  have "keeps s s2" using keeps_steps(4) [OF w "4.prems"] .
  then show ?case using "4.IH" w by (auto intro!: keeps_rules split: sum.split)
qed (auto intro!: keeps_rules)

lemma keeps_reap_loop: "keeps s s1 \<Longrightarrow> keeps s (snd (reap_loop hx cs s1))"
proof (induction cs arbitrary: s1)
  case (Cons c cs)
  have "keeps s (snd (if client_idle hx c then close_control_client hx c s1 else (c, s1)))"
    using Cons.prems by (auto intro!: keeps_rules)
  then show ?case using Cons.IH by (auto simp: split_beta Let_def)
qed simp

lemma keeps_reap [keeps_rules]: "keeps s s1 \<Longrightarrow> keeps s (snd (reap_idle_control_clients hx cs s1))"
  by (simp add: reap_idle_control_clients_def keeps_reap_loop)

lemma keeps_broadcast: "keeps s s1 \<Longrightarrow> keeps s (snd (broadcast_attached_output hx stream data cs s1))"
proof (induction cs arbitrary: s1)
  case (Cons c cs)
  let ?k = "if stream = ''stdout'' then ClientAttachedStdout else ClientAttachedStderr"
  let ?x = "if cc_kind c \<noteq> ?k then (c, s1) else case enqueue_response hx data c of
      (Inl _, c1) \<Rightarrow> close_control_client hx c1 s1 | (Inr _, c1) \<Rightarrow> (c1, s1)"
  have "keeps s (snd ?x)" using Cons.prems by (auto intro!: keeps_rules split: prod.split sum.split)
  then show ?case using Cons.IH [of "snd ?x"] by (auto simp: split_beta Let_def)
qed simp

lemma serve_client_cases:
  assumes "serve_client hx r c s = Some (x, c', s')"
  obtains (closed) "client_output hx r c s = (c', s')" "cc_kind c' = ClientEmpty" "x = Inr ()"
  | (failed) c1 s1 e where "client_output hx r c s = (c1, s1)" "client_input hx r c1 s1 = Some (Inl e, c', s')" "x = Inl e"
  | (served) c1 s1 c2 s2 c3 s3 where "client_output hx r c s = (c1, s1)" "client_input hx r c1 s1 = Some (Inr (), c2, s2)"
      "client_stdin hx r c2 s2 = (c3, s3)" "client_hangup hx r c3 s3 = (c', s')" "x = Inr ()"
proof -
  obtain c1 s1 where 1: "client_output hx r c s = (c1, s1)" by fastforce
  show thesis
  proof (cases "cc_kind c1 = ClientEmpty")
    case True
    then show thesis using closed 1 assms by (simp add: serve_client_def)
  next
    case False
    then obtain y c2 s2 where 2: "client_input hx r c1 s1 = Some (y, c2, s2)" using assms 1 by (auto simp: serve_client_def)
    obtain c3 s3 where 3: "client_stdin hx r c2 s2 = (c3, s3)" by fastforce
    show thesis
    proof (cases y)
      case (Inl e)
      then show thesis using failed [OF 1, of e] 1 2 False assms by (auto simp: serve_client_def)
    next
      case (Inr u)
      then show thesis using served [OF 1 _ 3] 1 2 3 False assms by (auto simp: serve_client_def)
    qed
  qed
qed

lemma keeps_client_output [keeps_rules]: "client_output hx r c s = (c', s') \<Longrightarrow> keeps s s'"
  using keeps_flush [OF keeps_refl, of s hx "cr_writes r" c] by (auto simp: client_output_def split: if_splits)

lemma keeps_client_input [keeps_rules]: "client_input hx r c s = Some (x, c', s') \<Longrightarrow> keeps s s'"
  using answer_keeps_read_request [of hx "cr_reads r" c s] by (auto simp: client_input_def split: if_splits)

lemma keeps_client_stdin [keeps_rules]: "client_stdin hx r c s = (c', s') \<Longrightarrow> keeps s s'"
  using keeps_forward [OF keeps_refl, of s hx "cr_reads r" c] by (auto simp: client_stdin_def split: if_splits)

lemma keeps_client_hangup [keeps_rules]: "client_hangup hx r c s = (c', s') \<Longrightarrow> keeps s s'"
  using keeps_close [OF keeps_refl, of s hx c] by (auto simp: client_hangup_def split: if_splits)

lemma keeps_serve_client: "serve_client hx r c s = Some (x, c', s') \<Longrightarrow> keeps s s'"
  by (erule serve_client_cases) (blast intro: keeps_trans keeps_client_output keeps_client_input keeps_client_stdin keeps_client_hangup)+

lemma keeps_serve_clients: "serve_clients hx rs cs s = Some (x, cs', s') \<Longrightarrow> keeps s s'"
proof (induction hx rs cs s arbitrary: cs' rule: serve_clients.induct)
  case (1 hx r rs c cs s)
  show ?case
  proof (cases "cc_kind c = ClientEmpty")
    case False
    then obtain y c1 s1 where y: "serve_client hx r c s = Some (y, c1, s1)" using "1.prems" by (auto split: option.splits)
    have k: "keeps s s1" by (rule keeps_serve_client [OF y])
    show ?thesis
    proof (cases y)
      case (Inr u)
      then have "\<exists>cs''. serve_clients hx rs cs s1 = Some (x, cs'', s')" using "1.prems" False y by auto
      then have "keeps s1 s'" using "1.IH"(2) [OF False y] Inr by auto
      then show ?thesis using k keeps_trans by blast
    qed (use 1 False y k in auto)
  qed (use 1 in auto)
qed auto

section \<open>The buffers of a client\<close>

definition buffers_ok :: "control_client \<Rightarrow> bool" where
  "buffers_ok c \<longleftrightarrow> length (cc_request c) < CUBICLE_REQUEST_MAX \<and> length (cc_response c) \<le> cc_response_capacity c
     \<and> cc_response_capacity c \<le> CUBICLE_RESPONSE_MAX \<and> cc_response_offset c \<le> length (cc_response c)"

lemma grow_response_bounds:
  assumes "0 < capacity" "capacity \<le> CUBICLE_RESPONSE_MAX" "required \<le> CUBICLE_RESPONSE_MAX"
  shows "required \<le> grow_response required capacity \<and> grow_response required capacity \<le> CUBICLE_RESPONSE_MAX"
  using assms
proof (induction required capacity rule: grow_response.induct)
  case (1 required capacity)
  show ?case
  proof (cases "capacity < required")
    case True
    let ?c = "if capacity > CUBICLE_RESPONSE_MAX div 2 then CUBICLE_RESPONSE_MAX else capacity * 2"
    have "0 < ?c" "?c \<le> CUBICLE_RESPONSE_MAX" using "1.prems" by (auto simp: control_limits)
    then show ?thesis using "1.IH" True "1.prems" by (subst (1 2) grow_response.simps) simp
  next
    case False
    then show ?thesis using "1.prems" by (subst (1 2) grow_response.simps) simp
  qed
qed

text \<open>Queueing changes nothing of a client but its response, its kind and what is to be done after it.\<close>

definition grows :: "control_client \<Rightarrow> control_client \<Rightarrow> bool" where
  "grows c c' \<longleftrightarrow> cc_fd c' = cc_fd c \<and> cc_request c' = cc_request c \<and> cc_framed_request c' = cc_framed_request c
     \<and> cc_sent c' = cc_sent c \<and> cc_response_offset c' = cc_response_offset c
     \<and> (\<exists>more. cc_response c' = cc_response c @ more) \<and> (buffers_ok c \<longrightarrow> buffers_ok c')"

lemma grows_refl [simp, intro!]: "grows c c"
  by (simp add: grows_def)

lemma grows_trans: "grows c c1 \<Longrightarrow> grows c1 c2 \<Longrightarrow> grows c c2"
  by (auto simp: grows_def)

lemma grows_updates [simp]:
  "grows c (c1\<lparr>cc_kind := k\<rparr>) = grows c c1"
  "grows c (c1\<lparr>cc_close_after_response := b\<rparr>) = grows c c1"
  by (auto simp: grows_def buffers_ok_def)

lemma enqueue_response_grows:
  assumes "enqueue_response hx buffer c1 = (r, c')" "grows c c1"
  shows "grows c c'"
proof -
  have "length buffer + length (cc_response c1) \<le> CUBICLE_RESPONSE_MAX \<Longrightarrow> buffers_ok c1 \<Longrightarrow>
      length (cc_response c1) + length buffer \<le> grow_response (length (cc_response c1) + length buffer)
        (if cc_response_capacity c1 = 0 then 4096 else cc_response_capacity c1)
      \<and> grow_response (length (cc_response c1) + length buffer)
        (if cc_response_capacity c1 = 0 then 4096 else cc_response_capacity c1) \<le> CUBICLE_RESPONSE_MAX"
    by (rule grow_response_bounds) (auto simp: buffers_ok_def control_limits)
  then have "grows c1 c'"
    using assms(1) by (auto simp: enqueue_response_def grows_def buffers_ok_def Let_def split: if_splits)
  then show ?thesis using assms(2) grows_trans by blast
qed

lemma enqueue_response_appends:
  "enqueue_response hx buffer c = (Inr u, c') \<Longrightarrow> cc_response c' = cc_response c @ buffer \<and> cc_kind c' = cc_kind c"
  by (auto simp: enqueue_response_def Let_def split: if_splits)

lemma enqueue_error_grows: "enqueue_error_response hx t c1 = (r, c') \<Longrightarrow> grows c c1 \<Longrightarrow> grows c c'"
  by (auto simp: enqueue_error_response_def Let_def split: if_splits elim!: enqueue_response_grows)

lemma enqueue_error_kind: "enqueue_error_response hx t c = (Inr u, c') \<Longrightarrow> cc_kind c' = ClientResponding"
  by (auto simp: enqueue_error_response_def Let_def split: if_splits dest!: enqueue_response_appends)

lemma enqueue_pieces_grows: "enqueue_pieces hx data c1 = (r, c') \<Longrightarrow> grows c c1 \<Longrightarrow> grows c c'"
proof (induction hx data c1 rule: enqueue_pieces.induct)
  case (1 hx data c1)
  show ?case
  proof (cases "data = []")
    case False
    obtain x c2 where x: "enqueue_response hx (take 4096 data) c1 = (x, c2)" by fastforce
    then have g: "grows c c2" using "1.prems"(2) enqueue_response_grows by blast
    show ?thesis
    proof (cases x)
      case (Inr u)
      then show ?thesis using 1 False x g by (simp add: enqueue_pieces.simps [of hx data])
    qed (use "1.prems" False x g in \<open>simp add: enqueue_pieces.simps [of hx data]\<close>)
  qed (use 1 in \<open>simp add: enqueue_pieces.simps\<close>)
qed

lemma enqueue_pieces_appends:
  "enqueue_pieces hx data c = (Inr u, c') \<Longrightarrow> cc_response c' = cc_response c @ data \<and> cc_kind c' = cc_kind c"
proof (induction hx data c rule: enqueue_pieces.induct)
  case (1 hx data c)
  show ?case
  proof (cases "data = []")
    case False
    obtain x c2 where x: "enqueue_response hx (take 4096 data) c = (x, c2)" by fastforce
    then obtain v where v: "x = Inr v" using 1 False by (cases x) (simp_all add: enqueue_pieces.simps [of hx data])
    have "enqueue_pieces hx (drop 4096 data) c2 = (Inr u, c')"
      using "1.prems" False x v by (simp add: enqueue_pieces.simps [of hx data])
    then show ?thesis using "1.IH" [OF False x [symmetric] v] enqueue_response_appends [of hx "take 4096 data" c v c2] x v
      by simp
  qed (use 1 in \<open>simp add: enqueue_pieces.simps\<close>)
qed

section \<open>Answers\<close>

text \<open>An answer to a request that does not attach leaves the client responding, unless it failed.\<close>

named_theorems answers_rules \<open>handlers that leave the client responding\<close>

definition answers :: "control_client \<Rightarrow> 'v answered \<Rightarrow> bool" where
  "answers c a \<longleftrightarrow> grows c (fst (snd a)) \<and> (fst a = Inr () \<longrightarrow> cc_kind (fst (snd a)) = ClientResponding)"

lemma answers_failed [simp]: "answers c (Inl e, c', s) \<longleftrightarrow> grows c c'"
  by (simp add: answers_def)

lemma enqueue_api_frame_grows: "enqueue_api_frame hx t c1 = (r, c') \<Longrightarrow> grows c c1 \<Longrightarrow> grows c c'"
  by (auto simp: enqueue_api_frame_def split: if_splits prod.splits sum.splits dest!: enqueue_response_grows [where c = c])

lemma enqueue_api_frame_kind: "enqueue_api_frame hx t c = (Inr u, c') \<Longrightarrow> cc_kind c' = ClientResponding"
  by (auto simp: enqueue_api_frame_def split: if_splits prod.splits sum.splits dest!: enqueue_response_appends)

lemma enqueue_api_error_answers:
  "enqueue_api_error hx rid code msg b i c = (r, c') \<Longrightarrow> grows c c' \<and> (r = Inr () \<longrightarrow> cc_kind c' = ClientResponding)"
  by (auto simp: enqueue_api_error_def split: sum.splits dest: enqueue_api_frame_grows [OF _ grows_refl] enqueue_api_frame_kind)

lemma enqueue_api_success_answers:
  "enqueue_api_success hx rid t c = (r, c') \<Longrightarrow> grows c c' \<and> (r = Inr () \<longrightarrow> cc_kind c' = ClientResponding)"
  by (auto simp: enqueue_api_success_def Let_def split: sum.splits if_splits
      dest: enqueue_api_frame_grows [OF _ grows_refl] enqueue_api_frame_kind)

lemma answers_success [answers_rules]: "answers c (api_success hx rid t c s)"
  by (cases "enqueue_api_success hx rid t c") (auto simp: answers_def api_success_def dest: enqueue_api_success_answers)

lemma answers_error [answers_rules]: "answers c (api_error hx rid code msg b i c s)"
  by (cases "enqueue_api_error hx rid code msg b i c") (auto simp: answers_def api_error_def dest: enqueue_api_error_answers)

lemma answers_line_error [answers_rules]: "answers c (line_error hx t c s)"
  by (cases "enqueue_error_response hx t c")
    (auto simp: answers_def line_error_def dest: enqueue_error_grows [OF _ grows_refl] enqueue_error_kind)

lemma answers_line_response [answers_rules]: "answers c (line_response hx t c s)" "answers c (line_done hx c s)"
proof -
  show "answers c (line_response hx t c s)" for t
  proof -
    obtain r c' where e: "enqueue_response hx t (c\<lparr>cc_kind := ClientResponding\<rparr>) = (r, c')" by fastforce
    have "grows c c'" by (rule enqueue_response_grows [OF e]) simp
    then show ?thesis using enqueue_response_appends [of hx t "c\<lparr>cc_kind := ClientResponding\<rparr>" "()" c'] e
      by (auto simp: answers_def line_response_def)
  qed
  then show "answers c (line_done hx c s)" by (simp add: line_done_def)
qed

lemma answers_api_resize: "api_resize hx rid params c s = Some a \<Longrightarrow> answers c a"
proof -
  have e: "answers c (resize_events hx rid e d c s1)" for e d s1
    by (auto simp: resize_events_def intro!: answers_rules split: prod.split sum.split)
  assume a: "api_resize hx rid params c s = Some a"
  then show ?thesis
    unfolding api_resize_def Let_def
    by (auto intro!: answers_rules e split: if_splits sum.splits prod.splits elim!: after_resize_cases simp del: map_option_eq_Some)
qed

lemma answers_api [answers_rules]:
  "answers c (api_status hx rid c s)"
  "answers c (api_read hx rid params c s)"
  "answers c (api_snapshot hx rid c s)"
  "answers c (api_write hx rid params c s)"
  "answers c (api_close_input hx rid c s)"
  "answers c (api_attach hx rid params c s)"
  "answers c (api_detach hx rid c s)"
  "answers c (api_signal hx rid params c s)"
  "answers c (api_terminate hx rid c s)"
  "answers c (api_events_after hx rid params c s)"
  by (auto simp: api_status_def api_read_def api_snapshot_def api_write_def api_close_input_def api_attach_def api_detach_def
      api_signal_def api_terminate_def api_events_after_def Let_def intro!: answers_rules
      split: sum.split option.split prod.split)

lemma answers_dispatch_api: "dispatch_api_request hx c s = Some a \<Longrightarrow> answers c a"
proof -
  have r: "answers c x \<Longrightarrow> answers c (api_return hx meth x)" for meth x
    by (cases x) (simp add: answers_def api_return_def)
  have m: "dispatch_method hx meth rid params c s = Some x \<Longrightarrow> answers c x" for meth rid params x
    using answers_api_resize [of hx rid params c s x] by (auto simp: dispatch_method_def intro!: answers_rules split: if_splits)
  assume "dispatch_api_request hx c s = Some a"
  then show ?thesis by (auto simp: dispatch_api_request_def intro!: answers_rules r dest: m split: sum.splits)
qed

section \<open>The logs and what attached clients are owed\<close>

definition log_name :: "bool \<Rightarrow> bytes" where
  "log_name err = (if err then ''stderr.log'' else ''stdout.log'')"

definition log_content :: "bool \<Rightarrow> 'v controller_state \<Rightarrow> bytes" where
  "log_content err s = (case stream_fd err s of None \<Rightarrow> [] | Some path \<Rightarrow> (case st_files s path of None \<Rightarrow> [] | Some c \<Rightarrow> c))"

text \<open>The logs are open on their paths, apart from each other and from the log of events, and as long as their offsets say.\<close>

definition logs_ok :: "'v controller_state \<Rightarrow> bool" where
  "logs_ok s \<longleftrightarrow> st_stdout_fd s \<noteq> st_stderr_fd s \<and>
     (\<forall>err. \<exists>path. stream_fd err s = Some path \<and> make_log_file_path s (log_name err) = Inr path \<and> st_files s path \<noteq> None
        \<and> st_events_fd s \<noteq> Some path \<and> stream_offset err s = int (length (log_content err s)))"

lemma keeps_log_content:
  assumes "keeps s s'" "logs_ok s"
  shows "log_content err s' = log_content err s"
proof -
  obtain path where "stream_fd err s = Some path" "st_events_fd s \<noteq> Some path" using assms(2) unfolding logs_ok_def by metis
  then show ?thesis using assms(1) by (auto simp: log_content_def keeps_def stream_fd_def)
qed

lemma keeps_logs_ok:
  assumes "keeps s s'" "logs_ok s"
  shows "logs_ok s'"
proof -
  have "\<exists>path. stream_fd err s' = Some path \<and> make_log_file_path s' (log_name err) = Inr path \<and> st_files s' path \<noteq> None
        \<and> st_events_fd s' \<noteq> Some path \<and> stream_offset err s' = int (length (log_content err s'))" for err
  proof -
    obtain path where p: "stream_fd err s = Some path" "make_log_file_path s (log_name err) = Inr path" "st_files s path \<noteq> None"
      "st_events_fd s \<noteq> Some path" "stream_offset err s = int (length (log_content err s))"
      using assms(2) unfolding logs_ok_def by metis
    then show ?thesis using assms(1) keeps_log_content [OF assms, of err]
      by (intro exI [of _ path]) (cases err; simp add: keeps_def stream_fd_def stream_offset_def make_log_file_path_def)
  qed
  then show ?thesis using assms unfolding logs_ok_def keeps_def by auto
qed

text \<open>What was written to a client and what is queued for it.\<close>

definition delivered :: "control_client \<Rightarrow> bytes" where
  "delivered c = cc_sent c @ drop (cc_response_offset c) (cc_response c)"

definition attach_header :: "bytes \<Rightarrow> int \<Rightarrow> int \<Rightarrow> bytes" where
  "attach_header stream start n =
     ''ok attached stream='' @ stream @ '' start='' @ show_int start @ '' length='' @ show_int n @ [NL]"

definition attached :: "bool \<Rightarrow> 'v controller_state \<Rightarrow> control_client \<Rightarrow> bool" where
  "attached err s c \<longleftrightarrow>
     (\<exists>stream start n. stream_file_name stream = Some (log_name err) \<and> 0 \<le> start \<and> 0 \<le> n \<and> n \<le> 65536 \<and> start + n \<le> int (length (log_content err s))
        \<and> delivered c = attach_header stream start n @ drop (nat start) (log_content err s))"

definition client_ok :: "'v controller_state \<Rightarrow> control_client \<Rightarrow> bool" where
  "client_ok s c \<longleftrightarrow> buffers_ok c
     \<and> (cc_kind c = ClientReading \<and> \<not> cc_framed_request c \<longrightarrow> cc_response c = [] \<and> cc_sent c = [])
     \<and> (cc_kind c = ClientAttachedStdout \<longrightarrow> attached False s c) \<and> (cc_kind c = ClientAttachedStderr \<longrightarrow> attached True s c)"

lemma keeps_client_ok: "keeps s s' \<Longrightarrow> logs_ok s \<Longrightarrow> client_ok s c \<Longrightarrow> client_ok s' c"
  by (simp add: client_ok_def attached_def keeps_log_content)

lemma empty_client_ok [simp]: "client_ok s empty_client"
  by (simp add: client_ok_def empty_client_def buffers_ok_def control_limits)

lemma close_client_ok: "close_control_client hx c s = (c', s') \<Longrightarrow> client_ok s0 c'"
  by (simp add: close_control_client_def)

lemma grows_client_ok:
  "grows c c' \<Longrightarrow> buffers_ok c \<Longrightarrow> cc_kind c' \<in> {ClientResponding, ClientAttachingStdin} \<Longrightarrow> client_ok s c'"
  by (auto simp: client_ok_def grows_def)

lemma enqueue_stream_bytes_appends:
  assumes "enqueue_stream_bytes hx s stream start n c = (Inr u, c')"
  shows "\<exists>name path content. stream_file_name stream = Some name \<and> make_log_file_path s name = Inr path
    \<and> st_files s path = Some content \<and> cc_response c' = cc_response c @ file_range content start n"
  using assms
  by (auto simp: enqueue_stream_bytes_def open_log_def split: option.splits sum.splits dest!: enqueue_pieces_appends)

lemma enqueue_stream_bytes_grows: "enqueue_stream_bytes hx s stream start n c1 = (r, c') \<Longrightarrow> grows c c1 \<Longrightarrow> grows c c'"
  by (auto simp: enqueue_stream_bytes_def split: option.splits sum.splits elim!: enqueue_pieces_grows)

lemma send_attach_catchup_grows: "send_attach_catchup hx s stream start c = (r, c') \<Longrightarrow> grows c c'"
  by (auto simp: send_attach_catchup_def Let_def split: if_splits prod.splits sum.splits
      elim!: enqueue_error_grows [OF _ grows_refl] enqueue_response_grows [OF _ grows_refl]
        enqueue_stream_bytes_grows [OF _ enqueue_response_grows [OF _ grows_refl]])

lemma log_name_cases:
  assumes "stream_file_name stream = Some name"
  obtains err where "name = log_name err"
proof (cases "stream \<in> {''stdout'', ''out'', ''tty''}")
  case True
  then have "name = log_name False" using assms by (simp only: stream_file_name_def log_name_def if_True if_False option.inject)
  then show ?thesis by (rule that)
next
  case False
  then have "name = log_name True"
    using assms by (simp only: stream_file_name_def log_name_def if_True if_False option.inject split: if_splits) simp
  then show ?thesis by (rule that)
qed

lemma stream_available_offset_eq:
  assumes "stream_file_name stream = Some (log_name err)"
  shows "stream_available_offset s stream = stream_offset err s"
proof (cases err)
  case True
  then have "stream \<notin> {''stdout'', ''out'', ''tty''}" "stream \<in> {''stderr'', ''err''}"
    using assms by (simp_all only: stream_file_name_def log_name_def if_True option.inject split: if_splits) simp_all
  then show ?thesis using True by (simp only: stream_available_offset_def stream_offset_def if_True if_False)
next
  case False
  then have "stream \<in> {''stdout'', ''out'', ''tty''}"
    using assms by (simp only: stream_file_name_def log_name_def if_False option.inject split: if_splits) simp_all
  then show ?thesis using False by (simp only: stream_available_offset_def stream_offset_def if_True if_False)
qed

text \<open>The catch-up is the header and the log from the start on.\<close>

lemma send_attach_catchup_delivers:
  assumes "send_attach_catchup hx s stream start c = (Inr False, c')" "logs_ok s"
    and "stream_file_name stream = Some (log_name err)" "cc_response c = []" "cc_sent c = []" "buffers_ok c"
  shows "attached err s c'"
proof -
  let ?n = "stream_offset err s - start"
  note av = stream_available_offset_eq [OF assms(3), of s]
  obtain path where p: "stream_fd err s = Some path" "make_log_file_path s (log_name err) = Inr path" "st_files s path \<noteq> None"
    "stream_offset err s = int (length (log_content err s))"
    using assms(2) unfolding logs_ok_def by metis
  obtain c1 where c1: "enqueue_response hx (attach_header stream start ?n) c = (Inr (), c1)"
    "enqueue_stream_bytes hx s stream start ?n c1 = (Inr (), c')" "0 \<le> start" "start \<le> stream_offset err s" "?n \<le> 65536"
    using assms(1) av
    by (auto simp: send_attach_catchup_def Let_def attach_header_def split: if_splits prod.splits sum.splits)
  have "st_files s path = Some (log_content err s)" using p(1,3) by (auto simp: log_content_def)
  then have "cc_response c' = cc_response c1 @ file_range (log_content err s) start ?n"
    using enqueue_stream_bytes_appends [OF c1(2)] assms(3) p(2) by auto
  then have "cc_response c' = attach_header stream start ?n @ drop (nat start) (log_content err s)"
    using enqueue_response_appends [OF c1(1)] assms(4) p(4) c1(3,4) by (simp add: file_range_def)
  moreover have "cc_sent c' = []" "cc_response_offset c' = 0"
    using send_attach_catchup_grows [OF assms(1)] assms(4,5,6) by (auto simp: grows_def buffers_ok_def)
  ultimately show ?thesis
    using assms(3) c1(3,4,5) p(4) unfolding attached_def delivered_def
    by (intro exI [of _ stream] exI [of _ start] exI [of _ ?n]) simp
qed

section \<open>Requests keep the clients in order\<close>

lemma answers_line [answers_rules]:
  "answers c (line_status hx c s)"
  "answers c (line_signal hx sig c s)"
  by (auto simp: line_status_def line_signal_def intro!: answers_rules split: prod.split sum.split)

lemma answers_queued:
  assumes "\<And>r c'. f = (r, c') \<Longrightarrow> grows c c' \<and> (r = Inr () \<longrightarrow> cc_kind c' = ClientResponding)"
  shows "answers c (case f of (r, c') \<Rightarrow> (r, c', s))"
  using assms by (cases f) (auto simp: answers_def)

lemma read_stream_range_answers:
  "read_stream_range hx s stream start n c = (r, c') \<Longrightarrow> grows c c' \<and> (r = Inr () \<longrightarrow> cc_kind c' = ClientResponding)"
  by (auto simp: read_stream_range_def Let_def split: if_splits option.splits sum.splits prod.splits
      dest: enqueue_error_kind enqueue_error_grows [OF _ grows_refl] enqueue_response_grows [OF _ grows_refl]
        enqueue_pieces_grows [OF _ enqueue_response_grows [OF _ grows_refl]])

lemma write_file_response_answers:
  "write_file_response hx s name c = (r, c') \<Longrightarrow> grows c c' \<and> (r = Inr () \<longrightarrow> cc_kind c' = ClientResponding)"
  by (auto simp: write_file_response_def Let_def split: if_splits option.splits sum.splits prod.splits
      dest: enqueue_error_kind enqueue_error_grows [OF _ grows_refl] enqueue_response_grows [OF _ grows_refl]
        enqueue_pieces_grows [OF _ enqueue_response_grows [OF _ grows_refl]])

lemma write_events_after_answers:
  "write_events_after_response hx s a l c = (r, c') \<Longrightarrow> grows c c' \<and> (r = Inr () \<longrightarrow> cc_kind c' = ClientResponding)"
  by (auto simp: write_events_after_response_def Let_def split: if_splits option.splits sum.splits prod.splits
      dest: enqueue_error_kind enqueue_error_grows [OF _ grows_refl] enqueue_response_grows [OF _ grows_refl]
        enqueue_response_grows [OF _ enqueue_response_grows [OF _ grows_refl]])

lemma answers_line_resize: "line_resize hx args c s = Some a \<Longrightarrow> answers c a"
  unfolding line_resize_def Let_def
  by (auto intro!: answers_rules split: if_splits sum.splits prod.splits option.splits elim!: after_resize_cases
      simp del: map_option_eq_Some)

text \<open>An answer to a line leaves the client in order, whatever it was; a failed one is closed by the caller.\<close>

definition settled :: "'v controller_state \<Rightarrow> control_client \<Rightarrow> 'v answered \<Rightarrow> bool" where
  "settled s c a \<longleftrightarrow> (fst a = Inr () \<longrightarrow> client_ok s (fst (snd a)))"

lemma answers_settled: "answers c a \<Longrightarrow> buffers_ok c \<Longrightarrow> settled s c a"
  by (auto simp: settled_def answers_def intro: grows_client_ok)

lemma line_attach_stdin_settled: "buffers_ok c \<Longrightarrow> settled s0 c (line_attach_stdin hx c s)"
proof -
  assume b: "buffers_ok c"
  obtain r c' where e: "enqueue_response hx (''ok attached stream=stdin'' @ [NL]) (c\<lparr>cc_kind := ClientAttachingStdin\<rparr>) = (r, c')" by fastforce
  have "grows c c'" by (rule enqueue_response_grows [OF e]) simp
  moreover have "r = Inr () \<Longrightarrow> cc_kind c' = ClientAttachingStdin" using enqueue_response_appends e by fastforce
  ultimately have "r = Inr () \<Longrightarrow> client_ok s0 c'" using b by (auto intro: grows_client_ok)
  then have "settled s0 c (r, c', s)" by (simp add: settled_def)
  moreover have "settled s0 c (line_error hx t c s)" for t by (rule answers_settled [OF answers_line_error b])
  ultimately show ?thesis using e by (simp add: line_attach_stdin_def)
qed

lemma line_attach_settled:
  assumes "logs_ok s" "buffers_ok c" "cc_response c = []" "cc_sent c = []"
  shows "settled s c (line_attach hx args c s)"
proof -
  have e: "settled s c (line_error hx t c s)" for t by (rule answers_settled [OF answers_line_error assms(2)])
  have "settled s c (case send_attach_catchup hx s stream start c of
        (Inl e, c1) \<Rightarrow> (Inl e, c1, s)
      | (Inr True, c1) \<Rightarrow> (Inr (), c1, s)
      | (Inr False, c1) \<Rightarrow>
          if name = ''stdout.log''
          then (Inr (), c1\<lparr>cc_kind := ClientAttachedStdout\<rparr>, log_event hx ''type=client_attached stream=stdout'' s)
          else (Inr (), c1\<lparr>cc_kind := ClientAttachedStderr\<rparr>, log_event hx ''type=client_attached stream=stderr'' s))"
    if n: "stream_file_name stream = Some name" for stream name start
  proof -
    obtain r c1 where r: "send_attach_catchup hx s stream start c = (r, c1)" by fastforce
    obtain err where err: "name = log_name err" using log_name_cases [OF n] .
    have b: "buffers_ok c1" using send_attach_catchup_grows [OF r] assms(2) by (simp add: grows_def)
    consider (failed) e where "r = Inl e" | (refused) "r = Inr True" | (done') "r = Inr False" by (cases r) auto
    then show ?thesis
    proof cases
      case refused
      then have "cc_kind c1 = ClientResponding"
        using r by (auto simp: send_attach_catchup_def Let_def split: if_splits prod.splits sum.splits dest: enqueue_error_kind)
      then show ?thesis using refused r b by (simp add: settled_def client_ok_def)
    next
      case done'
      then have "attached err s c1" using send_attach_catchup_delivers [of hx s stream start c c1 err] r assms n err by simp
      then have "attached err s (c1\<lparr>cc_kind := k\<rparr>)" "buffers_ok (c1\<lparr>cc_kind := k\<rparr>)" for k
        using b by (simp_all add: attached_def delivered_def buffers_ok_def)
      then show ?thesis using done' r err by (cases err) (simp_all add: settled_def client_ok_def log_name_def)
    qed (use r in \<open>simp add: settled_def\<close>)
  qed
  then show ?thesis unfolding line_attach_def using e by (auto split: option.split)
qed

lemma option_if_cases: "(if P then x else y) = Some a \<Longrightarrow> (x = Some a \<Longrightarrow> Q) \<Longrightarrow> (y = Some a \<Longrightarrow> Q) \<Longrightarrow> Q"
  by (cases P) auto

lemma line_request_settled:
  assumes "line_request hx req c s = Some a" "logs_ok s" "buffers_ok c" "cc_response c = []" "cc_sent c = []"
  shows "settled s c a"
proof -
  note s = answers_settled [OF _ assms(3)]
  have e: "settled s c (line_events hx args c s)" for args
    by (auto simp: line_events_def Let_def intro!: s answers_line_error answers_queued write_events_after_answers split: option.split)
  have r: "settled s c (line_read hx args c s)" for args
    by (auto simp: line_read_def Let_def intro!: s answers_line_error answers_queued read_stream_range_answers split: option.split)
  have m: "settled s c (case write_file_response hx s name c of (r, c') \<Rightarrow> (r, c', s))" for name
    by (intro s answers_queued write_file_response_answers)
  have z: "line_resize hx args c s = Some x \<Longrightarrow> settled s c x" for args x using s [OF answers_line_resize] .
  show ?thesis
    using assms(1) unfolding line_request_def
    by (elim option_if_cases; auto simp: e r m line_attach_stdin_settled [OF assms(3)] line_attach_settled [OF assms(2-5)]
        s [OF answers_line(1)] s [OF answers_line(2)] s [OF answers_line_error] dest: z split: option.splits)
qed

lemma dispatch_control_settled:
  assumes "dispatch_control_request hx c s = Some (c', s')" "logs_ok s" "buffers_ok c" "cc_response c = []" "cc_sent c = []"
  shows "client_ok s' c'"
proof -
  obtain r c1 s1 where l: "line_request hx (cc_request c) c s = Some (r, c1, s1)"
    using assms(1) by (auto simp: dispatch_control_request_def)
  have k: "keeps s s'" by (rule keeps_dispatch_control [OF assms(1)])
  show ?thesis
  proof (cases r)
    case (Inl e)
    then show ?thesis using assms(1) l close_client_ok by (auto simp: dispatch_control_request_def Let_def)
  next
    case (Inr u)
    then have "client_ok s c1" using line_request_settled [OF l assms(2-5)] by (simp add: settled_def)
    then show ?thesis using assms(1,2) l Inr keeps_client_ok [OF k] by (simp add: dispatch_control_request_def Let_def)
  qed
qed

text \<open>What a byte of a request leaves: a client that reads on, or one that was answered.\<close>

definition request_handled :: "'v controller_state \<Rightarrow> control_client + 'v answered \<Rightarrow> bool" where
  "request_handled s y \<longleftrightarrow>
     (case y of
        Inl c \<Rightarrow> client_ok s c \<and> cc_kind c = ClientReading
      | Inr (x, c', s') \<Rightarrow> x = Inr () \<longrightarrow> client_ok s' c')"

lemma handled_answer: "settled s c a \<Longrightarrow> answer_keeps s a \<Longrightarrow> logs_ok s \<Longrightarrow> request_handled s (Inr a)"
  by (cases a) (auto simp: request_handled_def settled_def intro: keeps_client_ok)

lemma refuse_handled:
  assumes "buffers_ok c" "logs_ok s"
  shows "request_handled s (Inr (refuse_api hx t c s))" "request_handled s (Inr (refuse_line hx t c s))"
proof -
  obtain r c1 where r: "enqueue_api_error hx [] CUBICLE_ERR_RESOURCE_LIMIT t False 0 c = (r, c1)" by fastforce
  have "r = Inr () \<Longrightarrow> client_ok s c1"
    using enqueue_api_error_answers [OF r] assms(1) by (auto intro: grows_client_ok)
  then show "request_handled s (Inr (refuse_api hx t c s))"
    using r by (cases r) (auto simp: refuse_api_def request_handled_def close_control_client_def)
  obtain q c2 where q: "enqueue_error_response hx t c = (q, c2)" by fastforce
  have "q = Inr () \<Longrightarrow> client_ok s c2"
    using enqueue_error_grows [OF q grows_refl] enqueue_error_kind [of hx t c "()" c2] q assms(1) by (auto intro: grows_client_ok)
  then show "request_handled s (Inr (refuse_line hx t c s))"
    using q by (cases q) (auto simp: refuse_line_def request_handled_def close_control_client_def)
qed

lemma framed_byte_handled:
  assumes "framed_byte hx b c s = Some y" "logs_ok s" "buffers_ok c" "cc_kind c = ClientReading" "cc_framed_request c"
  shows "request_handled s y"
proof (cases "length (cc_request c) + 1 \<ge> CUBICLE_REQUEST_MAX")
  case True
  then show ?thesis using assms(1) refuse_handled [OF assms(3,2)] by (auto simp: framed_byte_def)
next
  case False
  let ?c1 = "c\<lparr>cc_request := cc_request c @ [b]\<rparr>"
  let ?c2 = "if length (cc_request ?c1) = 4 then ?c1\<lparr>cc_framed_length := of_be32 (cc_request ?c1)\<rparr> else ?c1"
  have b: "buffers_ok ?c2" using assms(3) False by (auto simp: buffers_ok_def)
  have k: "client_ok s ?c2" "cc_kind ?c2 = ClientReading" using assms(4,5) b by (auto simp: client_ok_def)
  have f: "request_handled s (Inr a)" if "finish_api_request hx ?c2 s = Some a" for a
  proof -
    let ?c3 = "?c2\<lparr>cc_request := take (cc_framed_length ?c2) (drop 4 (cc_request ?c2))\<rparr>"
    have "buffers_ok ?c3" using b by (auto simp: buffers_ok_def)
    then show ?thesis
      using that answers_settled [OF answers_dispatch_api, of hx ?c3 s a s] answer_keeps_finish_api [OF that] assms(2)
      by (auto simp: finish_api_request_def intro: handled_answer)
  qed
  have "request_handled s (Inl ?c2)" using k by (simp add: request_handled_def)
  then show ?thesis
    using assms(1) False f refuse_handled(1) [OF b assms(2), of hx "''invalid frame length''"]
    by (auto simp: framed_byte_def Let_def split: if_splits)
qed

lemma finish_control_handled:
  assumes "finish_control_request hx c s = Some a" "logs_ok s" "client_ok s c" "cc_kind c = ClientReading" "\<not> cc_framed_request c"
  shows "request_handled s (Inr a)"
proof -
  obtain req c' s' where a: "a = (Inr (), c', s')" "dispatch_control_request hx (c\<lparr>cc_request := req\<rparr>) s = Some (c', s')"
    "length req \<le> length (cc_request c)"
    using assms(1) by (fastforce simp: finish_control_request_def Let_def)
  have "client_ok s' c'"
    using dispatch_control_settled [OF a(2) assms(2)] a(3) assms(3-5) by (auto simp: client_ok_def buffers_ok_def)
  then show ?thesis using a(1) by (simp add: request_handled_def)
qed

lemma request_byte_handled:
  assumes "request_byte hx b c s = Some y" "logs_ok s" "client_ok s c" "cc_kind c = ClientReading"
  shows "request_handled s y"
proof -
  define c1 where "c1 = (if cc_request c = [] \<and> b = NUL then c\<lparr>cc_framed_request := True\<rparr> else c)"
  have b: "buffers_ok c1" "cc_kind c1 = ClientReading" "client_ok s c1"
    using assms(3,4) by (auto simp: c1_def client_ok_def buffers_ok_def)
  note run = assms(1) [unfolded request_byte_def Let_def, folded c1_def]
  show ?thesis
  proof (cases "cc_framed_request c1")
    case True
    then show ?thesis using run framed_byte_handled [OF _ assms(2) b(1,2) True] by auto
  next
    case False
    have l: "request_handled s (Inl (c1\<lparr>cc_request := cc_request c1 @ [b]\<rparr>))" if "length (cc_request c1) + 1 < CUBICLE_LINE_REQUEST_MAX"
      using b False that by (auto simp: request_handled_def client_ok_def buffers_ok_def control_limits)
    have f: "request_handled s (Inr a)" if "finish_control_request hx c1 s = Some a" for a
      by (rule finish_control_handled [OF that assms(2) b(3,2) False])
    have r: "request_handled s (Inr (refuse_line hx t c1 s))" for t by (rule refuse_handled(2) [OF b(1) assms(2)])
    show ?thesis using run False l f r by (auto split: if_splits)
  qed
qed

lemma request_bytes_handled:
  assumes "logs_ok s"
  shows "request_bytes hx bs c s = Some y \<Longrightarrow> client_ok s c \<Longrightarrow> cc_kind c = ClientReading \<Longrightarrow> request_handled s y"
proof (induction bs arbitrary: c)
  case Nil
  then show ?case by (auto simp: request_handled_def)
next
  case (Cons b bs)
  obtain z where z: "request_byte hx b c s = Some z" using Cons.prems by (cases "request_byte hx b c s") auto
  have h: "request_handled s z" by (rule request_byte_handled [OF z assms Cons.prems(2,3)])
  show ?case
  proof (cases z)
    case (Inl c1)
    then show ?thesis using Cons.IH [of c1] Cons.prems z h by (auto simp: request_handled_def)
  qed (use Cons.prems z h in auto)
qed

lemma activity_ok [simp]: "client_ok s (c\<lparr>cc_last_activity_ms := n\<rparr>) = client_ok s c"
  by (simp add: client_ok_def buffers_ok_def attached_def delivered_def)

lemma read_request_ok:
  assumes "logs_ok s"
  shows "read_control_client_request hx rs c s = Some (x, c', s') \<Longrightarrow> client_ok s c \<Longrightarrow> cc_kind c = ClientReading
    \<Longrightarrow> x = Inr () \<Longrightarrow> client_ok s' c'"
proof (induction rs arbitrary: c)
  case (Cons r rs)
  show ?case
  proof (cases r)
    case (RError e)
    then show ?thesis using Cons close_client_ok by (fastforce split: if_splits)
  next
    case REof
    show ?thesis
    proof (cases "cc_framed_request c \<or> cc_request c = []")
      case True
      then show ?thesis using Cons.prems REof close_client_ok by fastforce
    next
      case False
      then show ?thesis using Cons.prems REof finish_control_handled [OF _ assms Cons.prems(2,3)] by (auto simp: request_handled_def)
    qed
  next
    case (RData d)
    obtain y where y: "request_bytes hx (take 128 d) (c\<lparr>cc_last_activity_ms := hx_now hx\<rparr>) s = Some y"
      using Cons.prems(1) RData by (cases "request_bytes hx (take 128 d) (c\<lparr>cc_last_activity_ms := hx_now hx\<rparr>) s") auto
    have h: "request_handled s y" using request_bytes_handled [OF assms y] Cons.prems(2,3) by simp
    show ?thesis
    proof (cases y)
      case (Inl c1)
      then show ?thesis using Cons.IH [of c1] Cons.prems RData y h by (auto simp: request_handled_def)
    qed (use Cons.prems RData y h in \<open>auto simp: request_handled_def\<close>)
  qed
qed simp

section \<open>Rounds keep the clients in order\<close>

lemma flush_loop_ok:
  "flush_loop ws c = (f, c') \<Longrightarrow> buffers_ok c \<Longrightarrow>
    delivered c' = delivered c \<and> buffers_ok c' \<and> cc_kind c' = cc_kind c \<and> cc_framed_request c' = cc_framed_request c
    \<and> cc_response c' = cc_response c \<and> (f = Drained \<longrightarrow> cc_response_offset c' = length (cc_response c'))
    \<and> (cc_response c = [] \<longrightarrow> cc_sent c' = cc_sent c)"
proof (induction ws c rule: flush_loop.induct)
  case (1 c)
  then show ?case by (auto simp: delivered_def buffers_ok_def)
next
  case (2 w ws c)
  show ?case
  proof (cases "cc_response_offset c \<ge> length (cc_response c)")
    case True
    then show ?thesis using "2.prems" by (auto simp: buffers_ok_def)
  next
    case False
    show ?thesis
    proof (cases w)
      case (WError e)
      then show ?thesis using 2 False by (auto split: if_splits)
    next
      case (WShort n)
      let ?piece = "take n (drop (cc_response_offset c) (cc_response c))"
      let ?c = "c\<lparr>cc_sent := cc_sent c @ ?piece, cc_response_offset := cc_response_offset c + length ?piece\<rparr>"
      have "flush_loop ws ?c = (f, c')" using "2.prems"(1) False WShort by (simp add: Let_def)
      moreover have "buffers_ok ?c" using "2.prems"(2) by (auto simp: buffers_ok_def)
      moreover have "delivered ?c = delivered c"
      proof -
        let ?r = "drop (cc_response_offset c) (cc_response c)"
        have "drop (cc_response_offset c + length ?piece) (cc_response c) = drop (length (take n ?r)) ?r"
          by (simp add: add.commute)
        moreover have "take n ?r @ drop (length (take n ?r)) ?r = ?r"
          by (metis append_take_drop_id append_eq_conv_conj)
        ultimately show ?thesis by (simp add: delivered_def)
      qed
      ultimately show ?thesis using "2.IH"(2) [OF False WShort refl] False by auto
    qed
  qed
qed

lemma flush_ok:
  assumes "flush_control_client_response hx ws c s = (c', s')" "client_ok s c" "logs_ok s"
  shows "client_ok s' c'"
proof -
  have k: "keeps s s'" using keeps_flush [OF keeps_refl, of s hx ws c] assms(1) by simp
  obtain f c1 where f: "flush_loop ws c = (f, c1)" by fastforce
  have b: "buffers_ok c" using assms(2) by (simp add: client_ok_def)
  note l = flush_loop_ok [OF f b]
  have c1: "client_ok s c1" using assms(2) l by (auto simp: client_ok_def attached_def)
  show ?thesis
  proof (cases f)
    case Drained
    let ?c2 = "c1\<lparr>cc_response := [], cc_response_offset := 0\<rparr>"
    have d: "delivered ?c2 = delivered c1" using l Drained by (simp add: delivered_def)
    have c2: "client_ok s ?c2" using c1 d by (auto simp: client_ok_def attached_def buffers_ok_def)
    have "client_ok s c'"
      using assms(1) f Drained c2
      by (auto simp: flush_control_client_response_def Let_def close_control_client_def client_ok_def buffers_ok_def
          empty_client_def control_limits split: control_client_kind.splits if_splits)
    then show ?thesis using keeps_client_ok [OF k assms(3)] by blast
  next
    case Blocked
    then show ?thesis using assms(1) f c1 by (simp add: flush_control_client_response_def)
  next
    case Broken
    then show ?thesis using assms(1) f close_client_ok by (simp add: flush_control_client_response_def)
  qed
qed

lemma forward_ok: "forward_attached_stdin hx rs c s = (c', s') \<Longrightarrow> c' = c \<or> c' = empty_client"
proof (induction hx rs c s rule: forward_attached_stdin.induct)
  case (4 hx d rs c s)
  then show ?case by (auto simp: close_control_client_def split: prod.splits sum.splits)
qed (auto simp: close_control_client_def split: if_splits)

lemma serve_client_ok:
  assumes "serve_client hx r c s = Some (x, c', s')" "client_ok s c" "logs_ok s" "x = Inr ()"
  shows "client_ok s' c'"
  using assms(1)
proof (cases rule: serve_client_cases)
  case closed
  then show ?thesis using assms(2,3) flush_ok [of hx "cr_writes r" c s c' s'] by (auto simp: client_output_def split: if_splits)
next
  case (served c1 s1 c2 s2 c3 s3)
  have o1: "client_ok s1 c1" using served(1) assms(2,3) flush_ok [of hx "cr_writes r" c s c1 s1]
    by (auto simp: client_output_def split: if_splits)
  have l1: "logs_ok s1" using keeps_logs_ok [OF keeps_client_output [OF served(1)] assms(3)] .
  have o2: "client_ok s2 c2" using served(2) o1 read_request_ok [OF l1, of hx "cr_reads r" c1 "Inr ()" c2 s2]
    by (auto simp: client_input_def split: if_splits)
  have l2: "logs_ok s2" using keeps_logs_ok [OF keeps_client_input [OF served(2)] l1] .
  have "c3 = c2 \<or> c3 = empty_client" using served(3) forward_ok [of hx "cr_reads r" c2 s2 c3 s3]
    by (auto simp: client_stdin_def split: if_splits)
  then have o3: "client_ok s3 c3" using keeps_client_ok [OF keeps_client_stdin [OF served(3)] l2 o2] by auto
  have l3: "logs_ok s3" using keeps_logs_ok [OF keeps_client_stdin [OF served(3)] l2] .
  have "c' = c3 \<or> c' = empty_client" using served(4) by (auto simp: client_hangup_def close_control_client_def split: if_splits)
  then show ?thesis using keeps_client_ok [OF keeps_client_hangup [OF served(4)] l3 o3] by auto
qed (use assms in simp)

text \<open>The invariant of a table of clients.\<close>

definition clients_ok :: "'v controller_state \<Rightarrow> control_client list \<Rightarrow> bool" where
  "clients_ok s cs \<longleftrightarrow> list_all (client_ok s) cs"

lemma keeps_clients_ok: "keeps s s' \<Longrightarrow> logs_ok s \<Longrightarrow> clients_ok s cs \<Longrightarrow> clients_ok s' cs"
  by (auto simp: clients_ok_def list_all_iff intro: keeps_client_ok)

lemma serve_clients_ok:
  "serve_clients hx rs cs s = Some (x, cs', s') \<Longrightarrow> clients_ok s cs \<Longrightarrow> logs_ok s \<Longrightarrow> x = Inr ()
    \<Longrightarrow> clients_ok s' cs' \<and> length cs' = length cs"
proof (induction hx rs cs s arbitrary: cs' rule: serve_clients.induct)
  case (1 hx r rs c cs s)
  show ?case
  proof (cases "cc_kind c = ClientEmpty")
    case True
    then obtain cs'' where m: "serve_clients hx rs cs s = Some (x, cs'', s')" "cs' = c # cs''" using "1.prems" by auto
    then show ?thesis
      using "1.IH"(1) [OF True m(1)] "1.prems" keeps_client_ok [OF keeps_serve_clients [OF m(1)] "1.prems"(3)]
      by (auto simp: clients_ok_def)
  next
    case False
    obtain y c1 s1 where y: "serve_client hx r c s = Some (y, c1, s1)" using "1.prems"(1) False by (auto split: option.splits)
    then obtain u where u: "y = Inr u" using "1.prems"(1,4) False by (cases y) auto
    have k: "keeps s s1" by (rule keeps_serve_client [OF y])
    have c1: "client_ok s1 c1" using serve_client_ok [OF y] "1.prems" u by (simp add: clients_ok_def)
    obtain cs'' where m: "serve_clients hx rs cs s1 = Some (x, cs'', s')" "cs' = c1 # cs''" using "1.prems" False y u by auto
    have l1: "logs_ok s1" by (rule keeps_logs_ok [OF k "1.prems"(3)])
    have "clients_ok s1 cs" using keeps_clients_ok [OF k "1.prems"(3)] "1.prems"(2) by (simp add: clients_ok_def)
    then have "clients_ok s' cs'' \<and> length cs'' = length cs" using "1.IH"(2) [OF False y] u m(1) l1 "1.prems"(4) by auto
    then show ?thesis using m(2) keeps_client_ok [OF keeps_serve_clients [OF m(1)] l1 c1] by (simp add: clients_ok_def)
  qed
next
  case (2 hx rs c cs s)
  then obtain cs'' where m: "serve_clients hx rs cs s = Some (x, cs'', s')" "cs' = c # cs''" by auto
  then show ?case
    using 2 keeps_client_ok [OF keeps_serve_clients [OF m(1)] "2.prems"(3)] by (auto simp: clients_ok_def)
qed auto

lemma accept_ok: "accept_control_clients hx as cs = (r, cs') \<Longrightarrow> clients_ok s cs \<Longrightarrow> clients_ok s cs' \<and> length cs' = length cs"
proof (induction hx as cs rule: accept_control_clients.induct)
  case (3 hx fd cloexec nonblocking as cs)
  show ?case
  proof (cases "first_empty cs")
    case (Some i)
    let ?c = "(cs ! i)\<lparr>cc_fd := Some fd, cc_kind := ClientReading, cc_request := [], cc_framed_request := False,
               cc_framed_length := 0, cc_response := [], cc_response_offset := 0, cc_close_after_response := False,
               cc_last_activity_ms := hx_now hx, cc_sent := []\<rparr>"
    have "first_empty xs = Some j \<Longrightarrow> j < length xs" for xs j
      by (induction xs arbitrary: j) (auto split: if_splits)
    then have "i < length cs" using Some by blast
    then have "client_ok s (cs ! i)" using "3.prems"(2) by (simp add: clients_ok_def list_all_length)
    then have "client_ok s ?c" by (auto simp: client_ok_def buffers_ok_def control_limits)
    then have "clients_ok s (cs[i := ?c])"
      using "3.prems"(2) set_update_subset_insert [of cs i ?c] by (auto simp: clients_ok_def list_all_iff)
    then show ?thesis using 3 Some by (auto split: if_splits)
  qed (use 3 in \<open>auto split: if_splits\<close>)
qed (auto split: if_splits)

lemma reap_loop_ok: "reap_loop hx cs s = (cs', s') \<Longrightarrow> clients_ok s0 cs \<Longrightarrow> clients_ok s0 cs' \<and> length cs' = length cs"
proof (induction cs arbitrary: s cs')
  case (Cons c cs)
  then show ?case
    by (fastforce simp: clients_ok_def close_control_client_def Let_def split: prod.splits if_splits)
qed simp

lemma reap_ok: "reap_idle_control_clients hx cs s = (cs', s') \<Longrightarrow> clients_ok s0 cs \<Longrightarrow> clients_ok s0 cs' \<and> length cs' = length cs"
  by (auto simp: reap_idle_control_clients_def split: if_splits dest: reap_loop_ok)

end
