(* ===== verification/Controller_Run.thy ===== *)
theory Controller_Run
  imports Controller_Stream
begin

text \<open>
  The life of a controller: its arguments (\<open>src/controller/main.c\<close>), the socket it listens on
  (\<open>src/controller/control.c\<close>), the loop that answers clients after the child has gone, and the two
  functions that start the child and run the loops (\<open>src/controller/stream.c\<close>). What the kernel answers is
  an argument; the child's own side of the fork is not modelled.
\<close>

section \<open>Arguments\<close>

definition parse_stdin_policy :: "bytes \<Rightarrow> bool option" where
  "parse_stdin_policy name = (if name = ''open'' then Some False else if name = ''eof'' then Some True else None)"

definition parse_mode :: "bytes \<Rightarrow> process_mode option" where
  "parse_mode name =
     (if name = ''stream'' then Some ModeStream
      else if name = ''tty'' then Some ModeTty
      else if name = ''term'' \<or> name = ''tty-captured-stderr'' then Some ModeTerm
      else None)"

definition parse_nonnegative_int :: "bytes \<Rightarrow> nat option" where
  "parse_nonnegative_int s =
     (case scan_number s of
        None \<Rightarrow> None
      | Some (v, rest) \<Rightarrow> if rest \<noteq> [] \<or> v < 0 \<or> v > 2147483647 then None else Some (nat v))"

text \<open>The flags for input, library and terminal.\<close>

type_synonym debug_flags = "bool \<times> bool \<times> bool"

fun comma_fields :: "bytes \<Rightarrow> bytes list" where
  "comma_fields [] = [[]]"
| "comma_fields (c # cs) =
     (if c = CHR '','' then [] # comma_fields cs
      else case comma_fields cs of [] \<Rightarrow> [[c]] | f # fs \<Rightarrow> (c # f) # fs)"

fun debug_tokens :: "bytes list \<Rightarrow> debug_flags \<Rightarrow> debug_flags option" where
  "debug_tokens [] flags = Some flags"
| "debug_tokens (t # ts) (i, l, m) =
     (if t = ''input'' then debug_tokens ts (True, l, m)
      else if t = ''library'' then debug_tokens ts (i, True, m)
      else if t = ''terminal'' then debug_tokens ts (i, l, True)
      else None)"

definition parse_debug_flags :: "bytes \<Rightarrow> debug_flags option" where
  "parse_debug_flags s =
     (if s = ''none'' \<or> s = ''off'' \<or> s = ''false'' then Some (False, False, False)
      else if length s \<ge> 128 then None
      else debug_tokens (filter (\<lambda>t. t \<noteq> []) (comma_fields s)) (False, False, False))"

record arguments =
  ag_mode :: "bytes option"
  ag_state_dir :: "bytes option"
  ag_log_dir :: "bytes option"
  ag_control_socket :: "bytes option"
  ag_cwd :: "bytes option"
  ag_histfile :: "bytes option"
  ag_stdin_eof :: bool
  ag_daemon :: bool
  ag_retention :: nat
  ag_debug :: debug_flags

definition default_arguments :: arguments where
  "default_arguments =
     \<lparr>ag_mode = None, ag_state_dir = None, ag_log_dir = None, ag_control_socket = None, ag_cwd = None,
      ag_histfile = None, ag_stdin_eof = False, ag_daemon = False, ag_retention = 0,
      ag_debug = (False, False, False)\<rparr>"

datatype option_step = OptionNone | OptionBad | OptionTaken arguments

text \<open>An option that takes the word after it.\<close>

definition valued_option :: "bytes \<Rightarrow> bytes \<Rightarrow> arguments \<Rightarrow> option_step" where
  "valued_option name v a =
     (if name = ''--completed-retention-ms'' then
        (case parse_nonnegative_int v of None \<Rightarrow> OptionBad | Some n \<Rightarrow> OptionTaken (a\<lparr>ag_retention := n\<rparr>))
      else if name = ''--mode'' then OptionTaken (a\<lparr>ag_mode := Some v\<rparr>)
      else if name = ''--state-dir'' then OptionTaken (a\<lparr>ag_state_dir := Some v\<rparr>)
      else if name = ''--log-dir'' then OptionTaken (a\<lparr>ag_log_dir := Some v\<rparr>)
      else if name = ''--control-socket'' then OptionTaken (a\<lparr>ag_control_socket := Some v\<rparr>)
      else if name = ''--cwd'' then OptionTaken (a\<lparr>ag_cwd := Some v\<rparr>)
      else if name = ''--histfile'' then OptionTaken (a\<lparr>ag_histfile := Some v\<rparr>)
      else if name = ''--stdin-policy'' then
        (case parse_stdin_policy v of None \<Rightarrow> OptionBad | Some e \<Rightarrow> OptionTaken (a\<lparr>ag_stdin_eof := e\<rparr>))
      else if name = ''--debug'' then
        (case parse_debug_flags v of None \<Rightarrow> OptionBad | Some f \<Rightarrow> OptionTaken (a\<lparr>ag_debug := f\<rparr>))
      else OptionNone)"

datatype parsed = ParsedHelp | ParsedBad | Parsed arguments "bytes list"

text \<open>
  A word that is no option is skipped, and so is the last word where an option needs the one after it;
  the command starts after \<open>--\<close>.
\<close>

fun parse_arguments :: "bytes list \<Rightarrow> arguments \<Rightarrow> parsed" where
  "parse_arguments [] a = Parsed a []"
| "parse_arguments [w] a =
     (if w = ''--help'' then ParsedHelp else if w = ''--daemon'' then Parsed (a\<lparr>ag_daemon := True\<rparr>) [] else Parsed a [])"
| "parse_arguments (w # v # ws) a =
     (if w = ''--help'' then ParsedHelp
      else if w = ''--daemon'' then parse_arguments (v # ws) (a\<lparr>ag_daemon := True\<rparr>)
      else if w = ''--'' then Parsed a (v # ws)
      else case valued_option w v a of
        OptionNone \<Rightarrow> parse_arguments (v # ws) a
      | OptionBad \<Rightarrow> ParsedBad
      | OptionTaken a' \<Rightarrow> parse_arguments ws a')"

section \<open>The control socket\<close>

datatype lstat_answer = LstatError errno | LstatSocket | LstatOther

text \<open>\<open>se_connect\<close>: whether something accepts connections at the path.\<close>

record socket_env =
  se_lstat :: "bytes \<Rightarrow> lstat_answer"
  se_connect :: "bytes \<Rightarrow> bool result"
  se_unlink :: "bytes \<Rightarrow> errno option"
  se_socket :: "errno option"
  se_flags :: "errno option"
  se_bind :: "bytes \<Rightarrow> errno option"

definition make_control_socket_path :: "bytes option \<Rightarrow> 'v controller_state \<Rightarrow> bytes result" where
  "make_control_socket_path requested s =
     (case requested of
        Some p \<Rightarrow> if length p \<ge> PATH_MAX then Inl ENAMETOOLONG else Inr p
      | None \<Rightarrow> make_state_file_path (st_dir s) ''control.sock'')"

definition prepare_control_socket_path :: "socket_env \<Rightarrow> bytes \<Rightarrow> unit result" where
  "prepare_control_socket_path env path =
     (case se_lstat env path of
        LstatError e \<Rightarrow> if e = ENOENT then Inr () else Inl e
      | LstatOther \<Rightarrow> Inl EEXIST
      | LstatSocket \<Rightarrow>
          (case se_connect env path of
             Inl e \<Rightarrow> Inl e
           | Inr live \<Rightarrow>
               if live then Inl EADDRINUSE
               else case se_unlink env path of Some e \<Rightarrow> Inl e | None \<Rightarrow> Inr ()))"

definition open_control_socket :: "socket_env \<Rightarrow> bytes \<Rightarrow> unit result" where
  "open_control_socket env path =
     (if length path \<ge> 108 then Inl ENAMETOOLONG
      else rbind (prepare_control_socket_path env path) (\<lambda>_.
        case se_socket env of Some e \<Rightarrow> Inl e | None \<Rightarrow>
        (case se_flags env of Some e \<Rightarrow> Inl e | None \<Rightarrow>
        (case se_bind env path of Some e \<Rightarrow> Inl e | None \<Rightarrow> Inr ()))))"

section \<open>After the child\<close>

text \<open>Clients of a controller whose child has gone: no input is forwarded, and there is no terminal to resize.\<close>

definition polled_completed :: "client_round \<Rightarrow> control_client \<Rightarrow> client_round option" where
  "polled_completed r c =
     (if cc_kind c = ClientEmpty then None
      else Some (r\<lparr>cr_out := cr_out r \<and> pending c,
        cr_in := cr_in r \<and> cc_kind c = ClientReading \<and> cc_response_offset c = length (cc_response c)\<rparr>))"

definition serve_completed_client ::
    "'v control_context \<Rightarrow> client_round \<Rightarrow> control_client \<Rightarrow> 'v controller_state \<Rightarrow> 'v answered option" where
  "serve_completed_client hx r c s =
     (case client_output hx r c s of (c1, s1) \<Rightarrow>
        if cc_kind c1 = ClientEmpty then Some (Inr (), c1, s1)
        else
          map_option (\<lambda>(x, c2, s2). case x of Inl e \<Rightarrow> (Inl e, c2, s2) | Inr _ \<Rightarrow> Pair (Inr ()) (client_hangup hx r c2 s2))
            (client_input hx r c1 s1))"

fun serve_completed_clients ::
    "'v control_context \<Rightarrow> client_round option list \<Rightarrow> control_client list \<Rightarrow> 'v controller_state
     \<Rightarrow> (unit result \<times> control_client list \<times> 'v controller_state) option" where
  "serve_completed_clients hx (Some r # rs) (c # cs) s =
     (if cc_kind c = ClientEmpty then map_option (\<lambda>(x, cs', s'). (x, c # cs', s')) (serve_completed_clients hx rs cs s)
      else case serve_completed_client hx r c s of
        None \<Rightarrow> None
      | Some (Inl e, c1, s1) \<Rightarrow> Some (Inl e, c1 # cs, s1)
      | Some (Inr _, c1, s1) \<Rightarrow> map_option (\<lambda>(x, cs', s'). (x, c1 # cs', s')) (serve_completed_clients hx rs cs s1))"
| "serve_completed_clients hx (None # rs) (c # cs) s =
     map_option (\<lambda>(x, cs', s'). (x, c # cs', s')) (serve_completed_clients hx rs cs s)"
| "serve_completed_clients hx rs cs s = Some (Inr (), cs, s)"

definition retention_round ::
    "'v control_context \<Rightarrow> poll_round \<Rightarrow> control_client list \<Rightarrow> 'v controller_state
     \<Rightarrow> (unit result \<times> control_client list \<times> 'v controller_state) option" where
  "retention_round hx p cs s =
     (case pr_poll p of
        Some e \<Rightarrow> Some (if e = EINTR then Inr () else Inl e, cs, s)
      | None \<Rightarrow>
          (let rounds = map (\<lambda>(r, c). polled_completed r c) (zip (pr_clients p) cs);
               (cs1, s1) = reap_idle_control_clients hx cs s in
           if \<not> pr_ready p then Some (Inr (), cs1, s1)
           else case (case pr_accept p of None \<Rightarrow> (Inr (), cs1) | Some as \<Rightarrow> accept_control_clients hx as cs1) of
             (Inl e, cs2) \<Rightarrow> Some (Inl e, cs2, s1)
           | (Inr _, cs2) \<Rightarrow> serve_completed_clients hx rounds cs2 s1))"

text \<open>
  \<open>None\<close> in a round: the clock failed. The first component of the result: \<open>None\<close> while the time is not over,
  then whether the loop ended well.
\<close>

type_synonym 'v retained = "bool option \<times> control_client list \<times> 'v controller_state"

fun retention_loop ::
    "'v control_context \<Rightarrow> int \<Rightarrow> int \<Rightarrow> (int option \<times> 64 word \<times> poll_round) list \<Rightarrow> control_client list
     \<Rightarrow> 'v controller_state \<Rightarrow> 'v retained option" where
  "retention_loop hx retention start [] cs s = Some (None, cs, s)"
| "retention_loop hx retention start ((None, now, p) # ps) cs s = Some (Some False, close_all_control_clients hx cs s)"
| "retention_loop hx retention start ((Some clock, now, p) # ps) cs s =
     (if retention - (clock - start) \<le> 0 then Some (Some True, close_all_control_clients hx cs s)
      else case retention_round (hx\<lparr>hx_now := now\<rparr>) p cs s of
        None \<Rightarrow> None
      | Some (Inl e, cs1, s1) \<Rightarrow> Some (Some False, close_all_control_clients hx cs1 s1)
      | Some (Inr _, cs1, s1) \<Rightarrow> retention_loop hx retention start ps cs1 s1)"

definition completed_state :: "'v controller_state \<Rightarrow> 'v controller_state" where
  "completed_state s =
     s\<lparr>st_stdin_open := False, st_resizable := False, st_stderr_resizable := False, st_terminal_size := None\<rparr>"

definition completed_retention_loop ::
    "'v control_context \<Rightarrow> nat \<Rightarrow> int option \<Rightarrow> (int option \<times> 64 word \<times> poll_round) list \<Rightarrow> 'v controller_state
     \<Rightarrow> 'v retained option" where
  "completed_retention_loop hx retention clock ps s =
     (if retention = 0 then Some (Some True, [], s)
      else case clock of
        None \<Rightarrow> Some (Some False, [], s)
      | Some start \<Rightarrow>
          retention_loop (hx\<lparr>hx_completed := True\<rparr>) (int retention) start ps initialize_control_clients (completed_state s))"

section \<open>Running a child\<close>

text \<open>
  What the kernel answers to a controller: the pipes or terminals, the fork, the descriptors' flags, the
  identifier, the control socket, the rounds of both loops and the waits for the child.
\<close>

record launch =
  ln_descriptors :: "errno option"
  ln_fork :: "nat result"
  ln_nonblocking :: "errno option"
  ln_generated :: "bytes result"
  ln_socket :: socket_env
  ln_raw_mode :: "bool result"
  ln_window :: window_answer
  ln_rounds :: "(64 word \<times> poll_round) list"
  ln_wait :: "wait_outcome list"
  ln_clock :: "int option"
  ln_retention_rounds :: "(int option \<times> 64 word \<times> poll_round) list"
  ln_child_writes :: "write_outcome list"

definition set_debug_flags :: "debug_flags \<Rightarrow> 'v controller_state \<Rightarrow> 'v controller_state" where
  "set_debug_flags f s = (case f of (i, l, m) \<Rightarrow> s\<lparr>st_debug_input := i, st_debug_library := l, st_debug_terminal := m\<rparr>)"

text \<open>A controller that gives up: the child is told to end.\<close>

definition give_up :: "'v control_context \<Rightarrow> 'v controller_state \<Rightarrow> int option \<times> 'v controller_state" where
  "give_up hx s = (Some 1, snd (kill_group hx SIGTERM s))"

definition starting_loop :: "'v controller_state \<Rightarrow> 'v loop" where
  "starting_loop s =
     \<lparr>lp_clients = initialize_control_clients, lp_state = s, lp_local_input = False, lp_stdout_open = True,
      lp_stderr_open = True, lp_reaped = False, lp_result = 1\<rparr>"

definition give_up_waiting :: "'v control_context \<Rightarrow> wait_outcome list \<Rightarrow> 'v controller_state \<Rightarrow> int option \<times> 'v controller_state" where
  "give_up_waiting hx ws s = (Some 1, lp_state (snd (wait_for_child hx ws (starting_loop (snd (kill_group hx SIGTERM s))))))"

text \<open>
  The loops and the wait between them; the first component of the result is the status of the controller's
  exit, \<open>None\<close> while it runs.
\<close>

definition run_loops ::
    "'v control_context \<Rightarrow> launch \<Rightarrow> nat \<Rightarrow> 'v loop \<Rightarrow> (int option \<times> 'v controller_state) option" where
  "run_loops hx ln retention l =
     (case stream_event_loop hx (ln_rounds ln) l of
        None \<Rightarrow> None
      | Some (LoopRunning l1) \<Rightarrow> Some (None, lp_state l1)
      | Some (LoopFailed e l1) \<Rightarrow>
          (case wait_for_child hx (ln_wait ln) l1 of (result, l2) \<Rightarrow> Some (Some (if result = 0 then 1 else result), lp_state l2))
      | Some (LoopEnded l1) \<Rightarrow>
          (case wait_for_child hx (ln_wait ln) l1 of (result, l2) \<Rightarrow>
             map_option (\<lambda>(r, _, s). (map_option (\<lambda>ok. if \<not> ok \<and> result = 0 then 1 else result) r, s))
               (completed_retention_loop (hx\<lparr>hx_result := result\<rparr>) retention (ln_clock ln) (ln_retention_rounds ln) (lp_state l2))))"

text \<open>The state and the socket of a controller.\<close>

definition open_controller ::
    "'v control_context \<Rightarrow> launch \<Rightarrow> arguments \<Rightarrow> nat \<Rightarrow> bytes list \<Rightarrow> process_mode \<Rightarrow> (bytes \<Rightarrow> bytes option)
     \<Rightarrow> unit result \<times> 'v controller_state" where
  "open_controller hx ln a pid command mode files =
     (case initialize_controller_state (hx_env hx) (ln_generated ln) (ag_state_dir a) (ag_log_dir a) pid command mode
             (ag_stdin_eof a) files of
        (Inl e, s) \<Rightarrow> (Inl e, s)
      | (Inr _, s) \<Rightarrow>
          (let s1 = set_debug_flags (ag_debug a) s in
           (rbind (make_control_socket_path (ag_control_socket a) s1) (open_control_socket (ln_socket ln)), s1)))"

definition child_context :: "'v control_context \<Rightarrow> launch \<Rightarrow> 'v control_context" where
  "child_context hx ln = hx\<lparr>hx_pid := (case ln_fork ln of Inl _ \<Rightarrow> 0 | Inr pid \<Rightarrow> pid), hx_completed := False\<rparr>"

text \<open>Up to the loops: \<open>Inl\<close> for a controller that ends before them.\<close>

definition stream_start ::
    "'v control_context \<Rightarrow> launch \<Rightarrow> arguments \<Rightarrow> bytes list \<Rightarrow> (bytes \<Rightarrow> bytes option)
     \<Rightarrow> (int option \<times> 'v controller_state) + 'v loop" where
  "stream_start hx ln a command files =
     (let s0 = initialize_empty_controller_state files; hx' = child_context hx ln in
      if ln_descriptors ln \<noteq> None then Inl (Some 1, s0)
      else case ln_fork ln of
        Inl e \<Rightarrow> Inl (Some 1, s0)
      | Inr pid \<Rightarrow>
          if \<not> ag_stdin_eof a \<and> ln_nonblocking ln \<noteq> None then Inl (give_up hx' s0)
          else case open_controller hx' ln a pid command ModeStream files of
            (Inl e, s) \<Rightarrow> Inl (give_up_waiting hx' (ln_wait ln) s)
          | (Inr _, s) \<Rightarrow>
              Inr (starting_loop (s\<lparr>st_stdin_open := \<not> ag_stdin_eof a, st_child_writes := ln_child_writes ln\<rparr>)))"

definition run_stream ::
    "'v control_context \<Rightarrow> launch \<Rightarrow> arguments \<Rightarrow> bytes list \<Rightarrow> (bytes \<Rightarrow> bytes option)
     \<Rightarrow> (int option \<times> 'v controller_state) option" where
  "run_stream hx ln a command files =
     (case stream_start hx ln a command files of
        Inl r \<Rightarrow> Some r
      | Inr l \<Rightarrow> run_loops (child_context hx ln) ln (ag_retention a) l)"

text \<open>A terminal without a size yet, and what becomes of it when its model is there.\<close>

definition unsized_terminal :: "bool \<Rightarrow> 'v controller_state \<Rightarrow> 'v controller_state" where
  "unsized_terminal capture_stderr s =
     s\<lparr>st_resizable := True, st_stderr_resizable := capture_stderr,
       st_terminal_size := Some \<lparr>sz_rows = 0, sz_columns = 0, sz_known = False\<rparr>\<rparr>"

definition known_size :: "'v controller_state \<Rightarrow> nat \<times> nat" where
  "known_size s = (case st_terminal_size s of None \<Rightarrow> (24, 80) | Some t \<Rightarrow> if sz_known t then (sz_rows t, sz_columns t) else (24, 80))"

definition terminal_start ::
    "'v control_context \<Rightarrow> launch \<Rightarrow> arguments \<Rightarrow> bool \<Rightarrow> nat \<times> nat \<Rightarrow> 'v terminal_model \<Rightarrow> 'v controller_state
     \<Rightarrow> (int option \<times> 'v controller_state) + 'v loop" where
  "terminal_start hx ln a capture_stderr dims m s =
     (case checked_debug_event (hx_env hx) 160
             (''type=debug category=terminal event=model_initialized rows='' @ show_nat (fst dims)
              @ '' columns='' @ show_nat (snd dims))
             (s\<lparr>st_model := Some m, st_stdin_open := \<not> ag_stdin_eof a, st_child_writes := ln_child_writes ln\<rparr>) of
        (Inl e, s1) \<Rightarrow> Inl (give_up hx s1)
      | (Inr _, s1) \<Rightarrow>
          (case (if ag_stdin_eof a then Inr False else ln_raw_mode ln) of
             Inl e \<Rightarrow> Inl (give_up hx s1)
           | Inr raw \<Rightarrow> Inr ((starting_loop s1)\<lparr>lp_local_input := raw, lp_stderr_open := capture_stderr\<rparr>)))"

definition pty_start ::
    "'v control_context \<Rightarrow> launch \<Rightarrow> arguments \<Rightarrow> process_mode \<Rightarrow> bytes list \<Rightarrow> (bytes \<Rightarrow> bytes option)
     \<Rightarrow> ((int option \<times> 'v controller_state) + 'v loop) option" where
  "pty_start hx ln a mode command files =
     (let s0 = initialize_empty_controller_state files; capture_stderr = (mode = ModeTerm); hx' = child_context hx ln in
      if ln_descriptors ln \<noteq> None then Some (Inl (Some 1, s0))
      else case ln_fork ln of
        Inl e \<Rightarrow> Some (Inl (Some 1, s0))
      | Inr pid \<Rightarrow>
          if ln_nonblocking ln \<noteq> None then Some (Inl (give_up hx' s0))
          else case apply_terminal_window_size (hx_env hx') (ln_window ln) (unsized_terminal capture_stderr s0) of
            (Inl e, z) \<Rightarrow> Some (Inl (give_up hx' s0))
          | (Inr _, z) \<Rightarrow>
              (case open_controller hx' ln a pid command mode files of
                 (Inl e, s) \<Rightarrow> Some (Inl (give_up_waiting hx' (ln_wait ln) s))
               | (Inr _, s) \<Rightarrow>
                   (case cubicle_terminal_model_create (hx_vterm hx') (ce_alloc (hx_env hx')) (fst (known_size z)) (snd (known_size z)) of
                      None \<Rightarrow> None
                    | Some (Inl e) \<Rightarrow> Some (Inl (give_up hx' s))
                    | Some (Inr m) \<Rightarrow>
                        Some (terminal_start hx' ln a capture_stderr (known_size z) m
                          ((unsized_terminal capture_stderr s)\<lparr>st_terminal_size := st_terminal_size z, st_winsize := st_winsize z\<rparr>)))))"

definition run_pty_mode ::
    "'v control_context \<Rightarrow> launch \<Rightarrow> arguments \<Rightarrow> process_mode \<Rightarrow> bytes list \<Rightarrow> (bytes \<Rightarrow> bytes option)
     \<Rightarrow> (int option \<times> 'v controller_state) option" where
  "run_pty_mode hx ln a mode command files =
     (case pty_start hx ln a mode command files of
        None \<Rightarrow> None
      | Some (Inl r) \<Rightarrow> Some r
      | Some (Inr l) \<Rightarrow> run_loops (child_context hx ln) ln (ag_retention a) l)"

text \<open>The loop as either mode starts it.\<close>

definition controller_start ::
    "'v control_context \<Rightarrow> launch \<Rightarrow> arguments \<Rightarrow> process_mode \<Rightarrow> bytes list \<Rightarrow> (bytes \<Rightarrow> bytes option)
     \<Rightarrow> ((int option \<times> 'v controller_state) + 'v loop) option" where
  "controller_start hx ln a mode command files =
     (if mode = ModeStream then Some (stream_start hx ln a command files) else pty_start hx ln a mode command files)"

text \<open>The program; \<open>daemon\<close> is what detaching from the terminal gives.\<close>

definition controller_main ::
    "'v control_context \<Rightarrow> launch \<Rightarrow> unit result \<Rightarrow> bytes list \<Rightarrow> (bytes \<Rightarrow> bytes option) \<Rightarrow> (int option \<times> 'v controller_state) option" where
  "controller_main hx ln daemon words files =
     (let stop = (\<lambda>status. Some (Some status, initialize_empty_controller_state files)) in
      case parse_arguments words default_arguments of
        ParsedHelp \<Rightarrow> stop 0
      | ParsedBad \<Rightarrow> stop 2
      | Parsed a command \<Rightarrow>
          (case ag_mode a of
             None \<Rightarrow> stop 2
           | Some name \<Rightarrow>
               if command = [] then stop 2
               else case parse_mode name of
                 None \<Rightarrow> stop 2
               | Some mode \<Rightarrow>
                   if ag_daemon a \<and> daemon \<noteq> Inr () then stop 1
                   else if mode = ModeStream then run_stream hx ln a command files
                   else run_pty_mode hx ln a mode command files))"

end
