(* ===== verification/Controller_Output.thy ===== *)
theory Controller_Output
  imports Controller_Clients Controller_Run "HOL-Library.Code_Target_Nat"
begin

text \<open>
  What the controller does with the output of its child: every byte read is appended to the log of its
  stream and sent to the clients attached to it, in order, through every interleaving of requests,
  resizes, slow or closed clients and local input.
\<close>

section \<open>Output\<close>

lemma keeps_write_terminal_response [keeps_rules]:
  "keeps s s1 \<Longrightarrow> keeps s (snd (write_terminal_response_n env name resp s1))"
proof -
  assume k: "keeps s s1"
  obtain r s2 where w: "write_child resp s1 = (r, s2)" by fastforce
  obtain event debug where e: "write_terminal_response_n env name resp s1 =
      (if (case r of Inl e \<Rightarrow> e \<noteq> EAGAIN | Inr _ \<Rightarrow> False) then (r, s2)
       else if length event \<ge> 128 then (Inl ENAMETOOLONG, s2)
       else case append_event env event s2 of (Inl e, s3) \<Rightarrow> (Inl e, s3)
         | (Inr _, s3) \<Rightarrow> if length debug \<ge> 128 then (Inl ENAMETOOLONG, s3)
             else append_debug_event env (st_debug_terminal s3) debug s3)"
    by (simp only: write_terminal_response_n_def w Let_def prod.case)
  have k2: "keeps s s2" by (rule keeps_steps(4) [OF w k])
  obtain q s3 where a: "append_event env event s2 = (q, s3)" by fastforce
  have k3: "keeps s s3" by (rule keeps_steps(1) [OF a k2])
  show ?thesis unfolding e a using k2 k3 keeps_append_debug_event [OF k3] by (cases q) auto
qed

lemma keeps_write_responses: "write_responses env xs s1 = (r, s2) \<Longrightarrow> keeps s s1 \<Longrightarrow> keeps s s2"
proof (induction xs arbitrary: s1)
  case (Cons x xs)
  obtain q s3 where w: "write_terminal_response_n env (terminal_response_name x) x s1 = (q, s3)" by fastforce
  have "keeps s s3" using keeps_write_terminal_response [OF Cons.prems(2), of env "terminal_response_name x" x] w by simp
  then show ?case using Cons w by (auto split: sum.splits)
qed simp

lemma keeps_drain_loop: "drain_loop env m resp s1 = (r, s2) \<Longrightarrow> keeps s s1 \<Longrightarrow> keeps s s2"
proof (induction env m resp s1 rule: drain_loop.induct)
  case (1 env m resp s1)
  show ?case
  proof (cases "resp = []")
    case True
    then show ?thesis using 1 by (auto simp: drain_loop.simps)
  next
    case False
    obtain q s3 where w: "write_responses env (split_responses (take 512 resp)) s1 = (q, s3)" by fastforce
    have k: "keeps s s3" using keeps_write_responses [OF w "1.prems"(2)] .
    show ?thesis
    proof (cases q)
      case (Inl e)
      then show ?thesis using "1.prems" False w k by (auto simp: drain_loop.simps [of env m resp])
    next
      case (Inr u)
      then have "drain_loop env m (drop 512 resp) s3 = (r, s2)"
        using "1.prems" False w by (simp add: drain_loop.simps [of env m resp])
      then show ?thesis using "1.IH" [OF False w [symmetric] Inr] k by blast
    qed
  qed
qed

lemma keeps_drain [keeps_rules]: "drain_terminal_model_responses env s1 = (r, s2) \<Longrightarrow> keeps s s1 \<Longrightarrow> keeps s s2"
  by (auto simp: drain_terminal_model_responses_def split: option.splits if_splits intro: keeps_drain_loop)

lemma keeps_query_loop: "query_loop env data s1 = (r, s2) \<Longrightarrow> keeps s s1 \<Longrightarrow> keeps s s2"
proof (induction env data s1 rule: query_loop.induct)
  case (1 env data s1)
  show ?case
  proof (cases "data = []")
    case True
    then show ?thesis using 1 by (auto simp: query_loop.simps)
  next
    case False
    show ?thesis
    proof (cases "query_answer data")
      case None
      then have "query_loop env (drop 1 data) s1 = (r, s2)" using "1.prems" False by (simp add: query_loop.simps [of env data])
      then show ?thesis using "1.IH"(1) [OF False None] "1.prems"(2) by blast
    next
      case (Some a)
      then obtain n name resp where q: "query_answer data = Some (n, name, resp)" by (metis prod_cases3)
      obtain x s3 where w: "write_terminal_response_n env name resp s1 = (x, s3)" by fastforce
      have k: "keeps s s3" using keeps_write_terminal_response [OF "1.prems"(2), of env name resp] w by simp
      show ?thesis
      proof (cases x)
        case (Inl e)
        then show ?thesis using "1.prems" False q w k by (auto simp: query_loop.simps [of env data])
      next
        case (Inr u)
        then have "query_loop env (drop n data) s3 = (r, s2)" using "1.prems" False q w by (simp add: query_loop.simps [of env data])
        then show ?thesis using "1.IH"(2) [OF False q refl refl w [symmetric] Inr] k by blast
      qed
    qed
  qed
qed

lemma keeps_queries: "handle_unsupported_terminal_queries env data s1 = (r, s2) \<Longrightarrow> keeps s s1 \<Longrightarrow> keeps s s2"
  by (auto simp: handle_unsupported_terminal_queries_def split: if_splits intro: keeps_query_loop)

lemma keeps_feed_model: "feed_model hx data s1 = Some s2 \<Longrightarrow> keeps s s1 \<Longrightarrow> keeps s s2"
  by (auto simp: feed_model_def split: option.splits)

lemma keeps_update_terminal:
  assumes "update_terminal hx li start data s1 = Some (r, s2)" "keeps s s1"
  shows "keeps s s2"
proof (cases "st_model s1 = None")
  case True
  then show ?thesis using assms by (simp add: update_terminal_def)
next
  case False
  then obtain s3 where f: "feed_model hx data s1 = Some s3" using assms(1) by (auto simp: update_terminal_def)
  have k3: "keeps s s3" by (rule keeps_feed_model [OF f assms(2)])
  obtain q s4 where d: "(if li then (Inr (), s3) else drain_terminal_model_responses (hx_env hx) s3) = (q, s4)" by fastforce
  have k4: "keeps s s4" using d k3 keeps_drain by (auto split: if_splits)
  obtain t where "update_terminal hx li start data s1 = Some (case q of Inl e \<Rightarrow> (Inl e, s4)
      | Inr _ \<Rightarrow> case checked_debug_event (hx_env hx) 192 t s4 of (Inl e, s5) \<Rightarrow> (Inl e, s5)
          | (Inr _, s5) \<Rightarrow> if li then (Inr (), s5) else handle_unsupported_terminal_queries (hx_env hx) data s5)"
    using False by (cases q) (simp_all only: update_terminal_def f d if_False option.map prod.case sum.case)
  moreover obtain q' s5 where c: "checked_debug_event (hx_env hx) 192 t s4 = (q', s5)" by fastforce
  moreover have k5: "keeps s s5" by (rule keeps_steps(3) [OF c k4])
  ultimately show ?thesis using assms(1) k4 keeps_queries [OF sym k5] by (auto split: sum.splits if_splits)
qed

lemma persist_output_ok:
  assumes "persist_output env err data s = (Inr u, s')" "logs_ok s"
  shows "logs_ok s'" "log_content err s' = log_content err s @ data" "log_content (\<not> err) s' = log_content (\<not> err) s"
proof -
  have p: "\<exists>path. stream_fd e s = Some path \<and> make_log_file_path s (log_name e) = Inr path \<and> st_files s path \<noteq> None
        \<and> st_events_fd s \<noteq> Some path \<and> stream_offset e s = int (length (log_content e s))" for e
    using assms(2) unfolding logs_ok_def by blast
  obtain path where path: "stream_fd err s = Some path" "st_files s path \<noteq> None" "stream_offset err s = int (length (log_content err s))"
    using p by blast
  obtain other where other: "stream_fd (\<not> err) s = Some other" using p by blast
  have ne: "other \<noteq> path" using assms(2) path(1) other by (cases err) (auto simp: logs_ok_def stream_fd_def)
  obtain written r ws where w: "cubicle_write_all (ce_log_write env (stream_offset err s)) data = (written, r, ws)"
    by (metis prod_cases3)
  then have "r = Inr ()" "written = data"
    using assms(1) path(1) write_all_cases [OF w] by (auto simp: persist_output_def Let_def split: sum.splits)
  then have s': "s' = (if err then (append_file path data s)\<lparr>st_stderr_offset := st_stderr_offset s + int (length data)\<rparr>
      else (append_file path data s)\<lparr>st_stdout_offset := st_stdout_offset s + int (length data)\<rparr>)"
    using assms(1) path(1) w by (cases err) (auto simp: persist_output_def Let_def append_file_def)
  have f: "stream_fd e s' = stream_fd e s" "st_events_fd s' = st_events_fd s" "make_log_file_path s' n = make_log_file_path s n"
    "st_stdout_fd s' = st_stdout_fd s" "st_stderr_fd s' = st_stderr_fd s" for e n
    by (cases err; simp add: s' append_file_def stream_fd_def make_log_file_path_def)+
  have files: "st_files s' = (st_files s)(path \<mapsto> (case st_files s path of None \<Rightarrow> [] | Some c \<Rightarrow> c) @ data)"
    by (cases err; simp add: s' append_file_def)
  have off: "stream_offset e s' = (if e = err then stream_offset e s + int (length data) else stream_offset e s)" for e
    by (cases err; cases e; simp add: s' append_file_def stream_offset_def)
  show c: "log_content err s' = log_content err s @ data" using path(1,2) by (auto simp: log_content_def f files)
  show o: "log_content (\<not> err) s' = log_content (\<not> err) s" using other ne by (simp add: log_content_def f files)
  have "\<exists>path. stream_fd e s' = Some path \<and> make_log_file_path s' (log_name e) = Inr path \<and> st_files s' path \<noteq> None
        \<and> st_events_fd s' \<noteq> Some path \<and> stream_offset e s' = int (length (log_content e s'))" for e
  proof -
    have "stream_offset e s' = int (length (log_content e s'))"
      using p [of e] c o by (cases "e = err") (auto simp: off)
    moreover have "st_files s x \<noteq> None \<Longrightarrow> st_files s' x \<noteq> None" for x by (simp add: files)
    ultimately show ?thesis using p [of e] unfolding f by blast
  qed
  moreover have "st_stdout_fd s' \<noteq> st_stderr_fd s'" using assms(2) by (simp add: logs_ok_def f)
  ultimately show "logs_ok s'" unfolding logs_ok_def by blast
qed

text \<open>The state before a piece of output and one after it was logged.\<close>

definition longer :: "bool \<Rightarrow> bytes \<Rightarrow> 'v controller_state \<Rightarrow> 'v controller_state \<Rightarrow> bool" where
  "longer err data s s' \<longleftrightarrow> logs_ok s' \<and> log_content err s' = log_content err s @ data
     \<and> log_content (\<not> err) s' = log_content (\<not> err) s"

lemma keeps_longer: "longer err data s s1 \<Longrightarrow> keeps s1 s2 \<Longrightarrow> longer err data s s2"
  using keeps_log_content [of s1 s2] keeps_logs_ok [of s1 s2] by (simp add: longer_def)

definition attached_kind :: "bool \<Rightarrow> control_client_kind" where
  "attached_kind err = (if err then ClientAttachedStderr else ClientAttachedStdout)"

lemma client_ok_attached:
  "client_ok s c \<longleftrightarrow> buffers_ok c
     \<and> (cc_kind c = ClientReading \<and> \<not> cc_framed_request c \<longrightarrow> cc_response c = [] \<and> cc_sent c = [])
     \<and> (\<forall>err. cc_kind c = attached_kind err \<longrightarrow> attached err s c)"
proof -
  have "(\<forall>err. P err) \<longleftrightarrow> P False \<and> P True" for P :: "bool \<Rightarrow> bool" by (metis (full_types))
  then show ?thesis by (auto simp: client_ok_def attached_kind_def)
qed

lemma broadcast_other_ok:
  assumes "client_ok s c" "longer err data s s'" "cc_kind c \<noteq> attached_kind err"
  shows "client_ok s' c"
proof -
  have "attached e s' c" if "cc_kind c = attached_kind e" for e
  proof -
    have "e = (\<not> err)" using that assms(3) by (cases e; cases err) auto
    moreover have "attached e s c" using assms(1) that by (simp add: client_ok_attached)
    ultimately show ?thesis using assms(2) by (simp add: attached_def longer_def)
  qed
  then show ?thesis using assms(1) by (simp add: client_ok_attached)
qed

lemma broadcast_attached_ok:
  assumes "client_ok s c" "longer err data s s'" "cc_kind c = attached_kind err" "enqueue_response hx data c = (Inr u, c')"
  shows "client_ok s' c'"
proof -
  have g: "grows c c'" by (rule enqueue_response_grows [OF assms(4) grows_refl])
  have k: "cc_kind c' = attached_kind err" using enqueue_response_appends [OF assms(4)] assms(3) by simp
  have "cc_response_offset c \<le> length (cc_response c)" using assms(1) by (simp add: client_ok_def buffers_ok_def)
  then have "delivered c' = delivered c @ data" using enqueue_response_appends [OF assms(4)] g by (simp add: delivered_def grows_def)
  moreover have "attached err s c" using assms(1,3) by (simp add: client_ok_attached)
  then obtain stream start n where "stream_file_name stream = Some (log_name err)" "0 \<le> start" "0 \<le> n" "n \<le> 65536"
    "start + n \<le> int (length (log_content err s))" "delivered c = attach_header stream start n @ drop (nat start) (log_content err s)"
    unfolding attached_def by blast
  ultimately have a: "attached err s' c'" using assms(2) unfolding attached_def longer_def
    by (intro exI [of _ stream] exI [of _ start] exI [of _ n]) simp
  have "e = err" if "attached_kind err = attached_kind e" for e using that by (cases e; cases err) (auto simp: attached_kind_def)
  moreover have "attached_kind err \<noteq> ClientReading" by (simp add: attached_kind_def)
  ultimately show ?thesis using a k g assms(1) by (auto simp: client_ok_attached grows_def)
qed

lemma broadcast_ok:
  assumes "clients_ok s cs" "longer err data s s1" "broadcast_attached_output hx (stream_name err) data cs s1 = (cs', s2)"
  shows "clients_ok s2 cs' \<and> length cs' = length cs"
  using assms
proof (induction cs arbitrary: s1 cs')
  case (Cons c cs)
  let ?x = "if cc_kind c \<noteq> attached_kind err then (c, s1) else case enqueue_response hx data c of
      (Inl _, c1) \<Rightarrow> close_control_client hx c1 s1 | (Inr _, c1) \<Rightarrow> (c1, s1)"
  obtain c1 s3 where x: "?x = (c1, s3)" by fastforce
  have nm: "(if stream_name err = ''stdout'' then ClientAttachedStdout else ClientAttachedStderr) = attached_kind err"
    by (simp add: stream_name_def attached_kind_def)
  obtain cs'' where m: "broadcast_attached_output hx (stream_name err) data cs s3 = (cs'', s2)" "cs' = c1 # cs''"
    using Cons.prems(3) x nm by (auto simp: Let_def split: prod.splits)
  have k: "keeps s1 s3" using x by (auto split: if_splits prod.splits sum.splits elim: keeps_steps(7))
  have l3: "longer err data s s3" by (rule keeps_longer [OF Cons.prems(2) k])
  have cok: "client_ok s c" using Cons.prems(1) by (simp add: clients_ok_def)
  have c1: "client_ok s3 c1"
  proof (cases "cc_kind c = attached_kind err")
    case True
    obtain q c2 where q: "enqueue_response hx data c = (q, c2)" by fastforce
    show ?thesis
    proof (cases q)
      case (Inr u)
      then show ?thesis using broadcast_attached_ok [OF cok Cons.prems(2) True] q x True by auto
    qed (use q x True close_client_ok in auto)
  next
    case False
    then show ?thesis using broadcast_other_ok [OF cok Cons.prems(2)] x by auto
  qed
  have "keeps s3 s2" using keeps_broadcast [OF keeps_refl, of s3 hx "stream_name err" data cs] m(1) by simp
  then have "client_ok s2 c1" using keeps_client_ok l3 c1 by (auto simp: longer_def)
  then show ?case using Cons.IH [OF _ l3 m(1)] Cons.prems(1) m(2) by (simp add: clients_ok_def)
qed (simp add: clients_ok_def)

section \<open>Rounds of the loop\<close>

definition loop_ok :: "'v loop \<Rightarrow> bool" where
  "loop_ok l \<longleftrightarrow> logs_ok (lp_state l) \<and> clients_ok (lp_state l) (lp_clients l) \<and> length (lp_clients l) = CUBICLE_MAX_CONTROL_CLIENTS"

lemma keeps_sync:
  assumes "sync_local_terminal_window_size hx w s1 = Some (r, s2)" "keeps s s1"
  shows "keeps s s2"
proof -
  obtain q s3 where a: "apply_terminal_window_size (hx_env hx) w s1 = (q, s3)" by fastforce
  have k: "keeps s s3" using a assms(2)
    by (auto simp: apply_terminal_window_size_def split: window_answer.splits if_splits prod.splits sum.splits
        intro!: keeps_set_terminal_size elim: keeps_steps(5))
  have m: "keeps s s2" if "map_option (\<lambda>(r, s4). case r of Inl e \<Rightarrow> (Inl e, s4)
      | Inr _ \<Rightarrow> checked_debug_event (hx_env hx) 160 (resize_text ''applied'' s4) s4) (resize_model hx i j s3) = Some (r, s2)" for i j
  proof -
    note y = that
    obtain x s4 where x: "resize_model hx i j s3 = Some (x, s4)" using y by (cases "resize_model hx i j s3") auto
    show ?thesis using y x keeps_steps(3) [OF _ keeps_resize_model [OF x k]] keeps_resize_model [OF x k] by (cases x) auto
  qed
  show ?thesis
  proof (cases q)
    case (Inr b)
    then show ?thesis
      using assms a k m keeps_steps(3) [OF _ k]
      by (cases b; cases "st_terminal_size s3") (auto simp: sync_local_terminal_window_size_def split: if_splits simp del: map_option_eq_Some)
  qed (use assms a k in \<open>auto simp: sync_local_terminal_window_size_def split: if_splits\<close>)
qed

text \<open>Steps that touch neither the clients nor the logs.\<close>

definition quiet :: "'v loop \<Rightarrow> 'v loop \<Rightarrow> bool" where
  "quiet l l' \<longleftrightarrow> keeps (lp_state l) (lp_state l') \<and> lp_clients l' = lp_clients l
     \<and> lp_stdout_open l' = lp_stdout_open l \<and> lp_stderr_open l' = lp_stderr_open l"

lemma quiet_simps [simp]:
  "quiet l l" "quiet l (l1\<lparr>lp_local_input := b\<rparr>) = quiet l l1" "quiet l (l1\<lparr>lp_reaped := b\<rparr>) = quiet l l1"
  "quiet l (l1\<lparr>lp_result := n\<rparr>) = quiet l l1" "quiet l (l\<lparr>lp_state := s\<rparr>) = keeps (lp_state l) s"
  by (simp_all add: quiet_def)

lemma quiet_trans: "quiet l l1 \<Longrightarrow> quiet l1 l2 \<Longrightarrow> quiet l l2"
  by (auto simp: quiet_def intro: keeps_trans)

lemma quiet_log: "quiet l l1 \<Longrightarrow> quiet l (l1\<lparr>lp_local_input := b, lp_state := log_event hx t (lp_state l1)\<rparr>)"
  by (simp add: quiet_def keeps_log_event)

lemma quiet_ok: "quiet l l' \<Longrightarrow> loop_ok l \<Longrightarrow> loop_ok l'"
  using keeps_logs_ok [of "lp_state l" "lp_state l'"] keeps_clients_ok [of "lp_state l" "lp_state l'"]
  by (simp add: loop_ok_def quiet_def)

lemma quiet_reap_child: "reap_child_nonblocking hx ws l = (r, l') \<Longrightarrow> quiet l l'"
proof (induction hx ws l rule: reap_child_nonblocking.induct)
  case (2 hx w ws l)
  have "keeps (lp_state l) (record_child_exit hx st (lp_state l))" for st
    by (cases st) (auto intro: keeps_log_event)
  then have "quiet l (l\<lparr>lp_reaped := True, lp_result := n, lp_state := record_child_exit hx st (lp_state l)\<rparr>)" for st n
    by (simp add: quiet_def)
  then show ?case using 2 by (auto split: wait_outcome.splits if_splits)
qed simp

lemma quiet_local_data:
  assumes "map_option (\<lambda>(x, s2). case x of Inl e \<Rightarrow> (Inl e, l\<lparr>lp_state := s2\<rparr>)
       | Inr _ \<Rightarrow> (Inr (), l\<lparr>lp_state := snd (append_input_event env src d s2)\<rparr>)) (sync_local_terminal_window_size hx w s1) = Some (Inr u, l')"
    and "keeps (lp_state l) s1"
  shows "quiet l l'"
proof -
  obtain x s2 where x: "sync_local_terminal_window_size hx w s1 = Some (x, s2)"
    using assms(1) by (cases "sync_local_terminal_window_size hx w s1") auto
  have "keeps (lp_state l) (snd (append_input_event env src d s2))"
    by (rule keeps_append_input_event [OF keeps_sync [OF x assms(2)]])
  then show ?thesis using assms(1) x by (cases x) auto
qed

lemma quiet_local_input:
  assumes "serve_local_input hx p l = Some (Inr u, l')"
  shows "quiet l l'"
proof (cases "lp_local_input l \<and> st_stdin_open (lp_state l)")
  case True
  define x where "x = (case pr_local p of None \<Rightarrow> Some (Inr (), l)
    | Some (RError e) \<Rightarrow> Some (if e = EINTR then Inr () else Inl e, l)
    | Some REof \<Rightarrow> Some (Inr (), l\<lparr>lp_local_input := False, lp_state := log_event hx ''type=local_input_closed reason=eof'' (lp_state l)\<rparr>)
    | Some (RData d) \<Rightarrow> (case write_child (take 1024 d) (lp_state l) of (r, s1) \<Rightarrow>
        if (case r of Inl e \<Rightarrow> e \<noteq> EAGAIN | Inr _ \<Rightarrow> False) then Some (r, l\<lparr>lp_state := s1\<rparr>)
        else map_option (\<lambda>(x, s2). case x of Inl e \<Rightarrow> (Inl e, l\<lparr>lp_state := s2\<rparr>)
            | Inr _ \<Rightarrow> (Inr (), l\<lparr>lp_state := snd (append_input_event (hx_env hx) ''local'' (take 1024 d) s2)\<rparr>))
            (sync_local_terminal_window_size hx (pr_local_window p) s1)))"
  define t where "t = ''type=local_input_closed reason=hup''"
  have e: "serve_local_input hx p l = map_option (\<lambda>(r, l1). case r of Inl e \<Rightarrow> (Inl e, l1)
     | Inr _ \<Rightarrow> (Inr (), if pr_local_hup p then l1\<lparr>lp_local_input := False, lp_state := log_event hx t (lp_state l1)\<rparr> else l1)) x"
    using True by (simp only: serve_local_input_def x_def t_def Let_def simp_thms if_False)
  obtain q l1 where q: "x = Some (q, l1)" using assms(1) e by (cases x) auto
  then have r: "q = Inr ()" "l' = (if pr_local_hup p then l1\<lparr>lp_local_input := False, lp_state := log_event hx t (lp_state l1)\<rparr> else l1)"
    using assms(1) e by (cases q; auto)+
  have "quiet l l1"
  proof (cases "pr_local p")
    case None
    then show ?thesis using q r by (simp add: x_def)
  next
    case (Some z)
    show ?thesis
    proof (cases z)
      case (RData d)
      obtain y s1 where w: "write_child (take 1024 d) (lp_state l) = (y, s1)" by fastforce
      have "\<not> (case y of Inl e \<Rightarrow> e \<noteq> EAGAIN | Inr _ \<Rightarrow> False)"
        using q r(1) Some RData w by (cases y) (auto simp: x_def split: if_splits)
      then show ?thesis
        using quiet_local_data [OF _ keeps_steps(4) [OF w keeps_refl]] q r(1) Some RData w
        by (simp add: x_def del: map_option_eq_Some)
    qed (use q r(1) Some in \<open>auto simp: x_def quiet_log split: if_splits\<close>)
  qed
  then show ?thesis using r(2) by (simp add: quiet_log)
qed (use assms in \<open>auto simp: serve_local_input_def\<close>)

text \<open>The pieces of a round.\<close>

lemma serve_round_cases [consumes 1, case_names idle served]:
  assumes "serve_round hx p rounds l = Some (Inr u, l')"
  obtains (idle) cs s where "reap_idle_control_clients hx (lp_clients l) (lp_state l) = (cs, s)" "\<not> pr_ready p"
      "l' = l\<lparr>lp_clients := cs, lp_state := s\<rparr>"
    | (served) cs s cs1 l3 cs2 s2 l5 where
      "reap_idle_control_clients hx (lp_clients l) (lp_state l) = (cs, s)" "pr_ready p"
      "(case pr_accept p of None \<Rightarrow> (Inr (), cs) | Some as \<Rightarrow> accept_control_clients hx as cs) = (Inr (), cs1)"
      "serve_local_input hx p (l\<lparr>lp_clients := cs1, lp_state := s\<rparr>) = Some (Inr (), l3)"
      "serve_clients (hx\<lparr>hx_result := lp_result l3\<rparr>) rounds (lp_clients l3) (lp_state l3) = Some (Inr (), cs2, s2)"
      "serve_stream hx False (pr_stdout p) (pr_stdout_echo p) (l3\<lparr>lp_clients := cs2, lp_state := s2\<rparr>) = Some (Inr (), l5)"
      "serve_stream hx True (pr_stderr p) (pr_stderr_echo p) l5 = Some (Inr u, l')"
proof -
  obtain cs s where r: "reap_idle_control_clients hx (lp_clients l) (lp_state l) = (cs, s)" by fastforce
  show ?thesis
  proof (cases "pr_ready p")
    case False
    then show ?thesis using idle [OF r] assms r by (simp add: serve_round_def)
  next
    case True
    obtain x cs1 where a: "(case pr_accept p of None \<Rightarrow> (Inr (), cs) | Some as \<Rightarrow> accept_control_clients hx as cs) = (x, cs1)"
      by fastforce
    then have x: "x = Inr ()" using assms r True by (cases x) (auto simp: serve_round_def)
    obtain l3 where i: "serve_local_input hx p (l\<lparr>lp_clients := cs1, lp_state := s\<rparr>) = Some (Inr (), l3)"
      using assms r True a x by (auto simp: serve_round_def split: sum.splits option.splits)
    obtain cs2 s2 where v: "serve_clients (hx\<lparr>hx_result := lp_result l3\<rparr>) rounds (lp_clients l3) (lp_state l3) = Some (Inr (), cs2, s2)"
      using assms r True a x i by (auto simp: serve_round_def split: sum.splits option.splits)
    obtain l5 where o: "serve_stream hx False (pr_stdout p) (pr_stdout_echo p) (l3\<lparr>lp_clients := cs2, lp_state := s2\<rparr>) = Some (Inr (), l5)"
      "serve_stream hx True (pr_stderr p) (pr_stderr_echo p) l5 = Some (Inr u, l')"
      using assms r True a x i v by (auto simp: serve_round_def split: sum.splits option.splits)
    show ?thesis using served [OF r True _ i v o] a x by simp
  qed
qed

text \<open>What a round reads of a stream.\<close>

definition stream_read :: "bool \<Rightarrow> poll_round \<Rightarrow> read_outcome option" where
  "stream_read err p = (if pr_poll p = None \<and> pr_ready p then if err then pr_stderr p else pr_stdout p else None)"

definition read_bytes :: "read_outcome option \<Rightarrow> bytes" where
  "read_bytes r = (case r of Some (RData d) \<Rightarrow> take 4096 d | _ \<Rightarrow> [])"

definition read_closes :: "read_outcome option \<Rightarrow> bool" where
  "read_closes r \<longleftrightarrow> (case r of Some REof \<Rightarrow> True | Some (RError e) \<Rightarrow> e = EIO | _ \<Rightarrow> False)"

text \<open>A step that appends \<open>data\<close> to a log, tells the clients, and leaves the other stream alone.\<close>

definition logs :: "bool \<Rightarrow> bytes \<Rightarrow> bool \<Rightarrow> 'v loop \<Rightarrow> 'v loop \<Rightarrow> bool" where
  "logs err data closes l l' \<longleftrightarrow> loop_ok l'
     \<and> log_content err (lp_state l') = log_content err (lp_state l) @ data \<and> stream_open err l' = (stream_open err l \<and> \<not> closes)
     \<and> log_content (\<not> err) (lp_state l') = log_content (\<not> err) (lp_state l) \<and> stream_open (\<not> err) l' = stream_open (\<not> err) l"

lemma copy_output_logs:
  assumes "copy_output hx err echo data l = Some (Inr u, l')" "loop_ok l"
  shows "logs err data False l l'"
proof -
  let ?s = "lp_state l"
  let ?t = "\<lambda>s1. if err then Some (Inr (), s1) else update_terminal hx (lp_local_input l) (stream_offset err ?s) data s1"
  obtain w ws where w: "cubicle_write_all echo data = (w, Inr (), ws)"
    using assms(1) by (auto simp: copy_output_def split: prod.splits sum.splits)
  obtain s1 where p: "persist_output (hx_env hx) err data ?s = (Inr (), s1)"
    using assms(1) w by (auto simp: copy_output_def Let_def split: prod.splits sum.splits)
  have l1: "longer err data ?s s1" using persist_output_ok [OF p] assms(2) by (simp add: longer_def loop_ok_def)
  obtain e where m: "copy_output hx err echo data l = map_option (\<lambda>(r, s2). case r of Inl e \<Rightarrow> (Inl e, l\<lparr>lp_state := s2\<rparr>)
      | Inr _ \<Rightarrow> (case checked_event (hx_env hx) 256 e s2 of (Inl e, s3) \<Rightarrow> (Inl e, l\<lparr>lp_state := s3\<rparr>)
         | (Inr _, s3) \<Rightarrow> (case broadcast_attached_output hx (stream_name err) data (lp_clients l) s3 of
              (cs, s4) \<Rightarrow> (Inr (), l\<lparr>lp_clients := cs, lp_state := s4\<rparr>)))) (?t s1)"
    by (simp only: copy_output_def w p Let_def prod.case sum.case)
  obtain q s2 where t: "?t s1 = Some (q, s2)" using assms(1) m by (cases "?t s1") auto
  obtain x s3 where c: "checked_event (hx_env hx) 256 e s2 = (x, s3)" by fastforce
  obtain cs s4 where b: "broadcast_attached_output hx (stream_name err) data (lp_clients l) s3 = (cs, s4)" by fastforce
  have "q = Inr ()" using assms(1) m t by (cases q) auto
  then have r: "x = Inr ()" using assms(1) m t c by (cases x) auto
  then have l': "l' = l\<lparr>lp_clients := cs, lp_state := s4\<rparr>" using assms(1) m t c b \<open>q = Inr ()\<close> by simp
  have k2: "keeps s1 s2" using t keeps_update_terminal [OF _ keeps_refl] by (auto split: if_splits)
  have l3: "longer err data ?s s3" by (rule keeps_longer [OF l1 keeps_steps(2) [OF c k2]])
  have "keeps s3 s4" using keeps_broadcast [OF keeps_refl, of s3 hx "stream_name err" data "lp_clients l"] b by simp
  then have l4: "longer err data ?s s4" using keeps_longer [OF l3] by blast
  then have "loop_ok l'" using broadcast_ok [OF _ l3 b] assms(2) l' by (simp add: loop_ok_def longer_def)
  then show ?thesis using l4 by (auto simp: logs_def longer_def l' stream_open_def)
qed

lemma serve_stream_logs:
  assumes "serve_stream hx err r echo l = Some (Inr u, l')" "loop_ok l"
  shows "logs err (if stream_open err l then read_bytes r else []) (read_closes r) l l'"
proof -
  have c: "logs err [] True l (close_stream err l)" using assms(2)
    by (cases err) (auto simp: logs_def close_stream_def loop_ok_def stream_open_def)
  have i: "logs err [] False l l" using assms(2) by (simp add: logs_def)
  show ?thesis
  proof (cases "stream_open err l")
    case True
    then show ?thesis using assms c i copy_output_logs [OF _ assms(2)]
      by (auto simp: serve_stream_def read_bytes_def read_closes_def split: if_splits option.splits read_outcome.splits)
  next
    case False
    then show ?thesis using assms by (simp add: serve_stream_def logs_def)
  qed
qed

text \<open>What a round does to both streams.\<close>

definition advances :: "poll_round \<Rightarrow> 'v loop \<Rightarrow> 'v loop \<Rightarrow> bool" where
  "advances p l l' \<longleftrightarrow> loop_ok l' \<and> (\<forall>err.
     log_content err (lp_state l') = log_content err (lp_state l) @ (if stream_open err l then read_bytes (stream_read err p) else [])
     \<and> stream_open err l' = (stream_open err l \<and> \<not> read_closes (stream_read err p)))"

lemma quiet_logs:
  assumes "quiet l l'" "loop_ok l"
  shows "log_content err (lp_state l') = log_content err (lp_state l)" "stream_open err l' = stream_open err l"
  using assms keeps_log_content [of "lp_state l" "lp_state l'"] by (auto simp: quiet_def loop_ok_def stream_open_def)

lemma serve_round_advances:
  assumes "serve_round hx p rounds l = Some (Inr u, l')" "loop_ok l" "pr_poll p = None"
  shows "advances p l l'"
  using assms(1)
proof (cases rule: serve_round_cases)
  case (idle cs s)
  have k: "keeps (lp_state l) s" using keeps_reap [OF keeps_refl, of "lp_state l" hx "lp_clients l"] idle(1) by simp
  have q: "quiet l (l\<lparr>lp_state := s\<rparr>)" using k by simp
  have "loop_ok l'" using reap_ok [OF idle(1), of s] quiet_ok [OF q assms(2)] by (simp add: loop_ok_def idle(3))
  then show ?thesis using quiet_logs [OF q assms(2)] idle(2)
    by (simp add: advances_def idle(3) stream_read_def read_bytes_def read_closes_def stream_open_def)
next
  case (served cs s cs1 l3 cs2 s2 l5)
  have k: "keeps (lp_state l) s" using keeps_reap [OF keeps_refl, of "lp_state l" hx "lp_clients l"] served(1) by simp
  let ?l1 = "l\<lparr>lp_state := s\<rparr>" and ?l2 = "l\<lparr>lp_clients := cs1, lp_state := s\<rparr>" and ?l4 = "l3\<lparr>lp_clients := cs2, lp_state := s2\<rparr>"
  have q: "quiet l ?l1" using k by simp
  have "clients_ok s cs \<and> length cs = length (lp_clients l)" using reap_ok [OF served(1), of s] quiet_ok [OF q assms(2)] by (simp add: loop_ok_def)
  then have o2: "loop_ok ?l2" using served(3) accept_ok quiet_ok [OF q assms(2)] by (fastforce simp: loop_ok_def split: option.splits)
  have o3: "loop_ok l3" by (rule quiet_ok [OF quiet_local_input [OF served(4)] o2])
  have k4: "keeps (lp_state l3) s2" by (rule keeps_serve_clients [OF served(5)])
  have o4: "loop_ok ?l4" using serve_clients_ok [OF served(5)] keeps_logs_ok [OF k4] o3 by (simp add: loop_ok_def)
  have s4: "log_content e s2 = log_content e (lp_state l)" "stream_open e ?l4 = stream_open e l" for e
    using quiet_logs [OF q assms(2), of e] quiet_logs [OF quiet_local_input [OF served(4)] o2, of e] keeps_log_content [OF k4] o3
    by (cases e; simp add: loop_ok_def stream_open_def)+
  note out = serve_stream_logs [OF served(6) o4]
  have "loop_ok l5" using out by (simp add: logs_def)
  note err = serve_stream_logs [OF served(7) this]
  have "log_content e (lp_state l') = log_content e (lp_state l) @ (if stream_open e l then read_bytes (stream_read e p) else [])
     \<and> stream_open e l' = (stream_open e l \<and> \<not> read_closes (stream_read e p))" for e
    using out err s4 served(2) assms(3) by (cases e) (simp_all add: logs_def stream_read_def)
  then show ?thesis using err by (simp add: advances_def logs_def)
qed

lemma loop_round_advances:
  assumes "loop_round hx p l = Some (Inr u, l')" "loop_ok l"
  shows "advances p l l'"
proof -
  obtain l1 where r: "reap_child_nonblocking hx (pr_wait p) l = (Inr (), l1)"
    using assms(1) by (auto simp: loop_round_def split: prod.splits sum.splits)
  have q1: "quiet l l1" by (rule quiet_reap_child [OF r])
  show ?thesis
  proof (cases "loop_finished l1")
    case True
    then have c: "\<not> stream_open e l1" for e by (simp add: loop_finished_def stream_open_def)
    have "l' = l1" using assms(1) r True by (simp add: loop_round_def)
    then show ?thesis using c quiet_logs [OF q1 assms(2)] quiet_ok [OF q1 assms(2)] by (simp add: advances_def)
  next
    case False
    obtain s where s: "(if st_resizable (lp_state l1) \<and> pr_resize_pending p
        then sync_local_terminal_window_size hx (pr_window p) (lp_state l1) else Some (Inr (), lp_state l1)) = Some (Inr (), s)"
      using assms(1) r False by (auto simp: loop_round_def split: prod.splits sum.splits option.splits)
    have "keeps (lp_state l1) s" using s keeps_sync [OF _ keeps_refl] by (auto split: if_splits)
    then have q: "quiet l (l1\<lparr>lp_state := s\<rparr>)" using quiet_trans [OF q1] by simp
    note ok = quiet_ok [OF q assms(2)] and same = quiet_logs [OF q assms(2)]
    show ?thesis
    proof (cases "pr_poll p")
      case None
      then have "advances p (l1\<lparr>lp_state := s\<rparr>) l'"
        using assms(1) r False s serve_round_advances [OF _ ok None] by (auto simp: loop_round_def Let_def split: if_splits)
      then show ?thesis using same by (simp add: advances_def)
    next
      case (Some e)
      then have "l' = l1\<lparr>lp_state := s\<rparr>" using assms(1) r False s by (simp add: loop_round_def Let_def split: if_splits)
      then show ?thesis using ok same Some by (simp add: advances_def stream_read_def read_bytes_def read_closes_def)
    qed
  qed
qed

text \<open>What the rounds bring of a stream until it is closed.\<close>

fun child_output :: "bool \<Rightarrow> (64 word \<times> poll_round) list \<Rightarrow> bytes" where
  "child_output err [] = []"
| "child_output err ((now, p) # ps) =
     read_bytes (stream_read err p) @ (if read_closes (stream_read err p) then [] else child_output err ps)"

lemma stream_event_loop_logs:
  "stream_event_loop hx ps l = Some (LoopRunning l') \<Longrightarrow> loop_ok l
   \<Longrightarrow> loop_ok l' \<and> log_content err (lp_state l') = log_content err (lp_state l) @ (if stream_open err l then child_output err ps else [])"
proof (induction ps arbitrary: l)
  case (Cons x ps)
  obtain now p where x: "x = (now, p)" by fastforce
  then obtain l1 where r: "loop_round (hx\<lparr>hx_now := now\<rparr>) p l = Some (Inr (), l1)" "stream_event_loop hx ps l1 = Some (LoopRunning l')"
    using Cons.prems(1) by (auto split: if_splits option.splits sum.splits)
  have a: "advances p l l1" by (rule loop_round_advances [OF r(1) Cons.prems(2)])
  then have "loop_ok l1" by (simp add: advances_def)
  then show ?case using Cons.IH [OF r(2)] a x by (auto simp: advances_def)
qed (simp split: if_splits)

section \<open>From the start\<close>

lemma open_state_file_new:
  "open_state_file env dir name s = (Inr path, s') \<longleftrightarrow>
     make_state_file_path dir name = Inr path \<and> ce_create_error env path = None \<and> st_files s path = None
     \<and> s' = s\<lparr>st_files := (st_files s)(path \<mapsto> [])\<rparr>"
  by (auto simp: open_state_file_def split: sum.splits option.splits)

lemma make_state_file_path_inj:
  "make_state_file_path dir n1 = Inr p \<Longrightarrow> make_state_file_path dir n2 = Inr p \<Longrightarrow> n1 = n2"
  by (auto simp: make_state_file_path_def split: if_splits)

definition fresh_logs :: "'v controller_state \<Rightarrow> bool" where
  "fresh_logs s \<longleftrightarrow> logs_ok s \<and> (\<forall>err. log_content err s = [])"

lemma keeps_fresh_logs: "keeps s s' \<Longrightarrow> fresh_logs s \<Longrightarrow> fresh_logs s'"
  by (auto simp: fresh_logs_def keeps_log_content intro: keeps_logs_ok)

lemma open_logs_fresh:
  assumes "open_logs env s = (Inr u, s')" "st_stdout_offset s = 0" "st_stderr_offset s = 0"
  shows "fresh_logs s'"
proof -
  obtain ev s1 where e: "open_state_file env (st_log_dir s) ''events.log'' s = (ev, s1)" by fastforce
  obtain out s2 where o: "open_state_file env (st_log_dir s) ''stdout.log'' s1 = (out, s2)" by fastforce
  obtain err s3 where r: "open_state_file env (st_log_dir s) ''stderr.log'' s2 = (err, s3)" by fastforce
  have "\<exists>pe po pr. ev = Inr pe \<and> out = Inr po \<and> err = Inr pr" using assms(1) e o r
    by (cases ev; cases out; cases err) (auto simp: open_logs_def)
  then obtain pe po pr where i: "ev = Inr pe" "out = Inr po" "err = Inr pr" by blast
  have p: "make_state_file_path (st_log_dir s) ''events.log'' = Inr pe" "make_state_file_path (st_log_dir s) ''stdout.log'' = Inr po"
    "make_state_file_path (st_log_dir s) ''stderr.log'' = Inr pr"
    using e o r i by (simp_all add: open_state_file_new)
  have ne: "pe \<noteq> po" "pe \<noteq> pr" "po \<noteq> pr" using p make_state_file_path_inj by fastforce+
  have s': "s' = s\<lparr>st_files := (st_files s)(pe \<mapsto> [], po \<mapsto> [], pr \<mapsto> []), st_events_fd := Some pe, st_stdout_fd := Some po,
      st_stderr_fd := Some pr\<rparr>"
    using assms(1) e o r i by (simp add: open_logs_def open_state_file_new to_option_def)
  have c: "log_content b s' = []" for b using ne by (cases b) (simp_all add: s' log_content_def stream_fd_def)
  have "\<exists>path. stream_fd b s' = Some path \<and> make_log_file_path s' (log_name b) = Inr path \<and> st_files s' path \<noteq> None
        \<and> st_events_fd s' \<noteq> Some path \<and> stream_offset b s' = int (length (log_content b s'))" for b
    using ne p assms(2,3) unfolding c
    by (cases b) (simp_all add: s' stream_fd_def stream_offset_def log_name_def make_log_file_path_def)
  then show ?thesis using ne c unfolding fresh_logs_def logs_ok_def by (simp add: s')
qed

lemma initialize_fresh:
  assumes "initialize_controller_state env gen dir log_dir pid command mode eof files = (Inr u, s)"
  shows "fresh_logs s"
proof -
  obtain s0 s1 event where w: "write_metadata env pid command mode eof s0 = (Inr (), s1)"
      and z: "st_stdout_offset s0 = 0" "st_stderr_offset s0 = 0"
      and o: "\<exists>s2. open_logs env s1 = (Inr (), s2) \<and> append_event env event s2 = (Inr u, s)"
    using assms
    by (auto simp: initialize_controller_state_def initialize_empty_controller_state_def Let_def split: sum.splits prod.splits if_splits)
  have "st_stdout_offset s1 = 0" "st_stderr_offset s1 = 0" using w z
    by (auto simp: write_metadata_def open_state_file_def append_file_def Let_def split: sum.splits option.splits prod.splits if_splits)
  then show ?thesis using o open_logs_fresh keeps_fresh_logs keeps_steps(1) [OF _ keeps_refl] by blast
qed

lemma keeps_launch [simp]:
  "keeps s (s1\<lparr>st_debug_input := b\<rparr>) = keeps s s1"
  "keeps s (s1\<lparr>st_debug_library := b\<rparr>) = keeps s s1"
  "keeps s (s1\<lparr>st_debug_terminal := b\<rparr>) = keeps s s1"
  "keeps s (s1\<lparr>st_resizable := b\<rparr>) = keeps s s1"
  "keeps s (s1\<lparr>st_stderr_resizable := b\<rparr>) = keeps s s1"
  by (simp_all add: keeps_def)

lemma open_controller_fresh: "open_controller hx ln a pid command mode files = (Inr u, s) \<Longrightarrow> fresh_logs s"
  by (auto simp: open_controller_def Let_def set_debug_flags_def split: prod.splits sum.splits dest!: initialize_fresh
      elim!: keeps_fresh_logs [rotated])

lemma initial_clients: "clients_ok s initialize_control_clients" "length initialize_control_clients = CUBICLE_MAX_CONTROL_CLIENTS"
  by (simp_all add: initialize_control_clients_def clients_ok_def list_all_length)

definition started :: "process_mode \<Rightarrow> 'v loop \<Rightarrow> bool" where
  "started mode l \<longleftrightarrow> loop_ok l \<and> (\<forall>err. log_content err (lp_state l) = [] \<and> stream_open err l = (\<not> err \<or> mode \<noteq> ModeTty))"

lemma starting_loop_started:
  "fresh_logs s \<Longrightarrow> mode = ModeStream \<Longrightarrow> started mode (starting_loop s)"
  "fresh_logs s \<Longrightarrow> mode \<noteq> ModeStream \<Longrightarrow> started mode ((starting_loop s)\<lparr>lp_local_input := b, lp_stderr_open := mode = ModeTerm\<rparr>)"
  using initial_clients(1) [of s] initial_clients(2)
  by (auto simp: started_def starting_loop_def fresh_logs_def loop_ok_def stream_open_def intro: process_mode.exhaust [of mode])

lemma terminal_start_started:
  assumes "terminal_start hx ln a (mode = ModeTerm) dims m s = Inr l" "fresh_logs s" "mode \<noteq> ModeStream"
  shows "started mode l"
proof -
  obtain t where t: "terminal_start hx ln a (mode = ModeTerm) dims m s = (case checked_debug_event (hx_env hx) 160 t
      (s\<lparr>st_model := Some m, st_stdin_open := \<not> ag_stdin_eof a, st_child_writes := ln_child_writes ln\<rparr>) of
        (Inl e, s1) \<Rightarrow> Inl (give_up hx s1)
      | (Inr _, s1) \<Rightarrow> (case (if ag_stdin_eof a then Inr False else ln_raw_mode ln) of Inl e \<Rightarrow> Inl (give_up hx s1)
           | Inr raw \<Rightarrow> Inr ((starting_loop s1)\<lparr>lp_local_input := raw, lp_stderr_open := mode = ModeTerm\<rparr>)))"
    by (simp only: terminal_start_def)
  obtain q s1 where c: "checked_debug_event (hx_env hx) 160 t
      (s\<lparr>st_model := Some m, st_stdin_open := \<not> ag_stdin_eof a, st_child_writes := ln_child_writes ln\<rparr>) = (q, s1)" by fastforce
  have "keeps s s1" using keeps_steps(3) [OF c, of s] by simp
  then have f: "fresh_logs s1" using keeps_fresh_logs assms(2) by blast
  show ?thesis using assms(1) t c starting_loop_started(2) [OF f assms(3)]
    by (cases q) (auto split: sum.splits if_splits)
qed

lemma controller_start_started:
  assumes "controller_start hx ln a mode command files = Some (Inr l)"
  shows "started mode l"
proof (cases "mode = ModeStream")
  case True
  obtain s where s: "\<exists>pid. open_controller (child_context hx ln) ln a pid command ModeStream files = (Inr (), s)"
    "l = starting_loop (s\<lparr>st_stdin_open := \<not> ag_stdin_eof a, st_child_writes := ln_child_writes ln\<rparr>)"
    using assms True by (auto simp: controller_start_def stream_start_def Let_def split: if_splits sum.splits prod.splits)
  have "keeps s (s\<lparr>st_stdin_open := \<not> ag_stdin_eof a, st_child_writes := ln_child_writes ln\<rparr>)" by simp
  then show ?thesis using s starting_loop_started(1) [OF _ True] open_controller_fresh keeps_fresh_logs by blast
next
  case False
  then obtain s m and z :: "'a controller_state" where o: "\<exists>pid. open_controller (child_context hx ln) ln a pid command mode files = (Inr (), s)"
    "terminal_start (child_context hx ln) ln a (mode = ModeTerm) (known_size z) m
       ((unsized_terminal (mode = ModeTerm) s)\<lparr>st_terminal_size := st_terminal_size z, st_winsize := st_winsize z\<rparr>) = Inr l"
    using assms by (auto simp: controller_start_def pty_start_def Let_def split: if_splits sum.splits prod.splits option.splits)
  have "keeps s ((unsized_terminal (mode = ModeTerm) s)\<lparr>st_terminal_size := st_terminal_size z, st_winsize := st_winsize z\<rparr>)"
    by (simp add: unsized_terminal_def)
  then show ?thesis using terminal_start_started [OF o(2) _ False] open_controller_fresh o(1) keeps_fresh_logs by blast
qed

section \<open>The output and the buffers of a running controller\<close>


text \<open>C11. Through the same rounds the controller keeps its 32 slots, and the buffers of each stay in bounds: a request is shorter
  than 8192 bytes, a response is within its capacity, the capacity within 4 MiB, and what was written within the response.\<close>

theorem control_buffers_bounded:
  assumes "controller_start hx ln a mode command files = Some (Inr l)"
    and "stream_event_loop (child_context hx ln) rounds l = Some (LoopRunning l')"
  shows "length (lp_clients l') = 32
    \<and> (\<forall>c \<in> set (lp_clients l'). length (cc_request c) < 8192 \<and> cc_response_offset c \<le> length (cc_response c)
         \<and> length (cc_response c) \<le> cc_response_capacity c \<and> cc_response_capacity c \<le> 4194304)"
proof -
  have "loop_ok l'" using controller_start_started [OF assms(1)] stream_event_loop_logs [OF assms(2)] by (auto simp: started_def)
  then show ?thesis by (auto simp: loop_ok_def clients_ok_def list_all_iff client_ok_def buffers_ok_def control_limits)
qed

text \<open>A run in which a client attaches to the output after its first three bytes.\<close>

definition test_env :: controller_env where
  "test_env =
     \<lparr>ce_mkdir = (\<lambda>_. Made), ce_lstat_error = (\<lambda>_. Some ENOENT), ce_create_error = (\<lambda>_. None), ce_open_error = (\<lambda>_. None),
      ce_metadata_write = [], ce_event_write = (\<lambda>_. []), ce_log_write = (\<lambda>_. []), ce_kill_error = (\<lambda>_. None),
      ce_winsize_error = (\<lambda>_ _. None), ce_stderr_winsize_error = (\<lambda>_ _. None), ce_alloc = (\<lambda>_. True), ce_json = (\<lambda>_. None)\<rparr>"

definition test_context :: "unit control_context" where
  "test_context = \<lparr>hx_env = test_env, hx_vterm = small_vterm, hx_pid = 0, hx_completed = False, hx_result = 0, hx_now = 0\<rparr>"

definition test_socket :: socket_env where
  "test_socket = \<lparr>se_lstat = (\<lambda>_. LstatError ENOENT), se_connect = (\<lambda>_. Inr False), se_unlink = (\<lambda>_. None), se_socket = None,
     se_flags = None, se_bind = (\<lambda>_. None)\<rparr>"

definition test_launch :: launch where
  "test_launch = \<lparr>ln_descriptors = None, ln_fork = Inr 42, ln_nonblocking = None, ln_generated = Inr ''c1'', ln_socket = test_socket,
     ln_raw_mode = Inr False, ln_window = WindowNone, ln_rounds = [], ln_wait = [], ln_clock = None, ln_retention_rounds = [],
     ln_child_writes = []\<rparr>"

definition test_client_round :: "bytes \<Rightarrow> client_round" where
  "test_client_round d = \<lparr>cr_in = True, cr_out = True, cr_hup = False, cr_err = False, cr_writes = [WShort 7], cr_reads = [RData d]\<rparr>"

definition test_round :: "accept_outcome list option \<Rightarrow> bytes \<Rightarrow> read_outcome option \<Rightarrow> poll_round" where
  "test_round acc d out = \<lparr>pr_wait = [WaitRunning], pr_resize_pending = False, pr_window = WindowNone, pr_poll = None, pr_ready = True,
     pr_accept = acc, pr_local = None, pr_local_hup = False, pr_local_window = WindowNone,
     pr_clients = replicate 1 (test_client_round d), pr_stdout = out, pr_stderr = None, pr_stdout_echo = [], pr_stderr_echo = []\<rparr>"

definition test_rounds :: "(64 word \<times> poll_round) list" where
  "test_rounds =
     [(0, test_round (Some [Accepted 7 True True, AcceptError EAGAIN]) [] (Some (RData ''one''))),
      (1, test_round None (''attach stdout 1'' @ [NL]) (Some (RData ''two''))),
      (2, test_round None [] (Some (RData ''three'')))]"

definition test_arguments :: arguments where
  "test_arguments = default_arguments\<lparr>ag_state_dir := Some ''/d'', ag_mode := Some ''stream''\<rparr>"

lemma test_run:
  obtains l l' where
    "controller_start test_context test_launch test_arguments ModeStream [''x''] (\<lambda>_. None) = Some (Inr l)"
    "stream_event_loop (child_context test_context test_launch) test_rounds l = Some (LoopRunning l')"
    "lp_clients l' \<noteq> []" "cc_kind (hd (lp_clients l')) = ClientAttachedStdout"
proof -
  have "case controller_start test_context test_launch test_arguments ModeStream [''x''] (\<lambda>_. None) of
     Some (Inr l) \<Rightarrow> (case stream_event_loop (child_context test_context test_launch) test_rounds l of
        Some (LoopRunning l') \<Rightarrow> lp_clients l' \<noteq> [] \<and> cc_kind (hd (lp_clients l')) = ClientAttachedStdout | _ \<Rightarrow> False)
   | _ \<Rightarrow> False"
    by code_simp
  then obtain l where l: "controller_start test_context test_launch test_arguments ModeStream [''x''] (\<lambda>_. None) = Some (Inr l)"
    "case stream_event_loop (child_context test_context test_launch) test_rounds l of
        Some (LoopRunning l') \<Rightarrow> lp_clients l' \<noteq> [] \<and> cc_kind (hd (lp_clients l')) = ClientAttachedStdout | _ \<Rightarrow> False"
    by (auto split: option.splits sum.splits)
  obtain x where x: "stream_event_loop (child_context test_context test_launch) test_rounds l = Some x" using l(2) by (auto split: option.splits)
  show ?thesis using that l x by (cases x) auto
qed


theorem control_buffers_bounded_witness:
  "\<exists>l l'. controller_start test_context test_launch test_arguments ModeStream [''x''] (\<lambda>_. None) = Some (Inr l)
    \<and> stream_event_loop (child_context test_context test_launch) test_rounds l = Some (LoopRunning l')
    \<and> length (lp_clients l') = 32 \<and> cc_response_capacity (hd (lp_clients l')) \<le> 4194304"
proof -
  obtain l l' where r: "controller_start test_context test_launch test_arguments ModeStream [''x''] (\<lambda>_. None) = Some (Inr l)"
    "stream_event_loop (child_context test_context test_launch) test_rounds l = Some (LoopRunning l')"
    "lp_clients l' \<noteq> []" "cc_kind (hd (lp_clients l')) = ClientAttachedStdout"
    by (rule test_run)
  then show ?thesis using control_buffers_bounded [OF r(1,2)] by auto
qed

section \<open>Answers that do not fit\<close>

text \<open>
  The buffer of an answer leaves no room for the escapes of the request's identifier: for one of 63 control
  characters no request that succeeds is answered, and the loop of the controller ends with the failure.
\<close>

lemma escaped_id_not_answered:
  "\<exists>e. fst (enqueue_api_success hx (replicate 63 (CHR 0x01)) ''{}'' c) = Inl e"
proof -
  have "\<not> (case rbind (append_raw 193 [] ''{\"request_id\":'') (\<lambda>u. append_json_string 193 u (replicate 63 (CHR 0x01))) of
      Inr _ \<Rightarrow> True | _ \<Rightarrow> False)"
    by code_simp
  then show ?thesis
    by (auto simp: enqueue_api_success_def cubicle_rpc_success_def Let_def rbind_eq_Inr split: sum.splits)
qed
end
