(* ===== verification/Spec2Isabelle.thy ===== *)
theory Spec2Isabelle
  imports Config_Parser Json_Reader Manager_Daemon Controller_Output
begin

text \<open>
  Cubicle runs programs for a user. Each program has a \<^emph>\<open>controller\<close>, a process that owns its terminal or pipes,
  logs its output and serves clients on a socket; a \<^emph>\<open>manager\<close> per user keeps workspaces, keys and process records, starts
  controllers and relays requests to them; clients speak to the manager in JSON frames over Unix, TCP or TLS streams. This
  development models the C sources under \<open>src/src\<close>.

  \<^bold>\<open>Conventions.\<close> A byte is a \<open>char\<close>, a buffer or C string a list of them (\<open>cstr\<close> cuts at the first NUL); sizes whose overflow
  matters are \<open>64 word\<close>, the others \<open>nat\<close> with the bounds of the buffers written out. A fallible function gives \<open>errno + 'a\<close>; \<open>None\<close>
  stands for a loop that does not return or for undefined behaviour. The kernel, OpenSSL, yyjson and libvterm are arguments:
  records of the outcomes of calls (\<open>manager_env\<close>, \<open>controller_env\<close>, \<open>launch\<close>, \<open>poll_round\<close>), a JSON reader (\<open>json_reader\<close>), and a
  terminal that calls back (\<open>vterm\<close>) with its documented behaviour as \<open>vterm_lawful\<close>; each has a concrete instance.

  \<^bold>\<open>Parts, theories and what is shown.\<close>
  \<^item> \<open>Cubicle_Prelude\<close>: bytes, error numbers, results, printed numbers.
  \<^item> \<open>Utf8\<close>, \<open>Json_Text\<close> (\<open>common/rpc.c\<close>): the UTF-8 prefix of a chunk, the escapers and the growing builder. Escaped text reads
    back, a kept prefix is whole characters, and growing a buffer ends without overflow.
  \<^item> \<open>Json_Value\<close>, \<open>Json_Reader\<close> (\<open>common/json.c\<close>): the limits on values and the getters. What is accepted is characterised by
    depth and size; a reader of JSON written here satisfies the laws asked of yyjson.
  \<^item> \<open>Rpc_Envelope\<close> (\<open>common/rpc.c\<close>): requests, successes and errors read back, but for an error whose identifier needs escapes.
  \<^item> \<open>Config_Parser\<close> (\<open>common/config_parser.c\<close>): printed entries read back, and an error names the first bad line;
    the locale \<open>config_table\<close> is what the reader asks of its table.
  \<^item> \<open>Auth_Protocol\<close> (\<open>common/auth_protocol.c\<close>): signed messages of different contents differ; hexadecimal text reads back.
  \<^item> \<open>Io\<close>, \<open>Frames\<close> (\<open>common/util.c\<close>, \<open>controller/io.c\<close>, \<open>client/transport_*.c\<close>, \<open>manager/main.c\<close>): descriptors, TLS streams and
    frames. The locales \<open>byte_source\<close>, \<open>byte_sink\<close> and \<open>transport\<close> hold what both kinds of stream promise; a request and its response
    arrive whole however the stream is cut.
  \<^item> \<open>Registry\<close>, \<open>Manager_Store\<close> (\<open>manager/registry.c\<close>, \<open>manager/main.c\<close>): records and their files, with the locale \<open>record_file\<close>.
    The files refine finite maps and lists of records.
  \<^item> \<open>Manager_Access\<close>, \<open>Manager_Session\<close>, \<open>Manager_Control\<close>, \<open>Manager_Workspaces\<close>, \<open>Manager_Processes\<close>, \<open>Manager_Attach\<close>,
    \<open>Controller_Link\<close>, \<open>Manager_Daemon\<close> (\<open>manager/main.c\<close>): the requests of the manager, a theory per group, the connections it keeps
    to controllers, and the loop over the requests of a connection. A capability needs a signature; a client without keys is
    given nothing and changes nothing; deleting, removing and cleaning touch only what they may; waiting ends.
  \<^item> \<open>Terminal_Model\<close> (\<open>common/terminal_model.c\<close>): the screen behind a terminal. Every sequence of calls keeps its arrays in bounds,
    and the ring of captured lines is the list of the last lines.
  \<^item> \<open>Controller_State\<close> (\<open>controller/state.c\<close>): directories, metadata, logs and events.
  \<^item> \<open>Controller_Control\<close>, \<open>Controller_Requests\<close> (\<open>controller/control.c\<close>): the clients and their buffers, the methods of the API, the
    line commands, reading and flushing.
  \<^item> \<open>Controller_Stream\<close>, \<open>Controller_Run\<close> (\<open>controller/stream.c\<close>, \<open>controller/main.c\<close>): the event loop a round at a time, the loop after
    the end of the child, the arguments and the start in either mode.
  \<^item> \<open>Controller_Clients\<close>, \<open>Controller_Output\<close>: the invariant of the controller. \<open>keeps\<close> is the frame of all that leaves the logs
    alone, \<open>client_ok\<close> what holds of a slot, \<open>loop_ok\<close> of the loop; every log is what was read, and every attached client gets it.
  \<^item> This theory: the command line that the manager writes and the controller reads.

  \<^bold>\<open>Bounds and fuel.\<close> Nothing runs on fuel. Loops over input are structural or have a measure; \<open>grow_capacity\<close>, \<open>wait_loop\<close> and
  \<open>handle_manager_connection\<close> are partial functions, the first two with proofs that they return. The event loop consumes a list of
  rounds, one for each return of \<open>poll\<close>: its theorems hold for every list, so for every finite run. Limits (8192 bytes of a request,
  4 MiB of a response, 32 clients, 65536 bytes of a frame or of a catch-up) are the constants of the sources. When a list
  of outcomes ends, writes succeed, a blocking read does not return (\<open>None\<close>), one that does not block finds nothing more, and a
  wait fails.

  \<^bold>\<open>Not modelled.\<close> \<open>common/config.c\<close> (a table of settings), \<open>common/log.c\<close> (output that no part reads), the client library but for
  its transports, the command line \<open>cli/main.c\<close>, the desk \<open>desk/main.c\<close> and \<open>cubeui/\<close> (input and output on a terminal over the
  client library), the threads, listening sockets and start of the manager, key files and cryptography of \<open>common/auth_crypto.c\<close>
  (calls of OpenSSL), the child's side of \<open>fork\<close>, and the bundled yyjson.
\<close>

section \<open>The manager and its controllers\<close>

text \<open>What a controller should be started with.\<close>

definition start_arguments :: "start_request \<Rightarrow> start_plan \<Rightarrow> bytes \<Rightarrow> debug_flags \<Rightarrow> arguments" where
  "start_arguments q pl histfile f =
     \<lparr>ag_mode = Some (sq_mode q), ag_state_dir = Some (sp_state pl), ag_log_dir = Some (sp_log pl),
      ag_control_socket = Some (sp_socket pl), ag_cwd = Some (sp_cwd pl), ag_histfile = Some histfile,
      ag_stdin_eof = (sq_stdin_policy q = ''eof''), ag_daemon = True, ag_retention = 0, ag_debug = f\<rparr>"

lemma option_names:
  "valued_option ''--stdin-policy'' v a = (case parse_stdin_policy v of None \<Rightarrow> OptionBad | Some e \<Rightarrow> OptionTaken (a\<lparr>ag_stdin_eof := e\<rparr>))"
  "valued_option ''--state-dir'' v a = OptionTaken (a\<lparr>ag_state_dir := Some v\<rparr>)"
  "valued_option ''--log-dir'' v a = OptionTaken (a\<lparr>ag_log_dir := Some v\<rparr>)"
  "valued_option ''--control-socket'' v a = OptionTaken (a\<lparr>ag_control_socket := Some v\<rparr>)"
  "valued_option ''--mode'' v a = OptionTaken (a\<lparr>ag_mode := Some v\<rparr>)"
  "valued_option ''--cwd'' v a = OptionTaken (a\<lparr>ag_cwd := Some v\<rparr>)"
  "valued_option ''--histfile'' v a = OptionTaken (a\<lparr>ag_histfile := Some v\<rparr>)"
  "valued_option ''--debug'' v a = (case parse_debug_flags v of None \<Rightarrow> OptionBad | Some f \<Rightarrow> OptionTaken (a\<lparr>ag_debug := f\<rparr>))"
  by (simp_all add: valued_option_def)

lemma no_debug: "parse_debug_flags s = Some f \<Longrightarrow> s = [] \<or> s = ''none'' \<Longrightarrow> f = (False, False, False)"
  by (auto simp: parse_debug_flags_def)

lemma controller_argv_parsed:
  assumes "sq_stdin_policy q \<in> {''open'', ''eof''}" "parse_debug_flags (env_controller_debug env) = Some f" "command \<noteq> []"
  shows "parse_arguments (tl (controller_argv env (sp_state pl) (sp_log pl) (sp_socket pl) (sq_mode q) (sq_stdin_policy q) (sp_cwd pl)
      histfile command)) default_arguments = Parsed (start_arguments q pl histfile f) command"
proof -
  obtain c cs where c: "command = c # cs" using assms(3) by (cases command) auto
  have p: "parse_stdin_policy (sq_stdin_policy q) = Some (sq_stdin_policy q = ''eof'')"
    using assms(1) by (auto simp: parse_stdin_policy_def)
  show ?thesis using no_debug [OF assms(2)] assms(2)
    by (auto simp: controller_argv_def c p option_names start_arguments_def default_arguments_def)
qed

lemma start_checks_plan:
  assumes "process_start_checks env conn params m = Inr (q, pl)"
  shows "sq_mode q \<in> {''stream'', ''tty'', ''term''}" "sq_stdin_policy q \<in> {''open'', ''eof''}" "sp_argv pl \<noteq> []"
proof -
  obtain n where n: "start_name env q = Some n" and a: "command_argv (array_items (sq_argv q)) = Some (sp_argv pl)"
    using assms by (auto simp: process_start_checks_def rbind_eq_Inr some_or_def split: option.splits)
  show "sq_mode q \<in> {''stream'', ''tty'', ''term''}" "sq_stdin_policy q \<in> {''open'', ''eof''}"
    using n by (auto simp: start_name_def split: if_splits sum.splits option.splits)
  have "array_items (sq_argv q) \<noteq> []"
    using n by (auto simp: start_name_def array_items_def cubicle_json_array_size_def split: if_splits json.splits)
  then show "sp_argv pl \<noteq> []" using a
    by (cases "array_items (sq_argv q)") (auto split: json.splits if_splits)
qed

lemma process_start_launches:
  assumes "process_start env mid conn params m = (r, m')" "mg_launched m' \<noteq> mg_launched m"
  obtains q pl histfile where "process_start_checks env conn params m = Inr (q, pl)"
    "process_history_file_path env (ws_name (sp_workspace pl)) (ws_id (sp_workspace pl)) (sp_name pl) (sp_process_id pl) = Inr histfile"
    "mg_launched m' = mg_launched m @ [(sp_process_id pl, controller_argv env (sp_state pl) (sp_log pl) (sp_socket pl) (sq_mode q)
       (sq_stdin_policy q) (sp_cwd pl) histfile (sp_argv pl))]"
  using assms
  by (auto simp: process_start_def launch_controller_def with_processes_def Let_def
      split: sum.splits prod.splits option.splits)

text \<open>C4. A manager that starts a controller for a request gives it a command line from which the controller reads back exactly
  what was decided: the mode, the directories, the socket, the working directory, the file of the history, whether the input ends at
  once, the flags for debugging, and as the command the words of the request; the mode is one the controller knows and the command
  is not empty, so that it does not end with its usage.\<close>

theorem controller_started_as_asked:
  assumes "process_start env mid conn params m = (r, m')" "mg_launched m' \<noteq> mg_launched m"
    and "parse_debug_flags (env_controller_debug env) = Some f"
  shows "\<exists>q pl histfile argv mode. process_start_checks env conn params m = Inr (q, pl)
    \<and> process_history_file_path env (ws_name (sp_workspace pl)) (ws_id (sp_workspace pl)) (sp_name pl) (sp_process_id pl) = Inr histfile
    \<and> mg_launched m' = mg_launched m @ [(sp_process_id pl, argv)]
    \<and> parse_arguments (tl argv) default_arguments = Parsed (start_arguments q pl histfile f) (sp_argv pl)
    \<and> parse_mode (sq_mode q) = Some mode \<and> sp_argv pl \<noteq> []"
proof -
  obtain q pl histfile where s: "process_start_checks env conn params m = Inr (q, pl)"
    "process_history_file_path env (ws_name (sp_workspace pl)) (ws_id (sp_workspace pl)) (sp_name pl) (sp_process_id pl) = Inr histfile"
    "mg_launched m' = mg_launched m @ [(sp_process_id pl, controller_argv env (sp_state pl) (sp_log pl) (sp_socket pl) (sq_mode q)
       (sq_stdin_policy q) (sp_cwd pl) histfile (sp_argv pl))]"
    by (rule process_start_launches [OF assms(1,2)])
  note c = start_checks_plan [OF s(1)]
  obtain mode where "parse_mode (sq_mode q) = Some mode" using c(1) by (auto simp: parse_mode_def)
  then show ?thesis using s c(3) controller_argv_parsed [OF c(2) assms(3) c(3)] by blast
qed

theorem controller_started_as_asked_witness:
  "\<exists>r m' q pl argv histfile. process_start example_env ''m'' owner_connection
      (JObj [(''workspace_id'', JStr ''w1''), (''friendly_name'', JStr ''sh''), (''mode'', JStr ''tty''), (''argv'', JArr [JStr ''sh''])])
      example_manager = (r, m')
    \<and> mg_launched m' = [(sp_process_id pl, argv)]
    \<and> parse_arguments (tl argv) default_arguments = Parsed (start_arguments q pl histfile (False, False, False)) (sp_argv pl)"
proof -
  let ?p = "JObj [(''workspace_id'', JStr ''w1''), (''friendly_name'', JStr ''sh''), (''mode'', JStr ''tty''), (''argv'', JArr [JStr ''sh''])]"
  obtain r m' where s: "process_start example_env ''m'' owner_connection ?p example_manager = (r, m')" by fastforce
  have "mg_launched (snd (process_start example_env ''m'' owner_connection ?p example_manager)) \<noteq> mg_launched example_manager"
    by code_simp
  then have l: "mg_launched m' \<noteq> mg_launched example_manager" using s by simp
  have d: "parse_debug_flags (env_controller_debug example_env) = Some (False, False, False)"
    by (simp add: example_env_def parse_debug_flags_def)
  have "mg_launched example_manager = []" by (simp add: example_manager_def)
  then show ?thesis using controller_started_as_asked [OF s l d] s by (simp only: append_Nil) blast
qed

end
